(* ===== verification/Prelude.thy ===== *)
theory Prelude
  imports Main "HOL-Library.Word"
begin

text \<open>
  Shared vocabulary of the development: what a Go call can end in, the effect type of the
  operations that talk to a port (RPC node, store, signer, clock), and the rules by which the
  component theories reason about them.

  \<^item> \<open>res\<close> is the outcome of a Go call: a value with a nil error, a non-nil error, or a panic.
  \<^item> \<open>io\<close> is an operation on a world: it may never return (\<open>None\<close>), or return an outcome
    together with the world it leaves.
  \<^item> \<open>io_ok\<close> collects the rewrite rules that turn "this composite operation returned Ok" into
    "each of its calls returned Ok, in this order".
  \<^item> \<open>moves R m\<close> says what \<open>m\<close> may change of the world, \<open>returns m\<close> that it comes back; the
    collections \<open>moves_intros\<close> and \<open>returns_intros\<close> prove both along the structure of an operation.
\<close>

section \<open>Errors and outcomes\<close>

type_synonym byte = "8 word"
type_synonym bytes = "8 word list"
type_synonym u32 = "32 word"
type_synonym u64 = "64 word"
type_synonym i64 = "64 word" \<comment> \<open>read with \<open>sint\<close>\<close>

text \<open>
  \<open>Errorf\<close> is \<open>errors.New\<close> or \<open>fmt.Errorf\<close> without \<open>%w\<close>: the format and the strings it
  prints. \<open>Wrap\<close> is \<open>fmt.Errorf\<close> with \<open>%w\<close>. The sentinels are the package's own error
  variables, \<open>NotFound\<close> is the RPC library's sentinel, and \<open>External\<close> stands for any other
  error a library or a port returns.
\<close>

datatype error =
    Errorf string "string list"
  | Wrap string "string list" error
  | ErrNoAuthorization
  | ErrAuthorizationMissingSignature
  | ErrAllowanceExceeded
  | ErrReceiptTimeout
  | ErrSignerNotConfigured
  | ErrMasterSeedNotConfigured
  | NotFound
  | External string

text \<open>\<open>errors.Is\<close>: the error itself or one it wraps is the target.\<close>

fun errIs :: "error \<Rightarrow> error \<Rightarrow> bool" where
  "errIs (Wrap m as e) t \<longleftrightarrow> Wrap m as e = t \<or> errIs e t"
| "errIs e t \<longleftrightarrow> e = t"

datatype 'a res = Ok 'a | Err error | Panic

fun res_bind :: "'a res \<Rightarrow> ('a \<Rightarrow> 'b res) \<Rightarrow> 'b res" where
  "res_bind (Ok a) f = f a"
| "res_bind (Err e) f = Err e"
| "res_bind Panic f = Panic"

fun res_wrap :: "string \<Rightarrow> string list \<Rightarrow> 'a res \<Rightarrow> 'a res" where
  "res_wrap m as (Ok a) = Ok a"
| "res_wrap m as (Err e) = Err (Wrap m as e)"
| "res_wrap m as Panic = Panic"

definition isOk :: "'a res \<Rightarrow> bool" where
  "isOk r = (case r of Ok _ \<Rightarrow> True | _ \<Rightarrow> False)"

lemma isOk_simps [simp]: "isOk (Ok a)" "\<not> isOk (Err e)" "\<not> isOk Panic"
  by (simp_all add: isOk_def)

lemma isOk_iff: "isOk r \<longleftrightarrow> (\<exists>a. r = Ok a)"
  by (cases r) auto

named_theorems io_ok \<open>when a composite call returns Ok\<close>

lemma res_bind_Ok_iff [io_ok]:
  "res_bind m f = Ok b \<longleftrightarrow> (\<exists>a. m = Ok a \<and> f a = Ok b)"
  by (cases m) auto

lemma res_wrap_Ok_iff [io_ok, simp]: "res_wrap s as m = Ok a \<longleftrightarrow> m = Ok a"
  by (cases m) auto

lemma res_wrap_Panic_iff [simp]: "res_wrap s as m = Panic \<longleftrightarrow> m = Panic"
  by (cases m) auto

lemma res_bind_Panic_iff:
  "res_bind m f = Panic \<longleftrightarrow> m = Panic \<or> (\<exists>a. m = Ok a \<and> f a = Panic)"
  by (cases m) auto

section \<open>Operations on a world\<close>

type_synonym ('w, 'a) io = "'w \<Rightarrow> ('a res \<times> 'w) option"

definition ret :: "'a \<Rightarrow> ('w, 'a) io" where
  "ret a w = Some (Ok a, w)"

definition fail :: "error \<Rightarrow> ('w, 'a) io" where
  "fail e w = Some (Err e, w)"

definition lift :: "'a res \<Rightarrow> ('w, 'a) io" where
  "lift r w = Some (r, w)"

text \<open>
  \<open>io_try m h k\<close> runs \<open>m\<close> and goes on with \<open>k\<close> on a value and with \<open>h\<close> on an error;
  \<open>io_bind\<close> returns the error, the Go idiom \<open>if err != nil { return err }\<close>.
\<close>

definition io_try :: "('w, 'a) io \<Rightarrow> (error \<Rightarrow> ('w, 'b) io) \<Rightarrow> ('a \<Rightarrow> ('w, 'b) io) \<Rightarrow> ('w, 'b) io" where
  "io_try m h k w =
     (case m w of
        None \<Rightarrow> None
      | Some (r, w') \<Rightarrow>
          (case r of Ok a \<Rightarrow> k a w' | Err e \<Rightarrow> h e w' | Panic \<Rightarrow> Some (Panic, w')))"

definition io_bind :: "('w, 'a) io \<Rightarrow> ('a \<Rightarrow> ('w, 'b) io) \<Rightarrow> ('w, 'b) io" where
  "io_bind m k = io_try m fail k"

text \<open>\<open>fmt.Errorf("...: %w", err)\<close> on the error of a call.\<close>

definition io_wrap :: "string \<Rightarrow> string list \<Rightarrow> ('w, 'a) io \<Rightarrow> ('w, 'a) io" where
  "io_wrap s as m = io_try m (\<lambda>e. fail (Wrap s as e)) ret"

text \<open>Both results of a call as values, for the places where the code ignores an error.\<close>

definition io_both :: "('w, 'a) io \<Rightarrow> ('w, error + 'a) io" where
  "io_both m = io_try m (\<lambda>e. ret (Inl e)) (\<lambda>a. ret (Inr a))"

lemma ret_iff [io_ok, simp]: "ret a w = Some (r, w') \<longleftrightarrow> r = Ok a \<and> w' = w"
  by (auto simp: ret_def)

lemma fail_iff [io_ok, simp]: "fail e w = Some (r, w') \<longleftrightarrow> r = Err e \<and> w' = w"
  by (auto simp: fail_def)

lemma lift_iff [io_ok, simp]: "lift x w = Some (r, w') \<longleftrightarrow> r = x \<and> w' = w"
  by (auto simp: lift_def)

lemma io_try_Some_iff:
  "io_try m h k w = Some (r, w'') \<longleftrightarrow>
     (\<exists>a w'. m w = Some (Ok a, w') \<and> k a w' = Some (r, w'')) \<or>
     (\<exists>e w'. m w = Some (Err e, w') \<and> h e w' = Some (r, w'')) \<or>
     (m w = Some (Panic, w'') \<and> r = Panic)"
  by (auto simp: io_try_def split: option.splits res.splits)

lemma io_try_Ok_iff [io_ok]:
  "io_try m h k w = Some (Ok b, w'') \<longleftrightarrow>
     (\<exists>a w'. m w = Some (Ok a, w') \<and> k a w' = Some (Ok b, w'')) \<or>
     (\<exists>e w'. m w = Some (Err e, w') \<and> h e w' = Some (Ok b, w''))"
  by (auto simp: io_try_Some_iff)

lemma io_bind_Some_iff:
  "io_bind m k w = Some (r, w'') \<longleftrightarrow>
     (\<exists>a w'. m w = Some (Ok a, w') \<and> k a w' = Some (r, w'')) \<or>
     (\<exists>e. m w = Some (Err e, w'') \<and> r = Err e) \<or>
     (m w = Some (Panic, w'') \<and> r = Panic)"
  by (auto simp: io_bind_def io_try_Some_iff)

lemma io_bind_Ok_iff [io_ok]:
  "io_bind m k w = Some (Ok b, w'') \<longleftrightarrow>
     (\<exists>a w'. m w = Some (Ok a, w') \<and> k a w' = Some (Ok b, w''))"
  by (auto simp: io_bind_Some_iff)

lemma io_bind_cases [consumes 1, case_names ok failed]:
  assumes "io_bind m k w = Some (r, w')"
  obtains a v where "m w = Some (Ok a, v)" and "k a v = Some (r, w')"
    | q where "m w = Some (q, w')" and "\<not> isOk q" and "\<not> isOk r"
  using assms by (auto simp: io_bind_Some_iff)

lemma io_wrap_Ok_iff [io_ok]:
  "io_wrap s as m w = Some (Ok a, w') \<longleftrightarrow> m w = Some (Ok a, w')"
  by (auto simp: io_wrap_def io_try_Some_iff)

lemma io_both_Inr_iff [io_ok]:
  "io_both m w = Some (Ok (Inr a), w') \<longleftrightarrow> m w = Some (Ok a, w')"
  by (auto simp: io_both_def io_try_Some_iff)

lemma io_both_Inl_iff [io_ok]:
  "io_both m w = Some (Ok (Inl e), w') \<longleftrightarrow> m w = Some (Err e, w')"
  by (auto simp: io_both_def io_try_Some_iff)

lemma io_bind_ret [simp]: "io_bind (ret a) k = k a"
  by (rule ext) (simp add: io_bind_def io_try_def ret_def)

lemma io_bind_fail [simp]: "io_bind (fail e) k = fail e"
  by (rule ext) (simp add: io_bind_def io_try_def fail_def)

lemma io_bind_lift: "io_bind (lift r) k = (case r of Ok a \<Rightarrow> k a | Err e \<Rightarrow> fail e | Panic \<Rightarrow> lift Panic)"
  by (rule ext) (simp add: io_bind_def io_try_def lift_def fail_def split: res.split)

text \<open>Evaluation of a composite operation at a world where its first call is known.\<close>

lemma io_bind_eval:
  "m w = Some (Ok a, w') \<Longrightarrow> io_bind m k w = k a w'"
  "m w = Some (Err e, w') \<Longrightarrow> io_bind m k w = Some (Err e, w')"
  "m w = Some (Panic, w') \<Longrightarrow> io_bind m k w = Some (Panic, w')"
  "m w = None \<Longrightarrow> io_bind m k w = None"
  by (simp_all add: io_bind_def io_try_def fail_def)

lemma io_try_eval:
  "m w = Some (Ok a, w') \<Longrightarrow> io_try m h k w = k a w'"
  "m w = Some (Err e, w') \<Longrightarrow> io_try m h k w = h e w'"
  "m w = Some (Panic, w') \<Longrightarrow> io_try m h k w = Some (Panic, w')"
  "m w = None \<Longrightarrow> io_try m h k w = None"
  by (simp_all add: io_try_def)

lemmas io_eval = io_bind_eval io_try_eval ret_def fail_def lift_def

text \<open>Recursive calls may sit under \<open>io_bind\<close> and \<open>io_try\<close> in a \<open>partial_function\<close>.\<close>

lemma io_try_mono [partial_function_mono]:
  assumes "\<And>e w'. mono_option (\<lambda>f. h f e w')" and "\<And>a w'. mono_option (\<lambda>f. k f a w')"
  shows "mono_option (\<lambda>f. io_try m (h f) (k f) w)"
proof (cases "m w")
  case None
  then show ?thesis by (simp add: io_try_def monotone_def option.leq_refl)
next
  case (Some p)
  obtain r w' where p: "p = (r, w')" by (cases p)
  show ?thesis
    using assms Some p
    by (cases r) (simp_all add: io_try_def monotone_def option.leq_refl)
qed

lemma io_bind_mono [partial_function_mono]:
  assumes "\<And>a w'. mono_option (\<lambda>f. k f a w')"
  shows "mono_option (\<lambda>f. io_bind m (k f) w)"
  unfolding io_bind_def
  by (rule io_try_mono) (use assms in \<open>simp_all add: monotone_def option.leq_refl\<close>)

section \<open>What an operation may change\<close>

text \<open>
  \<open>moves R m\<close>: whatever \<open>m\<close> returns, the world it leaves is related by \<open>R\<close> to the world it
  started in. For a preorder \<open>R\<close> this follows along the structure of an operation from its calls;
  the collection \<open>moves_intros\<close> holds the rules. \<open>same f\<close> is the relation of a frame: the part \<open>f\<close> of
  the world is unchanged.
\<close>

definition moves :: "('w \<Rightarrow> 'w \<Rightarrow> bool) \<Rightarrow> ('w, 'a) io \<Rightarrow> bool" where
  "moves R m \<longleftrightarrow> (\<forall>w r w'. m w = Some (r, w') \<longrightarrow> R w w')"

definition preorder_rel :: "('w \<Rightarrow> 'w \<Rightarrow> bool) \<Rightarrow> bool" where
  "preorder_rel R \<longleftrightarrow> (\<forall>w. R w w) \<and> (\<forall>u v w. R u v \<longrightarrow> R v w \<longrightarrow> R u w)"

definition same :: "('w \<Rightarrow> 'b) \<Rightarrow> 'w \<Rightarrow> 'w \<Rightarrow> bool" where
  "same f w w' \<longleftrightarrow> f w' = f w"

named_theorems moves_intros \<open>rules for what an operation may change\<close>

lemma movesD: "moves R m \<Longrightarrow> m w = Some (r, w') \<Longrightarrow> R w w'"
  by (auto simp: moves_def)

lemma movesI: "(\<And>w r w'. m w = Some (r, w') \<Longrightarrow> R w w') \<Longrightarrow> moves R m"
  by (auto simp: moves_def)

lemma preorder_same [simp, moves_intros]: "preorder_rel (same f)"
  by (auto simp: preorder_rel_def same_def)

lemma preorder_refl: "preorder_rel R \<Longrightarrow> R w w"
  by (simp add: preorder_rel_def)

lemma preorder_trans: "preorder_rel R \<Longrightarrow> R u v \<Longrightarrow> R v w \<Longrightarrow> R u w"
  unfolding preorder_rel_def by blast

lemma moves_ret [moves_intros]: "preorder_rel R \<Longrightarrow> moves R (ret a)"
  by (auto simp: moves_def preorder_refl)

lemma moves_fail [moves_intros]: "preorder_rel R \<Longrightarrow> moves R (fail e)"
  by (auto simp: moves_def preorder_refl)

lemma moves_lift [moves_intros]: "preorder_rel R \<Longrightarrow> moves R (lift r)"
  by (auto simp: moves_def preorder_refl)

lemma moves_try [moves_intros]:
  assumes "preorder_rel R" and "moves R m" and "\<And>e. moves R (h e)" and "\<And>a. moves R (k a)"
  shows "moves R (io_try m h k)"
proof (rule movesI)
  fix w r w''
  assume "io_try m h k w = Some (r, w'')"
  then show "R w w''"
    unfolding io_try_Some_iff
    using assms by (blast intro: preorder_trans dest: movesD)
qed

lemma moves_bind [moves_intros]:
  "preorder_rel R \<Longrightarrow> moves R m \<Longrightarrow> (\<And>a. moves R (k a)) \<Longrightarrow> moves R (io_bind m k)"
  unfolding io_bind_def by (intro moves_try moves_fail)

lemma moves_wrap [moves_intros]: "preorder_rel R \<Longrightarrow> moves R m \<Longrightarrow> moves R (io_wrap s as m)"
  unfolding io_wrap_def by (intro moves_try moves_fail moves_ret)

lemma moves_both [moves_intros]: "preorder_rel R \<Longrightarrow> moves R m \<Longrightarrow> moves R (io_both m)"
  unfolding io_both_def by (intro moves_try moves_ret)

lemma moves_if [moves_intros]:
  "(b \<Longrightarrow> moves R m) \<Longrightarrow> (\<not> b \<Longrightarrow> moves R n) \<Longrightarrow> moves R (if b then m else n)"
  by simp

lemma moves_if_world [moves_intros]:
  "(b \<Longrightarrow> moves R m) \<Longrightarrow> (\<not> b \<Longrightarrow> moves R n) \<Longrightarrow> moves R (\<lambda>w. if b then m w else n w)"
  by (cases b) simp_all

lemma moves_option [moves_intros]:
  "(x = None \<Longrightarrow> moves R m) \<Longrightarrow> (\<And>a. x = Some a \<Longrightarrow> moves R (k a)) \<Longrightarrow>
   moves R (case x of None \<Rightarrow> m | Some a \<Rightarrow> k a)"
  by (simp split: option.split)

lemma moves_sum [moves_intros]:
  "(\<And>a. moves R (h a)) \<Longrightarrow> (\<And>b. moves R (k b)) \<Longrightarrow>
   moves R (case x of Inl a \<Rightarrow> h a | Inr b \<Rightarrow> k b)"
  by (simp split: sum.split)

lemma moves_res [moves_intros]:
  "(\<And>a. moves R (k a)) \<Longrightarrow> (\<And>e. moves R (h e)) \<Longrightarrow> moves R p \<Longrightarrow>
   moves R (case x of Ok a \<Rightarrow> k a | Err e \<Rightarrow> h e | Panic \<Rightarrow> p)"
  by (simp split: res.split)

lemma moves_prod [moves_intros]:
  "(\<And>a b. moves R (k a b)) \<Longrightarrow> moves R (case x of (a, b) \<Rightarrow> k a b)"
  by (simp split: prod.split)

lemma moves_let [moves_intros]: "moves R (k v) \<Longrightarrow> moves R (let x = v in k x)"
  by simp

section \<open>Operations that return\<close>

text \<open>\<open>returns m\<close>: \<open>m\<close> comes back from every world, with a value, an error or a panic.\<close>

definition returns :: "('w, 'a) io \<Rightarrow> bool" where
  "returns m \<longleftrightarrow> (\<forall>w. m w \<noteq> None)"

named_theorems returns_intros \<open>rules for operations that return\<close>

lemma returnsD: "returns m \<Longrightarrow> \<exists>r w'. m w = Some (r, w')"
  by (auto simp: returns_def)

lemma returns_ret [returns_intros]: "returns (ret a)"
  by (simp add: returns_def ret_def)

lemma returns_fail [returns_intros]: "returns (fail e)"
  by (simp add: returns_def fail_def)

lemma returns_lift [returns_intros]: "returns (lift r)"
  by (simp add: returns_def lift_def)

lemma returns_try [returns_intros]:
  "returns m \<Longrightarrow> (\<And>e. returns (h e)) \<Longrightarrow> (\<And>a. returns (k a)) \<Longrightarrow> returns (io_try m h k)"
  by (auto simp: returns_def io_try_def split: option.splits res.splits)

lemma returns_bind [returns_intros]:
  "returns m \<Longrightarrow> (\<And>a. returns (k a)) \<Longrightarrow> returns (io_bind m k)"
  unfolding io_bind_def by (intro returns_try returns_fail)

lemma returns_wrap [returns_intros]: "returns m \<Longrightarrow> returns (io_wrap s as m)"
  unfolding io_wrap_def by (intro returns_try returns_fail returns_ret)

lemma returns_both [returns_intros]: "returns m \<Longrightarrow> returns (io_both m)"
  unfolding io_both_def by (intro returns_try returns_ret)

lemma returns_if [returns_intros]:
  "(b \<Longrightarrow> returns m) \<Longrightarrow> (\<not> b \<Longrightarrow> returns n) \<Longrightarrow> returns (if b then m else n)"
  by simp

lemma returns_option [returns_intros]:
  "(x = None \<Longrightarrow> returns m) \<Longrightarrow> (\<And>a. x = Some a \<Longrightarrow> returns (k a)) \<Longrightarrow>
   returns (case x of None \<Rightarrow> m | Some a \<Rightarrow> k a)"
  by (simp split: option.split)

lemma returns_sum [returns_intros]:
  "(\<And>a. returns (h a)) \<Longrightarrow> (\<And>b. returns (k b)) \<Longrightarrow>
   returns (case x of Inl a \<Rightarrow> h a | Inr b \<Rightarrow> k b)"
  by (simp split: sum.split)

lemma returns_let [returns_intros]: "returns (k v) \<Longrightarrow> returns (let x = v in k x)"
  by simp

section \<open>Weakest preconditions\<close>

text \<open>
  \<open>wp m Q w\<close>: if \<open>m\<close> returns from \<open>w\<close>, then with an outcome and a world that satisfy \<open>Q\<close>. The
  rules \<open>wp_simps\<close> take a composite operation apart; \<open>wp_call\<close> goes over one call, of which only
  its frame is used.
\<close>

definition wp :: "('w, 'a) io \<Rightarrow> ('a res \<Rightarrow> 'w \<Rightarrow> bool) \<Rightarrow> 'w \<Rightarrow> bool" where
  "wp m Q w \<longleftrightarrow> (\<forall>r w'. m w = Some (r, w') \<longrightarrow> Q r w')"

named_theorems wp_simps \<open>weakest preconditions of the combinators\<close>

lemma wpI: "(\<And>r w'. m w = Some (r, w') \<Longrightarrow> Q r w') \<Longrightarrow> wp m Q w"
  by (simp add: wp_def)

lemma wpD: "wp m Q w \<Longrightarrow> m w = Some (r, w') \<Longrightarrow> Q r w'"
  by (simp add: wp_def)

lemma wp_ret [wp_simps]: "wp (ret a) Q w \<longleftrightarrow> Q (Ok a) w"
  by (simp add: wp_def)

lemma wp_fail [wp_simps]: "wp (fail e) Q w \<longleftrightarrow> Q (Err e) w"
  by (simp add: wp_def)

lemma wp_lift [wp_simps]: "wp (lift r) Q w \<longleftrightarrow> Q r w"
  by (simp add: wp_def)

lemma wp_try [wp_simps]:
  "wp (io_try m h k) Q w \<longleftrightarrow>
     wp m (\<lambda>r w'. case r of Ok a \<Rightarrow> wp (k a) Q w' | Err e \<Rightarrow> wp (h e) Q w' | Panic \<Rightarrow> Q Panic w') w"
  by (auto simp: wp_def io_try_def split: option.splits res.splits)

lemma wp_bind [wp_simps]:
  "wp (io_bind m k) Q w \<longleftrightarrow>
     wp m (\<lambda>r w'. case r of Ok a \<Rightarrow> wp (k a) Q w' | Err e \<Rightarrow> Q (Err e) w' | Panic \<Rightarrow> Q Panic w') w"
  unfolding io_bind_def wp_try wp_fail ..

lemma wp_wrap [wp_simps]: "wp (io_wrap s as m) Q w \<longleftrightarrow> wp m (\<lambda>r. Q (res_wrap s as r)) w"
  by (auto simp: wp_def io_wrap_def io_try_def ret_def fail_def split: option.splits res.splits)

lemma wp_both [wp_simps]:
  "wp (io_both m) Q w \<longleftrightarrow>
     wp m (\<lambda>r. Q (case r of Ok a \<Rightarrow> Ok (Inr a) | Err e \<Rightarrow> Ok (Inl e) | Panic \<Rightarrow> Panic)) w"
  by (auto simp: wp_def io_both_def io_try_def ret_def split: option.splits res.splits)

lemma wp_if [wp_simps]: "wp (if b then m else n) Q w \<longleftrightarrow> (b \<longrightarrow> wp m Q w) \<and> (\<not> b \<longrightarrow> wp n Q w)"
  by simp

lemma wp_conj: "wp m P w \<Longrightarrow> wp m Q w \<Longrightarrow> wp m (\<lambda>r w'. P r w' \<and> Q r w') w"
  by (simp add: wp_def)

lemma wp_mono: "wp m P w \<Longrightarrow> (\<And>r w'. P r w' \<Longrightarrow> Q r w') \<Longrightarrow> wp m Q w"
  by (simp add: wp_def)

lemma wp_call:
  assumes "moves R m"
    and "\<And>a w'. R w w' \<Longrightarrow> m w = Some (Ok a, w') \<Longrightarrow> Q (Ok a) w'"
    and "\<And>e w'. R w w' \<Longrightarrow> m w = Some (Err e, w') \<Longrightarrow> Q (Err e) w'"
    and "\<And>w'. R w w' \<Longrightarrow> m w = Some (Panic, w') \<Longrightarrow> Q Panic w'"
  shows "wp m Q w"
proof (rule wpI)
  fix r w'
  assume run: "m w = Some (r, w')"
  with assms(1) have "R w w'" by (rule movesD)
  with run assms show "Q r w'" by (cases r) simp_all
qed

section \<open>Operations that succeed\<close>

text \<open>
  \<open>settles m\<close>: \<open>m\<close> comes back from every world, and does not panic; \<open>succeeds m\<close>: it comes back
  with a value. The collection \<open>succeeds_intros\<close> proves both along the structure of an operation.
\<close>

definition settles :: "('w, 'a) io \<Rightarrow> bool" where
  "settles m \<longleftrightarrow> (\<forall>w. \<exists>r w'. m w = Some (r, w') \<and> r \<noteq> Panic)"

definition succeeds :: "('w, 'a) io \<Rightarrow> bool" where
  "succeeds m \<longleftrightarrow> (\<forall>w. \<exists>a w'. m w = Some (Ok a, w'))"

named_theorems succeeds_intros \<open>rules for operations that succeed\<close>

lemma succeedsD: "succeeds m \<Longrightarrow> \<exists>a w'. m w = Some (Ok a, w')"
  by (simp add: succeeds_def)

lemma succeeds_settles: "succeeds m \<Longrightarrow> settles m"
  unfolding succeeds_def settles_def by blast

lemma succeeds_ret [succeeds_intros]: "succeeds (ret a)"
  by (simp add: succeeds_def ret_def)

lemma settles_lift [succeeds_intros]: "r \<noteq> Panic \<Longrightarrow> settles (lift r)"
  by (simp add: settles_def lift_def)

lemma settles_fail [succeeds_intros]: "settles (fail e)"
  by (simp add: settles_def fail_def)

lemma settles_ret [succeeds_intros]: "settles (ret a)"
  by (simp add: settles_def ret_def)

lemma succeeds_bind [succeeds_intros]:
  "succeeds m \<Longrightarrow> (\<And>a. succeeds (k a)) \<Longrightarrow> succeeds (io_bind m k)"
  unfolding succeeds_def by (metis io_bind_eval(1))

lemma succeeds_wrap [succeeds_intros]: "succeeds m \<Longrightarrow> succeeds (io_wrap s as m)"
  unfolding succeeds_def io_wrap_Ok_iff .

lemma settles_try [succeeds_intros]:
  "settles m \<Longrightarrow> (\<And>e. settles (h e)) \<Longrightarrow> (\<And>a. settles (k a)) \<Longrightarrow> settles (io_try m h k)"
  unfolding settles_def by (metis io_try_eval(1,2) res.exhaust)

lemma settles_bind [succeeds_intros]:
  "settles m \<Longrightarrow> (\<And>a. settles (k a)) \<Longrightarrow> settles (io_bind m k)"
  unfolding io_bind_def by (intro settles_try settles_fail)

lemma succeeds_both [succeeds_intros]: "settles m \<Longrightarrow> succeeds (io_both m)"
  unfolding settles_def succeeds_def io_both_def by (metis io_try_eval(1,2) ret_def res.exhaust)

lemma succeeds_if [succeeds_intros]:
  "(b \<Longrightarrow> succeeds m) \<Longrightarrow> (\<not> b \<Longrightarrow> succeeds n) \<Longrightarrow> succeeds (if b then m else n)"
  by simp

lemma settles_if [succeeds_intros]:
  "(b \<Longrightarrow> settles m) \<Longrightarrow> (\<not> b \<Longrightarrow> settles n) \<Longrightarrow> settles (if b then m else n)"
  by simp

lemma succeeds_option [succeeds_intros]:
  "(x = None \<Longrightarrow> succeeds m) \<Longrightarrow> (\<And>a. x = Some a \<Longrightarrow> succeeds (k a)) \<Longrightarrow>
   succeeds (case x of None \<Rightarrow> m | Some a \<Rightarrow> k a)"
  by (simp split: option.split)

text \<open>\<open>yields m P\<close>: it comes back with a value in \<open>P\<close>, which the rest may rely on.\<close>

definition yields :: "('w, 'a) io \<Rightarrow> ('a \<Rightarrow> bool) \<Rightarrow> bool" where
  "yields m P \<longleftrightarrow> (\<forall>w. \<exists>a w'. m w = Some (Ok a, w') \<and> P a)"

lemma yieldsD: "yields m P \<Longrightarrow> \<exists>a w'. m w = Some (Ok a, w') \<and> P a"
  by (simp add: yields_def)

lemma yields_succeeds: "yields m P \<Longrightarrow> succeeds m"
  unfolding yields_def succeeds_def by blast

lemma succeeds_yields: "succeeds m \<Longrightarrow> yields m (\<lambda>_. True)"
  by (simp add: yields_def succeeds_def)

lemma yields_wrap: "yields m P \<Longrightarrow> yields (io_wrap s as m) P"
  by (simp add: yields_def io_wrap_Ok_iff)

lemma yields_both: "yields m P \<Longrightarrow> yields (io_both m) (\<lambda>r. \<exists>a. r = Inr a \<and> P a)"
  unfolding yields_def by (metis io_both_Inr_iff)

lemma yields_bind: "yields m P \<Longrightarrow> (\<And>a. P a \<Longrightarrow> yields (k a) Q) \<Longrightarrow> yields (io_bind m k) Q"
  unfolding yields_def io_bind_Ok_iff by metis

lemma succeeds_after: "yields m P \<Longrightarrow> (\<And>a. P a \<Longrightarrow> succeeds (k a)) \<Longrightarrow> succeeds (io_bind m k)"
  unfolding yields_def succeeds_def io_bind_Ok_iff by metis

lemma succeeds_bind_lift: "r = Ok a \<Longrightarrow> succeeds (k a) \<Longrightarrow> succeeds (io_bind (lift r) k)"
  by (simp add: io_bind_lift)

lemma succeeds_sum [succeeds_intros]:
  "(\<And>a. succeeds (h a)) \<Longrightarrow> (\<And>b. succeeds (k b)) \<Longrightarrow>
   succeeds (case x of Inl a \<Rightarrow> h a | Inr b \<Rightarrow> k b)"
  by (simp split: sum.split)

end
