(* ===== verification/GoStrings.thy ===== *)
theory GoStrings
  imports Prelude
begin

text \<open>
  The parts of Go's \<open>strings\<close>, \<open>encoding/hex\<close> and \<open>fmt\<close> packages the program uses. A Go
  string is a sequence of bytes, here a list of \<open>char\<close> (8-bit values).

  \<open>trimSpace\<close> follows \<open>strings.TrimSpace\<close> on every byte string, the multi-byte white space of
  Unicode included. \<open>equalFold\<close> is the ASCII rule of \<open>strings.EqualFold\<close>; it agrees with Go
  whenever one of the two strings is ASCII and holds neither \<open>k\<close> nor \<open>s\<close> (the two ASCII
  letters with a non-ASCII case variant), which covers every hexadecimal address and the
  \<open>Bearer\<close> scheme, the only places the program uses it for.
\<close>

section \<open>Bytes and characters\<close>

definition code :: "char \<Rightarrow> nat" where
  "code c = of_char c"

lemma code_less [simp]: "code c < 256"
  by (simp add: code_def)

lemma char_of_code [simp]: "char_of (code c) = c"
  by (simp add: code_def)

lemma code_inj: "code c = code d \<longleftrightarrow> c = d"
  by (metis char_of_code)

lemma code_char_of: "n < 256 \<Longrightarrow> code (char_of n) = n"
  by (simp add: code_def take_bit_nat_eq_self)

text \<open>\<open>[]byte(s)\<close> and \<open>string(b)\<close>.\<close>

definition stringBytes :: "string \<Rightarrow> bytes" where
  "stringBytes s = map (\<lambda>c. word_of_nat (code c)) s"

definition bytesString :: "bytes \<Rightarrow> string" where
  "bytesString b = map (\<lambda>w. char_of (unat w)) b"

lemma length_stringBytes [simp]: "length (stringBytes s) = length s"
  by (simp add: stringBytes_def)

lemma length_bytesString [simp]: "length (bytesString b) = length b"
  by (simp add: bytesString_def)

lemma unat_byte_code [simp]: "unat (word_of_nat (code c) :: byte) = code c"
  by (simp add: unat_of_nat take_bit_nat_eq_self)

lemma bytesString_stringBytes [simp]: "bytesString (stringBytes s) = s"
  by (simp add: bytesString_def stringBytes_def o_def)

section \<open>Prefixes\<close>

definition hasPrefix :: "'a list \<Rightarrow> 'a list \<Rightarrow> bool" where
  "hasPrefix s p \<longleftrightarrow> take (length p) s = p"

definition trimPrefix :: "'a list \<Rightarrow> 'a list \<Rightarrow> 'a list" where
  "trimPrefix s p = (if hasPrefix s p then drop (length p) s else s)"

lemma hasPrefix_append [simp]: "hasPrefix (p @ s) p"
  by (simp add: hasPrefix_def)

lemma trimPrefix_append [simp]: "trimPrefix (p @ s) p = s"
  by (simp add: trimPrefix_def)

lemma hasPrefixE: "hasPrefix s p \<Longrightarrow> (\<And>t. s = p @ t \<Longrightarrow> P) \<Longrightarrow> P"
  by (metis hasPrefix_def append_take_drop_id)

lemma trimPrefix_cases: "trimPrefix s p = s \<and> \<not> hasPrefix s p \<or> s = p @ trimPrefix s p"
  by (auto simp: trimPrefix_def elim!: hasPrefixE)

section \<open>White space\<close>

text \<open>One white-space rune at the front, and at the back (the list reversed).\<close>

definition space1 :: "char \<Rightarrow> bool" where
  "space1 a \<longleftrightarrow> code a \<in> {9, 10, 11, 12, 13, 32}"

definition space2 :: "char \<Rightarrow> char \<Rightarrow> bool" where
  "space2 a b \<longleftrightarrow> code a = 0xC2 \<and> code b \<in> {0x85, 0xA0}"

definition space3 :: "char \<Rightarrow> char \<Rightarrow> char \<Rightarrow> bool" where
  "space3 a b c \<longleftrightarrow>
     (code a = 0xE1 \<and> code b = 0x9A \<and> code c = 0x80) \<or>
     (code a = 0xE2 \<and> code b = 0x80 \<and>
        (0x80 \<le> code c \<and> code c \<le> 0x8A \<or> code c \<in> {0xA8, 0xA9, 0xAF})) \<or>
     (code a = 0xE2 \<and> code b = 0x81 \<and> code c = 0x9F) \<or>
     (code a = 0xE3 \<and> code b = 0x80 \<and> code c = 0x80)"

fun trimLeft :: "string \<Rightarrow> string" where
  "trimLeft (a # b # c # s) =
     (if space1 a then trimLeft (b # c # s)
      else if space2 a b then trimLeft (c # s)
      else if space3 a b c then trimLeft s
      else a # b # c # s)"
| "trimLeft [a, b] = (if space1 a then trimLeft [b] else if space2 a b then [] else [a, b])"
| "trimLeft [a] = (if space1 a then [] else [a])"
| "trimLeft [] = []"

fun trimBack :: "string \<Rightarrow> string" where
  "trimBack (a # b # c # s) =
     (if space1 a then trimBack (b # c # s)
      else if space2 b a then trimBack (c # s)
      else if space3 c b a then trimBack s
      else a # b # c # s)"
| "trimBack [a, b] = (if space1 a then trimBack [b] else if space2 b a then [] else [a, b])"
| "trimBack [a] = (if space1 a then [] else [a])"
| "trimBack [] = []"

definition trimSpace :: "string \<Rightarrow> string" where
  "trimSpace s = rev (trimBack (rev (trimLeft s)))"

text \<open>\<open>strings.TrimRight(s, "/")\<close>.\<close>

definition trimRightSlash :: "string \<Rightarrow> string" where
  "trimRightSlash s = rev (dropWhile (\<lambda>c. c = CHR ''/'') (rev s))"

text \<open>A character that neither starts nor ends a white-space rune.\<close>

definition plain :: "char \<Rightarrow> bool" where
  "plain c \<longleftrightarrow> 32 < code c \<and> code c < 128"

lemma trimLeft_plain: "s = [] \<or> plain (hd s) \<Longrightarrow> trimLeft s = s"
  by (cases s rule: trimLeft.cases)
    (auto simp: plain_def space1_def space2_def space3_def)

lemma trimBack_plain: "s = [] \<or> plain (hd s) \<Longrightarrow> trimBack s = s"
  by (cases s rule: trimBack.cases)
    (auto simp: plain_def space1_def space2_def space3_def)

lemma trimSpace_plain:
  "s = [] \<or> plain (hd s) \<and> plain (last s) \<Longrightarrow> trimSpace s = s"
  by (auto simp: trimSpace_def trimLeft_plain trimBack_plain hd_rev)

lemma trimSpace_all_plain: "\<forall>c\<in>set s. plain c \<Longrightarrow> trimSpace s = s"
  by (cases s) (auto intro!: trimSpace_plain)

lemma trimSpace_Nil [simp]: "trimSpace [] = []"
  by (simp add: trimSpace_def)

section \<open>Case\<close>

definition lowerChar :: "char \<Rightarrow> char" where
  "lowerChar c = (if 65 \<le> code c \<and> code c \<le> 90 then char_of (code c + 32) else c)"

definition toLower :: "string \<Rightarrow> string" where
  "toLower s = map lowerChar s"

definition equalFold :: "string \<Rightarrow> string \<Rightarrow> bool" where
  "equalFold s t \<longleftrightarrow> toLower s = toLower t"

text \<open>Case mapping of a literal: through the character codes.\<close>

lemma lowerChar_eq_iff: "lowerChar c = d \<longleftrightarrow> (if 65 \<le> code c \<and> code c \<le> 90 then code d = code c + 32 else c = d)"
  by (auto simp: lowerChar_def code_char_of simp flip: code_inj)

lemma equalFold_refl [simp]: "equalFold s s"
  by (simp add: equalFold_def)

lemma equalFold_sym: "equalFold s t \<Longrightarrow> equalFold t s"
  by (simp add: equalFold_def)

lemma equalFold_trans: "equalFold s t \<Longrightarrow> equalFold t u \<Longrightarrow> equalFold s u"
  by (simp add: equalFold_def)

lemma equalFold_cong: "equalFold s t \<Longrightarrow> equalFold s u = equalFold t u"
  by (simp add: equalFold_def)

lemma length_toLower [simp]: "length (toLower s) = length s"
  by (simp add: toLower_def)

lemma equalFold_length: "equalFold s t \<Longrightarrow> length s = length t"
  by (metis equalFold_def length_toLower)

section \<open>Hexadecimal\<close>

definition hexVal :: "char \<Rightarrow> nat option" where
  "hexVal c =
     (if 48 \<le> code c \<and> code c \<le> 57 then Some (code c - 48)
      else if 97 \<le> code c \<and> code c \<le> 102 then Some (code c - 87)
      else if 65 \<le> code c \<and> code c \<le> 70 then Some (code c - 55)
      else None)"

definition isHexChar :: "char \<Rightarrow> bool" where
  "isHexChar c \<longleftrightarrow> hexVal c \<noteq> None"

definition hexDigit :: "nat \<Rightarrow> char" where
  "hexDigit n = (if n < 10 then char_of (n + 48) else char_of (n + 87))"

text \<open>\<open>hex.DecodeString\<close>: an odd length or a character outside \<open>0-9a-fA-F\<close> is an error.\<close>

fun hexDecode :: "string \<Rightarrow> bytes res" where
  "hexDecode [] = Ok []"
| "hexDecode [c] = Err (External ''encoding/hex'')"
| "hexDecode (c # d # s) =
     (case (hexVal c, hexVal d) of
        (Some h, Some l) \<Rightarrow> res_bind (hexDecode s) (\<lambda>bs. Ok (word_of_nat (16 * h + l) # bs))
      | _ \<Rightarrow> Err (External ''encoding/hex''))"

definition hexByte :: "byte \<Rightarrow> string" where
  "hexByte b = [hexDigit (unat b div 16), hexDigit (unat b mod 16)]"

definition hexEncode :: "bytes \<Rightarrow> string" where
  "hexEncode bs = concat (map hexByte bs)"

lemma hexVal_hexDigit [simp]: "n < 16 \<Longrightarrow> hexVal (hexDigit n) = Some n"
  by (auto simp: hexVal_def hexDigit_def code_char_of)

lemma hexVal_less: "hexVal c = Some n \<Longrightarrow> n < 16"
  by (auto simp: hexVal_def split: if_splits)

lemma isHexChar_iff:
  "isHexChar c \<longleftrightarrow> 48 \<le> code c \<and> code c \<le> 57 \<or> 97 \<le> code c \<and> code c \<le> 102 \<or> 65 \<le> code c \<and> code c \<le> 70"
  by (auto simp: isHexChar_def hexVal_def)

lemma isHexChar_hexDigit [simp]: "n < 16 \<Longrightarrow> isHexChar (hexDigit n)"
  by (simp add: isHexChar_def)

lemma isHexChar_plain: "isHexChar c \<Longrightarrow> plain c"
  by (auto simp: isHexChar_iff plain_def)

lemma code_lowerChar: "code (lowerChar c) = (if 65 \<le> code c \<and> code c \<le> 90 then code c + 32 else code c)"
  by (auto simp: lowerChar_def code_char_of)

lemma hexVal_lowerChar [simp]: "hexVal (lowerChar c) = hexVal c"
  by (simp add: hexVal_def code_lowerChar)

lemma isHexChar_lowerChar [simp]: "isHexChar (lowerChar c) = isHexChar c"
  by (simp add: isHexChar_def)

lemma hexDecode_toLower [simp]: "hexDecode (toLower s) = hexDecode s"
  by (induction s rule: hexDecode.induct) (auto simp: toLower_def split: option.splits)

lemma hexEncode_Nil [simp]: "hexEncode [] = []"
  by (simp add: hexEncode_def)

lemma hexEncode_Cons [simp]:
  "hexEncode (b # bs) = hexDigit (unat b div 16) # hexDigit (unat b mod 16) # hexEncode bs"
  by (simp add: hexEncode_def hexByte_def)

lemma byte_div_16 [simp]: "unat (b :: byte) div 16 < 16"
  using unsigned_less [of b, where ?'a = nat] by (simp add: less_mult_imp_div_less)

lemma hexDecode_hexEncode [simp]: "hexDecode (hexEncode bs) = Ok bs"
  by (induction bs) simp_all

lemma length_hexEncode [simp]: "length (hexEncode bs) = 2 * length bs"
  by (induction bs) simp_all

lemma hexEncode_hex: "\<forall>c\<in>set (hexEncode bs). isHexChar c"
  by (induction bs) simp_all

lemma hexDecode_length: "hexDecode s = Ok bs \<Longrightarrow> length s = 2 * length bs"
  by (induction s arbitrary: bs rule: hexDecode.induct) (auto simp: io_ok split: option.splits)

lemma hexDecode_hex: "hexDecode s = Ok bs \<Longrightarrow> \<forall>c\<in>set s. isHexChar c"
  by (induction s arbitrary: bs rule: hexDecode.induct)
    (auto simp: io_ok isHexChar_def split: option.splits)

lemma hexDecode_not_Panic [simp]: "hexDecode s \<noteq> Panic"
  by (induction s rule: hexDecode.induct) (auto simp: res_bind_Panic_iff split: option.splits)

lemma hexDecode_iff: "(\<exists>bs. hexDecode s = Ok bs) \<longleftrightarrow> even (length s) \<and> (\<forall>c\<in>set s. isHexChar c)"
  by (induction s rule: hexDecode.induct) (auto simp: io_ok isHexChar_def split: option.splits)

section \<open>Searching\<close>

text \<open>\<open>bytes.Index\<close>: the first position of a pattern, \<open>None\<close> for \<open>-1\<close>.\<close>

fun indexOf :: "'a list \<Rightarrow> 'a list \<Rightarrow> nat option" where
  "indexOf [] p = (if p = [] then Some 0 else None)"
| "indexOf (x # s) p = (if hasPrefix (x # s) p then Some 0 else map_option Suc (indexOf s p))"

lemma indexOf_Some:
  "indexOf s p = Some i \<Longrightarrow> i + length p \<le> length s \<and> take (length p) (drop i s) = p"
proof (induction s arbitrary: i)
  case Nil
  then show ?case by (simp split: if_splits)
next
  case (Cons x s)
  show ?case
  proof (cases "hasPrefix (x # s) p")
    case True
    then have "take (length p) (x # s) = p" by (simp add: hasPrefix_def)
    then have "length p \<le> length (x # s)" by (metis length_take min.absorb_iff2 min.commute)
    with Cons.prems True \<open>take (length p) (x # s) = p\<close> show ?thesis by simp
  next
    case False
    with Cons.prems obtain j where j: "indexOf s p = Some j" and i: "i = Suc j" by auto
    from Cons.IH [OF j] i show ?thesis by simp
  qed
qed

lemma indexOf_first:
  "indexOf s p = Some i \<Longrightarrow> j < i \<Longrightarrow> take (length p) (drop j s) \<noteq> p"
proof (induction s arbitrary: i j)
  case Nil
  then show ?case by (simp split: if_splits)
next
  case (Cons x s)
  then show ?case by (cases j) (auto simp: hasPrefix_def split: if_splits)
qed

lemma indexOf_None: "indexOf s p = None \<Longrightarrow> take (length p) (drop j s) \<noteq> p"
proof (induction s arbitrary: j)
  case Nil
  then show ?case by (auto split: if_splits)
next
  case (Cons x s)
  then show ?case by (cases j) (auto simp: hasPrefix_def split: if_splits)
qed

end
