(* ===== verification/GoBig.thy ===== *)
theory GoBig
  imports GoStrings
begin

text \<open>
  Go's \<open>math/big\<close> integers (\<open>int\<close> here; a nil pointer is \<open>None\<close> where the code tests for it),
  their decimal and hexadecimal texts, and their big-endian byte forms.

  The lemmas are the round trips the components rest on: \<open>setString\<close> reads back what \<open>showInt\<close>
  prints, \<open>beNat\<close> reads back what \<open>beBytes\<close> lays out, and \<open>bitLen\<close> measures against powers
  of two.
\<close>

section \<open>Texts\<close>

text \<open>The value of a digit in a base of at most 36.\<close>

definition digitVal :: "char \<Rightarrow> nat option" where
  "digitVal c =
     (if 48 \<le> code c \<and> code c \<le> 57 then Some (code c - 48)
      else if 97 \<le> code c \<and> code c \<le> 122 then Some (code c - 87)
      else if 65 \<le> code c \<and> code c \<le> 90 then Some (code c - 55)
      else None)"

fun digitsNat :: "nat \<Rightarrow> nat \<Rightarrow> string \<Rightarrow> nat option" where
  "digitsNat base acc [] = Some acc"
| "digitsNat base acc (c # s) =
     (case digitVal c of
        None \<Rightarrow> None
      | Some d \<Rightarrow> if d < base then digitsNat base (acc * base + d) s else None)"

text \<open>
  \<open>(*big.Int).SetString(s, base)\<close> for an explicit base: an optional sign, then at least one
  digit and nothing else (the base prefix and the underscores of base 0 are not accepted).
\<close>

definition setString :: "nat \<Rightarrow> string \<Rightarrow> int option" where
  "setString base s =
     (case s of
        [] \<Rightarrow> None
      | c # t \<Rightarrow>
          let (neg, ds) = (if c = CHR ''-'' then (True, t)
                           else if c = CHR ''+'' then (False, t) else (False, s))
          in if ds = [] then None
             else map_option (\<lambda>n. if neg then - int n else int n) (digitsNat base 0 ds))"

fun showNat :: "nat \<Rightarrow> string" where
  "showNat n = (if n < 10 then [char_of (n + 48)] else showNat (n div 10) @ [char_of (n mod 10 + 48)])"

declare showNat.simps [simp del]

text \<open>\<open>(*big.Int).String\<close>, and \<open>%d\<close>.\<close>

definition showInt :: "int \<Rightarrow> string" where
  "showInt i = (if i < 0 then CHR ''-'' # showNat (nat (- i)) else showNat (nat i))"

definition showU :: "'a::len word \<Rightarrow> string" where
  "showU w = showNat (unat w)"

definition showI :: "i64 \<Rightarrow> string" where
  "showI w = showInt (sint w)"

definition isDigit :: "char \<Rightarrow> bool" where
  "isDigit c \<longleftrightarrow> 48 \<le> code c \<and> code c \<le> 57"

lemma isDigit_char_of [simp]: "(d :: nat) < 10 \<Longrightarrow> isDigit (char_of (d + 48))"
  by (simp add: isDigit_def code_char_of)

lemma digitVal_char_of [simp]: "(d :: nat) < 10 \<Longrightarrow> digitVal (char_of (d + 48)) = Some d"
  by (simp add: digitVal_def code_char_of)

lemma isDigit_plain: "isDigit c \<Longrightarrow> plain c"
  by (auto simp: isDigit_def plain_def)

lemma showNat_digits: "\<forall>c\<in>set (showNat n). isDigit c"
proof (induction n rule: showNat.induct)
  case (1 n)
  then show ?case by (subst showNat.simps) auto
qed

lemma showNat_nonempty [simp]: "showNat n \<noteq> []"
  by (subst showNat.simps) simp

lemma digitsNat_append:
  "digitsNat b acc (s @ t) = Option.bind (digitsNat b acc s) (\<lambda>a. digitsNat b a t)"
  by (induction s arbitrary: acc) (auto split: option.splits)

lemma digitsNat_showNat [simp]: "digitsNat 10 0 (showNat n) = Some n"
proof (induction n rule: showNat.induct)
  case (1 n)
  show ?case
  proof (cases "n < 10")
    case True
    then show ?thesis by (subst showNat.simps) simp
  next
    case False
    with "1.IH" show ?thesis by (subst showNat.simps) (simp add: digitsNat_append)
  qed
qed

lemma code_sign: "code (CHR ''-'') = 45" "code (CHR ''+'') = 43"
  by (simp_all add: code_def)

lemma isDigit_not_sign: "isDigit c \<Longrightarrow> c \<noteq> CHR ''-'' \<and> c \<noteq> CHR ''+''"
  by (auto simp: isDigit_def code_sign)

lemma showNat_hd: "isDigit (hd (showNat n))"
  by (metis showNat_digits showNat_nonempty list.set_sel(1))

lemma setString_showNat [simp]: "setString 10 (showNat n) = Some (int n)"
proof -
  obtain c t where ct: "showNat n = c # t" by (meson list.exhaust showNat_nonempty)
  then have "isDigit c" using showNat_hd [of n] by simp
  then show ?thesis
    using ct digitsNat_showNat [of n] isDigit_not_sign [of c]
    by (simp add: setString_def)
qed

lemma setString_showInt [simp]: "setString 10 (showInt i) = Some i"
proof (cases "i < 0")
  case True
  then show ?thesis by (simp add: showInt_def) (simp add: setString_def)
next
  case False
  then show ?thesis by (simp add: showInt_def)
qed

lemma showNat_inj [simp]: "showNat m = showNat n \<longleftrightarrow> m = n"
  by (metis digitsNat_showNat option.inject)

lemma showInt_inj [simp]: "showInt i = showInt j \<longleftrightarrow> i = j"
  by (metis setString_showInt option.inject)

lemma showInt_nonempty [simp]: "showInt i \<noteq> []"
  by (simp add: showInt_def)

lemma showNat_plain: "c \<in> set (showNat n) \<Longrightarrow> plain c"
  using showNat_digits isDigit_plain by blast

lemma showInt_plain: "\<forall>c\<in>set (showInt i). plain c"
  by (auto simp: showInt_def showNat_plain) (simp add: plain_def code_sign)

lemma trimSpace_showInt [simp]: "trimSpace (showInt i) = showInt i"
  using showInt_plain by (rule trimSpace_all_plain)

lemma trimSpace_showNat [simp]: "trimSpace (showNat n) = showNat n"
  using showNat_digits isDigit_plain by (intro trimSpace_all_plain) auto

lemma setString_showU [simp]: "setString 10 (showU w) = Some (uint w)"
  by (simp add: showU_def)

lemma setString_showI [simp]: "setString 10 (showI w) = Some (sint w)"
  by (simp add: showI_def)

text \<open>A text that is a number has no white space around it.\<close>

lemma digitsNat_plain: "digitsNat base acc s = Some n \<Longrightarrow> \<forall>c\<in>set s. plain c"
  by (induction s arbitrary: acc)
    (auto simp: digitVal_def plain_def split: if_splits)

lemma setString_plain:
  assumes "setString base s = Some i"
  shows "\<forall>c\<in>set s. plain c"
proof (cases s)
  case (Cons c t)
  have sign: "plain (CHR ''-'')" "plain (CHR ''+'')" by (simp_all add: plain_def code_sign)
  from assms Cons show ?thesis
    by (auto simp: setString_def Let_def sign simp del: digitsNat.simps split: if_splits dest!: digitsNat_plain)
qed simp

lemma setString_trim: "setString base s = Some i \<Longrightarrow> trimSpace s = s"
  by (rule trimSpace_all_plain) (rule setString_plain)

lemma setString_Nil [simp]: "setString b [] = None"
  by (simp add: setString_def)

section \<open>Bit lengths\<close>

fun natBits :: "nat \<Rightarrow> nat" where
  "natBits n = (if n = 0 then 0 else Suc (natBits (n div 2)))"

declare natBits.simps [simp del]

text \<open>\<open>(*big.Int).BitLen\<close>: of the absolute value.\<close>

definition bitLen :: "int \<Rightarrow> nat" where
  "bitLen i = natBits (nat \<bar>i\<bar>)"

lemma natBits_le_iff: "natBits n \<le> k \<longleftrightarrow> n < 2 ^ k"
proof (induction n arbitrary: k rule: natBits.induct)
  case (1 n)
  show ?case
  proof (cases "n = 0")
    case True
    then show ?thesis by (subst natBits.simps) simp
  next
    case False
    show ?thesis
    proof (cases k)
      case 0
      with False show ?thesis by (subst natBits.simps) simp
    next
      case (Suc k')
      have "natBits n \<le> k \<longleftrightarrow> natBits (n div 2) \<le> k'"
        using False Suc by (subst natBits.simps) simp
      also have "\<dots> \<longleftrightarrow> n div 2 < 2 ^ k'" using "1.IH" False by simp
      also have "\<dots> \<longleftrightarrow> n < 2 ^ k" using Suc by (simp add: div_less_iff_less_mult mult.commute)
      finally show ?thesis .
    qed
  qed
qed

lemma bitLen_le_iff: "bitLen i \<le> k \<longleftrightarrow> \<bar>i\<bar> < 2 ^ k"
proof -
  have "bitLen i \<le> k \<longleftrightarrow> nat \<bar>i\<bar> < 2 ^ k" by (simp add: bitLen_def natBits_le_iff)
  also have "\<dots> \<longleftrightarrow> \<bar>i\<bar> < 2 ^ k" by (simp add: nat_less_iff)
  finally show ?thesis .
qed

section \<open>Big-endian bytes\<close>

text \<open>\<open>(*big.Int).SetBytes\<close>.\<close>

definition beNat :: "bytes \<Rightarrow> nat" where
  "beNat bs = foldl (\<lambda>a b. a * 256 + unat b) 0 bs"

text \<open>The \<open>n\<close> low-order bytes of a number, most significant first.\<close>

fun beBytes :: "nat \<Rightarrow> nat \<Rightarrow> bytes" where
  "beBytes 0 x = []"
| "beBytes (Suc n) x = beBytes n (x div 256) @ [word_of_nat (x mod 256)]"

text \<open>\<open>(*big.Int).FillBytes\<close> on a buffer of \<open>n\<close> bytes: the absolute value, or a panic.\<close>

definition fillBytes :: "nat \<Rightarrow> int \<Rightarrow> bytes res" where
  "fillBytes n x = (if nat \<bar>x\<bar> < 256 ^ n then Ok (beBytes n (nat \<bar>x\<bar>)) else Panic)"

text \<open>\<open>(*big.Int).Int64\<close>: the low 64 bits, in two's complement.\<close>

definition bigInt64 :: "int \<Rightarrow> i64" where
  "bigInt64 x = word_of_int x"

lemma length_beBytes [simp]: "length (beBytes n x) = n"
  by (induction n arbitrary: x) simp_all

lemma beNat_append [simp]: "beNat (xs @ [b]) = beNat xs * 256 + unat b"
  by (simp add: beNat_def)

lemma beNat_Nil [simp]: "beNat [] = 0"
  by (simp add: beNat_def)

lemma beNat_beBytes: "beNat (beBytes n x) = x mod 256 ^ n"
proof (induction n arbitrary: x)
  case 0
  then show ?case by simp
next
  case (Suc n)
  have b: "unat (word_of_nat (x mod 256) :: byte) = x mod 256"
    by (simp add: unat_of_nat take_bit_nat_eq_self)
  have "x mod 256 ^ Suc n = (x div 256) mod 256 ^ n * 256 + x mod 256"
    using mod_mult2_eq [of x 256 "256 ^ n"] by (simp add: mult.commute)
  then show ?case by (simp add: Suc.IH b)
qed

lemma beNat_beBytes_less [simp]: "x < 256 ^ n \<Longrightarrow> beNat (beBytes n x) = x"
  by (simp add: beNat_beBytes)

lemma beNat_less: "beNat bs < 256 ^ length bs"
proof (induction bs rule: rev_induct)
  case Nil
  then show ?case by simp
next
  case (snoc b bs)
  have "unat b < 256" using unsigned_less [of b, where ?'a = nat] by simp
  with snoc.IH show ?case by simp
qed

lemma beBytes_beNat [simp]: "length bs = n \<Longrightarrow> beBytes n (beNat bs) = bs"
proof (induction bs arbitrary: n rule: rev_induct)
  case Nil
  then show ?case by simp
next
  case (snoc b bs)
  have "unat b < 256" using unsigned_less [of b, where ?'a = nat] by simp
  with snoc show ?case by auto
qed

lemma beBytes_inj: "x < 256 ^ n \<Longrightarrow> y < 256 ^ n \<Longrightarrow> beBytes n x = beBytes n y \<Longrightarrow> x = y"
  by (metis beNat_beBytes_less)

lemma beNat_zeros: "beNat (replicate n 0 @ bs) = beNat bs"
  by (induction n) (simp_all add: beNat_def)

lemma beBytes_0: "beBytes n 0 = replicate n 0"
  by (induction n) (simp_all add: replicate_append_same)

lemma beBytes_pad: "x < 256 ^ n \<Longrightarrow> beBytes (m + n) x = replicate m 0 @ beBytes n x"
proof -
  assume x: "x < 256 ^ n"
  have "beBytes (m + n) (beNat (replicate m 0 @ beBytes n x)) = replicate m 0 @ beBytes n x"
    by (rule beBytes_beNat) simp
  then show ?thesis using x by (simp add: beNat_zeros)
qed

lemma sint_bigInt64: "0 \<le> x \<Longrightarrow> x < 2 ^ 63 \<Longrightarrow> sint (bigInt64 x) = x"
  by (simp add: bigInt64_def signed_of_int signed_take_bit_int_eq_self)

end
