(* ===== verification/EthLib.thy ===== *)
theory EthLib
  imports GoBig
begin

text \<open>
  The data types of the libraries the program is written against (go-ethereum, go-bip32), and
  the library functions it calls, as one record \<open>eth_lib\<close> that every definition using them takes
  as its parameter \<open>E\<close>. Nothing is assumed about these functions: a property that relies on what
  one of them is documented to do names that documented behaviour as a hypothesis, one of the
  predicates at the end of this theory.

  An address and a hash are fixed-size byte arrays in Go; here they are 160- and 256-bit words,
  so that their size is part of the type, and \<open>addressBytes\<close> and \<open>hashBytes\<close> are their \<open>Bytes()\<close>.
\<close>

section \<open>Library data\<close>

type_synonym address = "160 word"
type_synonym hash = "256 word"

definition addressBytes :: "address \<Rightarrow> bytes" where
  "addressBytes a = beBytes 20 (unat a)"

definition hashBytes :: "hash \<Rightarrow> bytes" where
  "hashBytes h = beBytes 32 (unat h)"

lemma length_addressBytes [simp]: "length (addressBytes a) = 20"
  by (simp add: addressBytes_def)

lemma length_hashBytes [simp]: "length (hashBytes h) = 32"
  by (simp add: hashBytes_def)

lemma beNat_addressBytes [simp]: "beNat (addressBytes a) = unat a"
  using unsigned_less [of a, where ?'a = nat] by (simp add: addressBytes_def)

lemma beNat_hashBytes [simp]: "beNat (hashBytes h) = unat h"
  using unsigned_less [of h, where ?'a = nat] by (simp add: hashBytes_def)

lemma addressBytes_inj [simp]: "addressBytes a = addressBytes b \<longleftrightarrow> a = b"
  by (metis beNat_addressBytes word_unat_eq_iff)

text \<open>\<open>ecdsa.PublicKey\<close> (its point) and \<open>ecdsa.PrivateKey\<close>; a go-bip32 \<open>Key\<close>.\<close>

type_synonym pubkey = "nat \<times> nat"

record ecdsa_key =
  ek_PublicKey :: pubkey
  ek_D :: nat

record bip32_key =
  bk_Key :: bytes
  bk_ChainCode :: bytes

text \<open>\<open>apitypes.TypedData\<close>: the EIP-712 message and the types it is hashed under.\<close>

record td_type =
  td_name :: string
  td_type :: string

record td_domain =
  dom_Name :: string
  dom_Version :: string
  dom_ChainId :: "int option"
  dom_VerifyingContract :: string
  dom_Salt :: string

datatype td_val =
    TStr string | TBytes bytes | TMap "(string \<times> td_val) list"
  | TNil | TBool bool | TNumber string | TList "td_val list"

record typed_data =
  td_Types :: "(string \<times> td_type list) list"
  td_PrimaryType :: string
  td_Domain :: td_domain
  td_Message :: "(string \<times> td_val) list"

text \<open>
  \<open>accounts/abi\<close>: a type descriptor (the arguments of \<open>abi.NewType\<close>: its name and, for a tuple,
  its named components), and the Go values that are packed under it.
\<close>

datatype abi_type = AbiType string "(string \<times> abi_type) list"

datatype abi_val =
    AbiAddress address
  | AbiBig int
  | AbiBytes bytes
  | AbiString string
  | AbiBytesArray "bytes list"
  | AbiTuple "(string \<times> abi_val) list"

text \<open>
  \<open>types.Transaction\<close> (an EIP-1559 \<open>DynamicFeeTx\<close>): its payload and, once signed, its signature.
\<close>

record dyn_tx =
  tx_ChainID :: int
  tx_Nonce :: u64
  tx_GasTipCap :: int
  tx_GasFeeCap :: int
  tx_Gas :: u64
  tx_To :: address
  tx_Value :: int
  tx_Data :: bytes

record transaction =
  tx_payload :: dyn_tx
  tx_sig :: "bytes option"

definition NewTx :: "dyn_tx \<Rightarrow> transaction" where
  "NewTx t = \<lparr>tx_payload = t, tx_sig = None\<rparr>"

record eth_log =
  lg_Address :: address
  lg_Topics :: "hash list"
  lg_Data :: bytes
  lg_BlockNumber :: u64
  lg_TxHash :: hash

record receipt =
  rc_Status :: u64

record call_msg =
  cm_From :: "address option"
  cm_To :: "address option"
  cm_Value :: "int option"
  cm_Data :: bytes
  cm_GasFeeCap :: "int option"
  cm_GasTipCap :: "int option"

record filter_query =
  fq_FromBlock :: int
  fq_ToBlock :: int
  fq_Addresses :: "address list"
  fq_Topics :: "hash list list"

section \<open>Library functions\<close>

record eth_lib =
  isHexAddress :: "string \<Rightarrow> bool"                 \<comment> \<open>common.IsHexAddress\<close>
  hexToAddress :: "string \<Rightarrow> address"              \<comment> \<open>common.HexToAddress\<close>
  bytesToAddress :: "bytes \<Rightarrow> address"             \<comment> \<open>common.BytesToAddress\<close>
  bytesToHash :: "bytes \<Rightarrow> hash"                   \<comment> \<open>common.BytesToHash\<close>
  addressHex :: "address \<Rightarrow> string"                \<comment> \<open>common.Address.Hex\<close>
  hashHex :: "hash \<Rightarrow> string"                      \<comment> \<open>common.Hash.Hex\<close>
  leftPadBytes :: "bytes \<Rightarrow> nat \<Rightarrow> bytes"           \<comment> \<open>common.LeftPadBytes\<close>
  keccak256 :: "bytes \<Rightarrow> bytes"                    \<comment> \<open>crypto.Keccak256\<close>
  toECDSA :: "bytes \<Rightarrow> ecdsa_key res"              \<comment> \<open>crypto.ToECDSA\<close>
  hexToECDSA :: "string \<Rightarrow> ecdsa_key res"          \<comment> \<open>crypto.HexToECDSA\<close>
  pubkeyToAddress :: "pubkey \<Rightarrow> address"           \<comment> \<open>crypto.PubkeyToAddress\<close>
  ecSign :: "bytes \<Rightarrow> ecdsa_key \<Rightarrow> bytes res"       \<comment> \<open>crypto.Sign\<close>
  ecrecover :: "bytes \<Rightarrow> bytes \<Rightarrow> bytes res"        \<comment> \<open>crypto.Ecrecover\<close>
  unmarshalPubkey :: "bytes \<Rightarrow> pubkey res"         \<comment> \<open>crypto.UnmarshalPubkey\<close>
  typedDataAndHash :: "typed_data \<Rightarrow> bytes res"    \<comment> \<open>apitypes.TypedDataAndHash\<close>
  newMasterKey :: "bytes \<Rightarrow> bip32_key res"         \<comment> \<open>bip32.NewMasterKey\<close>
  newChildKey :: "bip32_key \<Rightarrow> u32 \<Rightarrow> bip32_key res" \<comment> \<open>bip32.Key.NewChildKey\<close>
  abiNewType :: "string \<Rightarrow> (string \<times> abi_type) list \<Rightarrow> abi_type res" \<comment> \<open>abi.NewType\<close>
  abiPack :: "(string \<times> abi_type) list \<Rightarrow> abi_val list \<Rightarrow> bytes res" \<comment> \<open>abi.Arguments.Pack\<close>
  signTx :: "transaction \<Rightarrow> int \<Rightarrow> ecdsa_key \<Rightarrow> transaction res" \<comment> \<open>types.SignTx\<close>
  txHash :: "transaction \<Rightarrow> hash"                  \<comment> \<open>types.Transaction.Hash\<close>
  marshalTx :: "transaction \<Rightarrow> bytes res"          \<comment> \<open>types.Transaction.MarshalBinary\<close>

section \<open>Documented behaviour, for use as hypotheses\<close>

text \<open>The checksummed text of an address is an address text, and denotes the address.\<close>

definition address_text_law :: "eth_lib \<Rightarrow> bool" where
  "address_text_law E \<longleftrightarrow>
     (\<forall>a. isHexAddress E (addressHex E a) \<and> hexToAddress E (addressHex E a) = a)"

text \<open>
  It is \<open>0x\<close> and 40 hexadecimal digits.
\<close>

definition address_form_law :: "eth_lib \<Rightarrow> bool" where
  "address_form_law E \<longleftrightarrow>
     (\<forall>a. \<exists>t. addressHex E a = ''0x'' @ t \<and> length t = 40 \<and> (\<forall>c\<in>set t. isHexChar c))"

text \<open>\<open>BytesToAddress\<close> of 20 bytes is the address with these bytes.\<close>

definition bytes_address_law :: "eth_lib \<Rightarrow> bool" where
  "bytes_address_law E \<longleftrightarrow> (\<forall>a. bytesToAddress E (addressBytes a) = a)"

text \<open>\<open>LeftPadBytes\<close> pads with zeros on the left, up to the length.\<close>

definition left_pad_law :: "eth_lib \<Rightarrow> bool" where
  "left_pad_law E \<longleftrightarrow>
     (\<forall>b n. length b \<le> n \<longrightarrow> leftPadBytes E b n = replicate (n - length b) 0 @ b)"

text \<open>
  Signing a 32-byte digest gives 65 bytes \<open>R \<parallel> S \<parallel> V\<close> with \<open>V\<close> in \<open>{0, 1}\<close>, from which the public
  key of the signing key is recovered.
\<close>

definition sign_recover_law :: "eth_lib \<Rightarrow> bool" where
  "sign_recover_law E \<longleftrightarrow>
     (\<forall>b d k s. toECDSA E b = Ok k \<longrightarrow> ecSign E d k = Ok s \<longrightarrow>
        length s = 65 \<and> unat (s ! 64) < 2 \<and>
        (\<exists>p. ecrecover E d s = Ok p \<and> unmarshalPubkey E p = Ok (ek_PublicKey k)))"

text \<open>Signing a transaction leaves its payload as it was.\<close>

definition sign_tx_law :: "eth_lib \<Rightarrow> bool" where
  "sign_tx_law E \<longleftrightarrow>
     (\<forall>t c k s. signTx E t c k = Ok s \<longrightarrow> tx_payload s = tx_payload t)"

text \<open>A Keccak-256 hash has 32 bytes.\<close>

definition keccak_law :: "eth_lib \<Rightarrow> bool" where
  "keccak_law E \<longleftrightarrow> (\<forall>b. length (keccak256 E b) = 32)"

text \<open>None of the functions used on the request paths panics.\<close>

definition total_law :: "eth_lib \<Rightarrow> bool" where
  "total_law E \<longleftrightarrow>
     (\<forall>b. toECDSA E b \<noteq> Panic) \<and> (\<forall>d k. ecSign E d k \<noteq> Panic) \<and>
     (\<forall>t. typedDataAndHash E t \<noteq> Panic) \<and> (\<forall>s. newMasterKey E s \<noteq> Panic) \<and>
     (\<forall>k i. newChildKey E k i \<noteq> Panic) \<and> (\<forall>d s. ecrecover E d s \<noteq> Panic) \<and>
     (\<forall>p. unmarshalPubkey E p \<noteq> Panic) \<and> (\<forall>a v. abiPack E a v \<noteq> Panic) \<and>
     (\<forall>n c. \<exists>t. abiNewType E n c = Ok t)"

section \<open>A concrete instance, for the witnesses\<close>

text \<open>
  A small library with the documented behaviour (not the real cryptography): addresses are
  written in lower-case hexadecimal, a signature carries the signer's public key, a child key is
  the parent's with the index mixed in. The witness theorems evaluate the model with it.
\<close>

definition demo_address_text :: "address \<Rightarrow> string" where
  "demo_address_text a = ''0x'' @ hexEncode (addressBytes a)"

definition demo_parse_address :: "string \<Rightarrow> address" where
  "demo_parse_address s =
     (case hexDecode (trimPrefix s ''0x'') of Ok b \<Rightarrow> word_of_nat (beNat b) | _ \<Rightarrow> 0)"

definition demo_is_address :: "string \<Rightarrow> bool" where
  "demo_is_address s \<longleftrightarrow>
     (let t = trimPrefix s ''0x'' in length t = 40 \<and> (\<forall>c\<in>set t. isHexChar c))"

definition demo_key :: "bytes \<Rightarrow> ecdsa_key res" where
  "demo_key b =
     (if length b = 32 then Ok \<lparr>ek_PublicKey = (beNat b, 0), ek_D = beNat b\<rparr>
      else Err (External ''invalid length''))"

definition demo_lib :: eth_lib where
  "demo_lib =
    \<lparr>isHexAddress = demo_is_address, hexToAddress = demo_parse_address,
     bytesToAddress = (\<lambda>b. word_of_nat (beNat b)), bytesToHash = (\<lambda>b. word_of_nat (beNat b)),
     addressHex = demo_address_text, hashHex = (\<lambda>h. ''0x'' @ hexEncode (hashBytes h)),
     leftPadBytes = (\<lambda>b n. replicate (n - length b) 0 @ b),
     keccak256 = (\<lambda>b. beBytes 32 (beNat b)),
     toECDSA = demo_key,
     hexToECDSA = (\<lambda>s. res_bind (hexDecode s) demo_key),
     pubkeyToAddress = (\<lambda>(x, y). word_of_nat x),
     ecSign = (\<lambda>d k. Ok (beBytes 32 (fst (ek_PublicKey k)) @ beBytes 32 (snd (ek_PublicKey k)) @ [0])),
     ecrecover = (\<lambda>d s. Ok (take 64 s)),
     unmarshalPubkey = (\<lambda>p. Ok (beNat (take 32 p), beNat (drop 32 p))),
     typedDataAndHash = (\<lambda>t. Ok (replicate 32 7)),
     newMasterKey = (\<lambda>s. Ok \<lparr>bk_Key = beBytes 32 (beNat s), bk_ChainCode = []\<rparr>),
     newChildKey = (\<lambda>k i. Ok \<lparr>bk_Key = beBytes 32 (beNat (bk_Key k) * 3 + unat i), bk_ChainCode = []\<rparr>),
     abiNewType = (\<lambda>n c. Ok (AbiType n c)),
     abiPack = (\<lambda>a v. Ok (replicate (length v) 9)),
     signTx = (\<lambda>t c k. Ok (t\<lparr>tx_sig := Some [1]\<rparr>)),
     txHash = (\<lambda>t. word_of_nat (length (tx_Data (tx_payload t)))),
     marshalTx = (\<lambda>t. Ok (tx_Data (tx_payload t)))\<rparr>"

lemmas demo_simps = demo_lib_def eth_lib.simps

lemma demo_parse_text [simp]: "demo_parse_address (demo_address_text a) = a"
proof -
  have "trimPrefix (demo_address_text a) ''0x'' = hexEncode (addressBytes a)"
    unfolding demo_address_text_def by (rule trimPrefix_append)
  then show ?thesis by (simp add: demo_parse_address_def)
qed

lemma demo_is_text [simp]: "demo_is_address (demo_address_text a)"
proof -
  have "trimPrefix (demo_address_text a) ''0x'' = hexEncode (addressBytes a)"
    unfolding demo_address_text_def by (rule trimPrefix_append)
  then show ?thesis using hexEncode_hex by (simp add: demo_is_address_def)
qed

lemma demo_address_text_law: "address_text_law demo_lib"
  by (simp add: address_text_law_def demo_simps)

lemma demo_address_form_law: "address_form_law demo_lib"
  using hexEncode_hex by (simp add: address_form_law_def demo_simps demo_address_text_def)

lemma demo_bytes_address_law: "bytes_address_law demo_lib"
  by (simp add: bytes_address_law_def demo_simps)

lemma demo_left_pad_law: "left_pad_law demo_lib"
  by (simp add: left_pad_law_def demo_simps)

lemma demo_sign_recover_law: "sign_recover_law demo_lib"
proof -
  have "beNat b < 256 ^ 32" if "length b = 32" for b
    using beNat_less [of b] that by simp
  then show ?thesis
    by (auto simp: sign_recover_law_def demo_simps demo_key_def nth_append beBytes_0 beNat_zeros
        beNat_beBytes split: if_splits)
qed

lemma demo_sign_tx_law: "sign_tx_law demo_lib"
  by (auto simp: sign_tx_law_def demo_simps)

lemma demo_keccak_law: "keccak_law demo_lib"
  by (simp add: keccak_law_def demo_simps)

lemma demo_total_law: "total_law demo_lib"
  by (simp add: total_law_def demo_simps demo_key_def)

end
