(* ===== verification/Derive.thy ===== *)
theory Derive
  imports EthLib
begin

text \<open>
  \<open>src/derive.go\<close>: deterministic derivation of the agent keys. \<open>deriveHardened\<close> walks an
  all-hardened BIP-32 path from the master seed; \<open>Derive\<close>, \<open>DeriveAgent\<close> and \<open>DerivePath\<close> are
  the public entry points. BIP-32 itself is the library parameter \<open>E\<close>.

  The lemmas show what a derived key is made of, that exactly the hardened children are asked
  for, and that the printed path determines the indices.
\<close>

definition bip44Purpose :: u32 where
  "bip44Purpose = 44"

definition DefaultCoinType :: u32 where
  "DefaultCoinType = 8453"

record agent_key =
  ak_PrivateKey :: bytes
  ak_Address :: string
  ak_DerivationPath :: string

text \<open>\<open>Zeroize\<close> on a pointer that may be nil.\<close>

definition Zeroize :: "agent_key option \<Rightarrow> agent_key option" where
  "Zeroize a = map_option (\<lambda>k. k\<lparr>ak_PrivateKey := map (\<lambda>_. 0) (ak_PrivateKey k)\<rparr>) a"

text \<open>\<open>bip32.FirstHardenedChild\<close>, and the limit \<open>1 << 31\<close> of the indices.\<close>

definition FirstHardenedChild :: u32 where
  "FirstHardenedChild = 0x80000000"

definition pathSegment :: "u32 \<Rightarrow> string" where
  "pathSegment i = CHR ''/'' # showU i @ [CHR 0x27]"

text \<open>The loop over the indices: the key and the path built so far.\<close>

fun childWalk :: "eth_lib \<Rightarrow> bip32_key \<Rightarrow> string \<Rightarrow> u32 list \<Rightarrow> (bip32_key \<times> string) res" where
  "childWalk E key path [] = Ok (key, path)"
| "childWalk E key path (i # is) =
     res_bind (res_wrap (''agentwallet: derive %d'' @ [CHR 0x27] @ '': %w'') [showU i]
                 (newChildKey E key (i + FirstHardenedChild)))
       (\<lambda>key'. childWalk E key' (path @ pathSegment i) is)"

definition deriveHardened :: "eth_lib \<Rightarrow> bytes \<Rightarrow> u32 list \<Rightarrow> agent_key res" where
  "deriveHardened E masterSeed indices =
     (if length masterSeed < 16 \<or> length masterSeed > 64 then
        Err (Errorf ''agentwallet: master seed must be 16-64 bytes (got %d)'' [showNat (length masterSeed)])
      else if indices = [] then Err (Errorf ''agentwallet: empty derivation path'' [])
      else case find (\<lambda>i. i \<ge> 0x80000000) indices of
        Some i \<Rightarrow> Err (Errorf ''agentwallet: index %d outside hardened range [0, 2^31)'' [showU i])
      | None \<Rightarrow>
          res_bind (res_wrap ''agentwallet: master key: %w'' [] (newMasterKey E masterSeed)) (\<lambda>master.
          res_bind (childWalk E master ''m'' indices) (\<lambda>(key, path).
          if length (bk_Key key) \<noteq> 32 then Err (Errorf ''agentwallet: bip32 returned non-32-byte key'' [])
          else
          res_bind (res_wrap ''agentwallet: to-ecdsa: %w'' [] (toECDSA E (bk_Key key))) (\<lambda>priv.
          Ok \<lparr>ak_PrivateKey = bk_Key key,
              ak_Address = addressHex E (pubkeyToAddress E (ek_PublicKey priv)),
              ak_DerivationPath = path\<rparr>))))"

definition Derive :: "eth_lib \<Rightarrow> bytes \<Rightarrow> u32 \<Rightarrow> u32 \<Rightarrow> agent_key res" where
  "Derive E masterSeed coinType account =
     (if account = 0 \<or> account \<ge> 0x80000000 then
        Err (Errorf ''agentwallet: account %d outside range (0, 2^31)'' [showU account])
      else deriveHardened E masterSeed [bip44Purpose, coinType, account])"

definition DeriveAgent :: "eth_lib \<Rightarrow> bytes \<Rightarrow> u32 \<Rightarrow> u32 \<Rightarrow> u32 \<Rightarrow> agent_key res" where
  "DeriveAgent E masterSeed coinType owner agent =
     deriveHardened E masterSeed [bip44Purpose, coinType, owner, agent]"

definition DerivePath :: "eth_lib \<Rightarrow> bytes \<Rightarrow> u32 list \<Rightarrow> agent_key res" where
  "DerivePath E masterSeed hardenedIndices = deriveHardened E masterSeed hardenedIndices"

section \<open>The abstract derivation\<close>

text \<open>
  What the derivation promises: the leaf is reached from the master key through the hardened
  children \<open>2^31 + i\<close>, and the path text lists the indices.
\<close>

fun bip32_chain :: "eth_lib \<Rightarrow> bip32_key \<Rightarrow> u32 list \<Rightarrow> bip32_key res" where
  "bip32_chain E k [] = Ok k"
| "bip32_chain E k (i # is) = res_bind (newChildKey E k i) (\<lambda>k'. bip32_chain E k' is)"

definition hardened :: "u32 \<Rightarrow> u32" where
  "hardened i = word_of_nat (2 ^ 31 + unat i)"

definition path_text :: "u32 list \<Rightarrow> string" where
  "path_text is = ''m'' @ concat (map pathSegment is)"

lemma add_FirstHardenedChild: "i + FirstHardenedChild = hardened i"
  by (simp add: hardened_def FirstHardenedChild_def add.commute)

lemma unat_hardened:
  assumes "i < 0x80000000"
  shows "unat (hardened i) = 2 ^ 31 + unat i"
proof -
  have "unat i < 2 ^ 31" using assms by (simp add: word_less_nat_alt)
  then have "(2147483648 + unat i) mod 2 ^ 32 = 2147483648 + unat i" by simp
  then show ?thesis by (simp add: hardened_def unat_word_ariths)
qed

lemma childWalk_Ok_iff:
  "childWalk E k p is = Ok (k', p') \<longleftrightarrow>
     bip32_chain E k (map hardened is) = Ok k' \<and> p' = p @ concat (map pathSegment is)"
  by (induction "is" arbitrary: k p) (auto simp: io_ok add_FirstHardenedChild)

lemma find_index_Ok_iff:
  "(case find P is of Some i \<Rightarrow> Err (e i) | None \<Rightarrow> r) = Ok k \<longleftrightarrow> (\<forall>i\<in>set is. \<not> P i) \<and> r = Ok k"
proof (cases "find P is")
  case None
  then show ?thesis using find_None_iff [of P "is"] by simp
next
  case (Some i)
  then have "i \<in> set is \<and> P i" by (auto simp: find_Some_iff)
  with Some show ?thesis by auto
qed

lemma deriveHardened_Ok_iff [io_ok]:
  "deriveHardened E s is = Ok k \<longleftrightarrow>
     16 \<le> length s \<and> length s \<le> 64 \<and> is \<noteq> [] \<and> (\<forall>i\<in>set is. i < 0x80000000) \<and>
     (\<exists>m leaf priv. newMasterKey E s = Ok m \<and> bip32_chain E m (map hardened is) = Ok leaf \<and>
        length (bk_Key leaf) = 32 \<and> toECDSA E (bk_Key leaf) = Ok priv \<and>
        k = \<lparr>ak_PrivateKey = bk_Key leaf,
             ak_Address = addressHex E (pubkeyToAddress E (ek_PublicKey priv)),
             ak_DerivationPath = path_text is\<rparr>)"
  by (auto simp: deriveHardened_def find_index_Ok_iff io_ok childWalk_Ok_iff path_text_def
      linorder_not_le split: if_splits)

lemma Derive_Ok_iff [io_ok]:
  "Derive E s c a = Ok k \<longleftrightarrow>
     0 < a \<and> a < 0x80000000 \<and> deriveHardened E s [bip44Purpose, c, a] = Ok k"
  by (auto simp: Derive_def word_gt_0 linorder_not_le)

section \<open>Path texts are unambiguous\<close>

lemma digits_quote_inj:
  assumes "showNat m @ CHR 0x27 # r = showNat n @ CHR 0x27 # s"
  shows "m = n \<and> r = s"
proof -
  have q: "\<not> isDigit (CHR 0x27)" by (simp add: isDigit_def code_def)
  have tw: "takeWhile isDigit (showNat k @ CHR 0x27 # t) = showNat k" for k t
    using showNat_digits [of k] q by (simp add: takeWhile_append2)
  have "showNat m = showNat n" using tw [of m r] tw [of n s] assms by simp
  with assms show ?thesis by simp
qed

lemma pathSegment_inj: "pathSegment i @ r = pathSegment j @ s \<Longrightarrow> i = j \<and> r = s"
  using digits_quote_inj [of "unat i" r "unat j" s]
  by (auto simp: pathSegment_def showU_def word_unat_eq_iff)

lemma pathSegments_inj: "concat (map pathSegment is) = concat (map pathSegment js) \<Longrightarrow> is = js"
proof (induction "is" arbitrary: js)
  case Nil
  then show ?case by (cases js) (auto simp: pathSegment_def)
next
  case (Cons i "is")
  then obtain j js' where js: "js = j # js'" by (cases js) (auto simp: pathSegment_def)
  with Cons.prems pathSegment_inj [of i _ j] have "i = j"
    and "concat (map pathSegment is) = concat (map pathSegment js')" by auto
  with Cons.IH js show ?case by simp
qed

lemma path_text_inj [simp]: "path_text is = path_text js \<longleftrightarrow> is = js"
  by (auto simp: path_text_def dest: pathSegments_inj)

section \<open>What a derived key is\<close>

text \<open>
  A key that \<open>deriveHardened\<close> returns comes from a seed of 16 to 64 bytes and a non-empty path
  of indices below \<open>2^31\<close>; it is the leaf of the BIP-32 chain through exactly the hardened
  children \<open>2^31 + i\<close> of these indices (the addition does not wrap, so no index is derived as a
  non-hardened child), its private key has 32 bytes, its address is the address of that key, and
  its path text is the text of the indices.
\<close>

lemma derive_hardened_chain:
  assumes "deriveHardened E seed is = Ok k"
  shows "16 \<le> length seed \<and> length seed \<le> 64 \<and> is \<noteq> [] \<and>
    (\<exists>m leaf priv. newMasterKey E seed = Ok m \<and>
       bip32_chain E m (map hardened is) = Ok leaf \<and>
       (\<forall>i\<in>set is. unat (hardened i) = 2 ^ 31 + unat i) \<and>
       ak_PrivateKey k = bk_Key leaf \<and> length (ak_PrivateKey k) = 32 \<and>
       toECDSA E (ak_PrivateKey k) = Ok priv \<and>
       ak_Address k = addressHex E (pubkeyToAddress E (ek_PublicKey priv)) \<and>
       ak_DerivationPath k = path_text is)"
  using assms by (auto simp: io_ok unat_hardened)

lemma derive_hardened_chain_demo:
  "\<exists>k. deriveHardened demo_lib (replicate 32 1) [44, 8453, 7] = Ok k \<and>
       length (ak_PrivateKey k) = 32 \<and> ak_DerivationPath k = path_text [44, 8453, 7]"
proof -
  obtain k where k: "deriveHardened demo_lib (replicate 32 1) [44, 8453, 7] = Ok k"
    by (simp add: deriveHardened_def demo_simps demo_key_def)
  from derive_hardened_chain [OF k] k show ?thesis by auto
qed

text \<open>
  The path printed with a key identifies its indices, for every depth and whatever the seed: the
  three-level and the four-level schemes never share a path.
\<close>

lemma derivation_paths_distinct:
  assumes "deriveHardened E s is = Ok k" and "deriveHardened E' s' js = Ok k'"
  shows "ak_DerivationPath k = ak_DerivationPath k' \<longleftrightarrow> is = js"
  using assms by (auto simp: io_ok)

text \<open>
  The bytes of a zeroized key are all zero; its address and path are untouched.
\<close>

lemma Zeroize_scrubs:
  "Zeroize (Some k) = Some k' \<Longrightarrow>
     ak_PrivateKey k' = replicate (length (ak_PrivateKey k)) 0 \<and>
     ak_Address k' = ak_Address k \<and> ak_DerivationPath k' = ak_DerivationPath k"
  by (auto simp: Zeroize_def map_replicate_const)

end
