(* ===== verification/TypedData.thy ===== *)
theory TypedData
  imports EthLib
begin

text \<open>
  \<open>src/eip712.go\<close>: the EIP-712 typed data of a Permit2 \<open>PermitSingle\<close>, of an ERC-2612 \<open>permit\<close>
  and of an EIP-3009 \<open>transferWithAuthorization\<close>, signing them, and recovering their signer.
  Hashing and the curve operations are library functions (\<open>E\<close>).

  The lemmas characterise when each builder accepts, what range the accepted numbers lie in, and
  what the signature decoders do to the recovery byte; the properties end with the round trip
  from \<open>SignTypedData\<close> to \<open>RecoverTypedDataSigner\<close>.
\<close>

section \<open>Parameters and payloads\<close>

record signed_payload =
  sp_Signature :: string
  sp_Digest :: string

record permit2_params =
  pp_Token :: string
  pp_Spender :: string
  pp_Amount :: string
  pp_Nonce :: u64
  pp_Deadline :: i64
  pp_ChainID :: i64
  pp_Permit2Addr :: string

record eip2612_params =
  ep_Token :: string
  ep_Owner :: string
  ep_Spender :: string
  ep_Value :: string
  ep_Nonce :: u64
  ep_Deadline :: i64
  ep_ChainID :: i64

record eip3009_params =
  tp_Token :: string
  tp_From :: string
  tp_To :: string
  tp_Value :: string
  tp_ValidAfter :: i64
  tp_ValidBefore :: i64
  tp_Nonce :: string
  tp_ChainID :: i64

definition permit2AmountMaxBits :: nat where "permit2AmountMaxBits = 160"
definition permit2NonceMaxBits :: nat where "permit2NonceMaxBits = 48"
definition permit2ExpirationMaxBits :: nat where "permit2ExpirationMaxBits = 48"

section \<open>Helpers\<close>

definition decimalToBigInt :: "string \<Rightarrow> int res" where
  "decimalToBigInt s0 =
     (let s = trimSpace s0 in
      if s = [] then Err (Errorf ''empty'' [])
      else case setString 10 s of
        None \<Rightarrow> Err (Errorf ''not a base-10 integer: %q'' [s])
      | Some v \<Rightarrow> if v < 0 then Err (Errorf ''negative'' []) else Ok v)"

text \<open>The loop of \<open>bitsForU64\<close>: the bits counted so far and the rest of the value.\<close>

function bitsLoop :: "nat \<Rightarrow> u64 \<Rightarrow> nat" where
  "bitsLoop bits v = (if v > 0 then bitsLoop (Suc bits) (drop_bit 1 v) else bits)"
  by pat_completeness auto

lemma unat_drop_bit_1: "unat (drop_bit 1 (v :: 'a::len word)) = unat v div 2"
  by (subst unat_drop_bit_eq) (simp only: drop_bit_eq_div power_one_right)

termination bitsLoop
proof (relation "measure (\<lambda>(bits, v). unat v)")
  fix bits :: nat and v :: u64
  assume "v > 0"
  then have "0 < unat v" by (simp add: word_gt_0 unat_gt_0)
  then have "unat (drop_bit 1 v) < unat v" unfolding unat_drop_bit_1 by simp
  then show "((Suc bits, drop_bit 1 v), bits, v) \<in> measure (\<lambda>(bits, v). unat v)"
    by (simp only: in_measure split)
qed (rule wf_measure)

declare bitsLoop.simps [simp del]

definition bitsForU64 :: "u64 \<Rightarrow> nat" where
  "bitsForU64 v = bitsLoop 0 v"

definition looksLikeAddress :: "string \<Rightarrow> bool" where
  "looksLikeAddress s \<longleftrightarrow>
     \<not> (length s \<noteq> 42 \<or> \<not> hasPrefix s ''0x'') \<and> isOk (hexDecode (drop 2 s))"

definition bytes32HexToBytes :: "string \<Rightarrow> bytes res" where
  "bytes32HexToBytes s =
     (if \<not> hasPrefix s ''0x'' then Err (Errorf ''missing 0x prefix'' [])
      else if length s \<noteq> 2 + 64 then
        Err (Errorf ''not 32 bytes hex (got %d chars after 0x)'' [showInt (int (length s) - 2)])
      else hexDecode (drop 2 s))"

definition decodeSig65 :: "string \<Rightarrow> bytes res" where
  "decodeSig65 s0 =
     (let s = trimPrefix (trimSpace s0) ''0x'' in
      if length s \<noteq> 130 then
        Err (Errorf ''expected 65-byte signature (130 hex), got %d'' [showNat (length s)])
      else
        res_bind (res_wrap ''bad hex: %w'' [] (hexDecode s)) (\<lambda>b.
        Ok (if b ! 64 \<ge> 27 then b[64 := b ! 64 - 27] else b)))"

section \<open>Builders\<close>

definition permit2_types :: "(string \<times> td_type list) list" where
  "permit2_types =
    [(''EIP712Domain'',
       [\<lparr>td_name = ''name'', td_type = ''string''\<rparr>,
        \<lparr>td_name = ''chainId'', td_type = ''uint256''\<rparr>,
        \<lparr>td_name = ''verifyingContract'', td_type = ''address''\<rparr>]),
     (''PermitDetails'',
       [\<lparr>td_name = ''token'', td_type = ''address''\<rparr>,
        \<lparr>td_name = ''amount'', td_type = ''uint160''\<rparr>,
        \<lparr>td_name = ''expiration'', td_type = ''uint48''\<rparr>,
        \<lparr>td_name = ''nonce'', td_type = ''uint48''\<rparr>]),
     (''PermitSingle'',
       [\<lparr>td_name = ''details'', td_type = ''PermitDetails''\<rparr>,
        \<lparr>td_name = ''spender'', td_type = ''address''\<rparr>,
        \<lparr>td_name = ''sigDeadline'', td_type = ''uint256''\<rparr>])]"

definition BuildPermit2TypedData :: "permit2_params \<Rightarrow> typed_data res" where
  "BuildPermit2TypedData p =
     res_bind (res_wrap ''permit2: amount: %w'' [] (decimalToBigInt (pp_Amount p))) (\<lambda>amount.
     if bitLen amount > permit2AmountMaxBits then
       Err (Errorf ''permit2: amount %s overflows uint160'' [pp_Amount p])
     else if bitsForU64 (pp_Nonce p) > permit2NonceMaxBits then
       Err (Errorf ''permit2: nonce %d overflows uint48'' [showU (pp_Nonce p)])
     else if bitsForU64 (pp_Deadline p) > permit2ExpirationMaxBits then
       Err (Errorf ''permit2: deadline %d overflows uint48'' [showI (pp_Deadline p)])
     else if \<not> looksLikeAddress (pp_Token p) \<or> \<not> looksLikeAddress (pp_Spender p) \<or>
             \<not> looksLikeAddress (pp_Permit2Addr p) then
       Err (Errorf ''permit2: invalid address (token/spender/permit2addr)'' [])
     else Ok \<lparr>
       td_Types = permit2_types,
       td_PrimaryType = ''PermitSingle'',
       td_Domain = \<lparr>dom_Name = ''Permit2'', dom_Version = [], dom_ChainId = Some (sint (pp_ChainID p)),
                    dom_VerifyingContract = pp_Permit2Addr p, dom_Salt = []\<rparr>,
       td_Message =
         [(''details'', TMap
            [(''token'', TStr (pp_Token p)),
             (''amount'', TStr (showInt amount)),
             (''expiration'', TStr (showI (pp_Deadline p))),
             (''nonce'', TStr (showU (pp_Nonce p)))]),
          (''spender'', TStr (pp_Spender p)),
          (''sigDeadline'', TStr (showI (pp_Deadline p)))]\<rparr>)"

definition token_domain_types :: "td_type list" where
  "token_domain_types =
     [\<lparr>td_name = ''name'', td_type = ''string''\<rparr>,
      \<lparr>td_name = ''version'', td_type = ''string''\<rparr>,
      \<lparr>td_name = ''chainId'', td_type = ''uint256''\<rparr>,
      \<lparr>td_name = ''verifyingContract'', td_type = ''address''\<rparr>]"

definition BuildEIP2612TypedData :: "eip2612_params \<Rightarrow> string \<Rightarrow> string \<Rightarrow> typed_data res" where
  "BuildEIP2612TypedData p tokenName tokenVersion =
     (if \<not> looksLikeAddress (ep_Token p) \<or> \<not> looksLikeAddress (ep_Owner p) \<or>
         \<not> looksLikeAddress (ep_Spender p) then
        Err (Errorf ''eip2612: invalid address (token/owner/spender)'' [])
      else
        res_bind (res_wrap ''eip2612: value: %w'' [] (decimalToBigInt (ep_Value p))) (\<lambda>v.
        if bitLen v > 256 then Err (Errorf ''eip2612: value overflows uint256'' [])
        else if trimSpace tokenName = [] \<or> trimSpace tokenVersion = [] then
          Err (Errorf ''eip2612: token name/version required'' [])
        else Ok \<lparr>
          td_Types =
            [(''EIP712Domain'', token_domain_types),
             (''Permit'',
               [\<lparr>td_name = ''owner'', td_type = ''address''\<rparr>,
                \<lparr>td_name = ''spender'', td_type = ''address''\<rparr>,
                \<lparr>td_name = ''value'', td_type = ''uint256''\<rparr>,
                \<lparr>td_name = ''nonce'', td_type = ''uint256''\<rparr>,
                \<lparr>td_name = ''deadline'', td_type = ''uint256''\<rparr>])],
          td_PrimaryType = ''Permit'',
          td_Domain = \<lparr>dom_Name = tokenName, dom_Version = tokenVersion,
                       dom_ChainId = Some (sint (ep_ChainID p)), dom_VerifyingContract = ep_Token p, dom_Salt = []\<rparr>,
          td_Message =
            [(''owner'', TStr (ep_Owner p)),
             (''spender'', TStr (ep_Spender p)),
             (''value'', TStr (showInt v)),
             (''nonce'', TStr (showU (ep_Nonce p))),
             (''deadline'', TStr (showI (ep_Deadline p)))]\<rparr>))"

definition BuildEIP3009TypedData :: "eip3009_params \<Rightarrow> string \<Rightarrow> string \<Rightarrow> typed_data res" where
  "BuildEIP3009TypedData p tokenName tokenVersion =
     (if \<not> looksLikeAddress (tp_Token p) \<or> \<not> looksLikeAddress (tp_From p) \<or>
         \<not> looksLikeAddress (tp_To p) then
        Err (Errorf ''eip3009: invalid address (token/from/to)'' [])
      else
        res_bind (res_wrap ''eip3009: value: %w'' [] (decimalToBigInt (tp_Value p))) (\<lambda>v.
        res_bind (res_wrap ''eip3009: nonce: %w'' [] (bytes32HexToBytes (tp_Nonce p))) (\<lambda>nonce.
        if trimSpace tokenName = [] \<or> trimSpace tokenVersion = [] then
          Err (Errorf ''eip3009: token name/version required'' [])
        else Ok \<lparr>
          td_Types =
            [(''EIP712Domain'', token_domain_types),
             (''TransferWithAuthorization'',
               [\<lparr>td_name = ''from'', td_type = ''address''\<rparr>,
                \<lparr>td_name = ''to'', td_type = ''address''\<rparr>,
                \<lparr>td_name = ''value'', td_type = ''uint256''\<rparr>,
                \<lparr>td_name = ''validAfter'', td_type = ''uint256''\<rparr>,
                \<lparr>td_name = ''validBefore'', td_type = ''uint256''\<rparr>,
                \<lparr>td_name = ''nonce'', td_type = ''bytes32''\<rparr>])],
          td_PrimaryType = ''TransferWithAuthorization'',
          td_Domain = \<lparr>dom_Name = tokenName, dom_Version = tokenVersion,
                       dom_ChainId = Some (sint (tp_ChainID p)), dom_VerifyingContract = tp_Token p, dom_Salt = []\<rparr>,
          td_Message =
            [(''from'', TStr (tp_From p)),
             (''to'', TStr (tp_To p)),
             (''value'', TStr (showInt v)),
             (''validAfter'', TStr (showI (tp_ValidAfter p))),
             (''validBefore'', TStr (showI (tp_ValidBefore p))),
             (''nonce'', TBytes nonce)]\<rparr>)))"

section \<open>Signing and recovering\<close>

definition SignTypedData :: "eth_lib \<Rightarrow> bytes \<Rightarrow> typed_data \<Rightarrow> signed_payload res" where
  "SignTypedData E privKeyBytes td =
     res_bind (res_wrap ''typed-data hash: %w'' [] (typedDataAndHash E td)) (\<lambda>digest.
     res_bind (res_wrap ''to-ecdsa: %w'' [] (toECDSA E privKeyBytes)) (\<lambda>priv.
     res_bind (res_wrap ''sign: %w'' [] (ecSign E digest priv)) (\<lambda>raw.
     if length raw \<noteq> 65 then
       Err (Errorf ''expected 65-byte signature, got %d'' [showNat (length raw)])
     else
       let raw' = (if raw ! 64 < 27 then raw[64 := raw ! 64 + 27] else raw) in
       Ok \<lparr>sp_Signature = ''0x'' @ hexEncode raw', sp_Digest = ''0x'' @ hexEncode digest\<rparr>)))"

definition RecoverTypedDataSigner :: "eth_lib \<Rightarrow> typed_data \<Rightarrow> string \<Rightarrow> string res" where
  "RecoverTypedDataSigner E td sigHex =
     res_bind (res_wrap ''typed-data hash: %w'' [] (typedDataAndHash E td)) (\<lambda>digest.
     res_bind (decodeSig65 sigHex) (\<lambda>sig.
     res_bind (res_wrap ''ecrecover: %w'' [] (ecrecover E digest sig)) (\<lambda>pub.
     res_bind (res_wrap ''unmarshal pubkey: %w'' [] (unmarshalPubkey E pub)) (\<lambda>pk.
     Ok (addressHex E (pubkeyToAddress E pk))))))"

section \<open>Lemmas\<close>

lemma decimalToBigInt_Ok_iff:
  "decimalToBigInt s = Ok v \<longleftrightarrow> setString 10 (trimSpace s) = Some v \<and> 0 \<le> v"
  by (auto simp: decimalToBigInt_def Let_def split: option.splits)

lemma decimalToBigInt_show [simp]: "0 \<le> i \<Longrightarrow> decimalToBigInt (showInt i) = Ok i"
  by (simp add: decimalToBigInt_Ok_iff)

lemma bitsLoop_le_iff: "bitsLoop bits v \<le> bits + k \<longleftrightarrow> unat v < 2 ^ k"
proof (induction bits v arbitrary: k rule: bitsLoop.induct)
  case (1 bits v)
  show ?case
  proof (cases "v > 0")
    case False
    then show ?thesis by (subst bitsLoop.simps) (simp add: word_gt_0)
  next
    case True
    then have v: "0 < unat v" by (simp add: word_gt_0 unat_gt_0)
    have grow: "b \<le> bitsLoop b u" for b u
      by (induction b u rule: bitsLoop.induct) (subst bitsLoop.simps, auto)
    show ?thesis
    proof (cases k)
      case 0
      with True v grow [of "Suc bits" "drop_bit 1 v"] show ?thesis
        by (subst bitsLoop.simps) simp
    next
      case (Suc k')
      have "bitsLoop bits v \<le> bits + k \<longleftrightarrow> bitsLoop (Suc bits) (drop_bit 1 v) \<le> Suc bits + k'"
        using True Suc by (subst bitsLoop.simps) simp
      also have "\<dots> \<longleftrightarrow> unat v div 2 < 2 ^ k'"
        by (simp only: "1.IH" [OF True] unat_drop_bit_1)
      also have "\<dots> \<longleftrightarrow> unat v < 2 ^ k" using Suc by (simp add: div_less_iff_less_mult mult.commute)
      finally show ?thesis .
    qed
  qed
qed

lemma bitsForU64_le_iff: "bitsForU64 v \<le> k \<longleftrightarrow> unat v < 2 ^ k"
  using bitsLoop_le_iff [of 0 v k] by (simp add: bitsForU64_def)

lemma sint_small:
  fixes w :: "64 word"
  assumes "unat w < 2 ^ 63"
  shows "sint w = int (unat w)"
proof -
  have "int (unat w) < int (2 ^ 63)" using assms by (simp only: of_nat_less_iff)
  then have "uint w < 2 ^ 63" by simp
  moreover have "- (2 ^ 63) \<le> uint w" by (rule order_trans [OF _ uint_ge_0]) simp
  ultimately have "signed_take_bit 63 (uint w) = uint w" by (intro signed_take_bit_int_eq_self)
  then show ?thesis by (simp add: sint_uint)
qed

lemma looksLikeAddress_iff:
  "looksLikeAddress s \<longleftrightarrow> (\<exists>t. s = ''0x'' @ t \<and> length t = 40 \<and> (\<forall>c\<in>set t. isHexChar c))"
proof -
  have "looksLikeAddress (''0x'' @ t) \<longleftrightarrow> length t = 40 \<and> (\<forall>c\<in>set t. isHexChar c)" for t
    using hexDecode_iff [of t]
    by (auto simp: looksLikeAddress_def isOk_iff hasPrefix_def)
  moreover have "looksLikeAddress s \<Longrightarrow> hasPrefix s ''0x''" by (simp add: looksLikeAddress_def)
  ultimately show ?thesis by (metis hasPrefixE)
qed

lemma looksLikeAddress_text: "address_form_law E \<Longrightarrow> looksLikeAddress (addressHex E a)"
  by (auto simp: looksLikeAddress_iff address_form_law_def)

lemma decodeSig65_Ok:
  assumes "decodeSig65 s = Ok b"
  shows "length b = 65 \<and> (\<exists>raw. hexDecode (trimPrefix (trimSpace s) ''0x'') = Ok raw \<and> length raw = 65 \<and>
    length (trimPrefix (trimSpace s) ''0x'') = 130 \<and>
    b = (if raw ! 64 \<ge> 27 then raw[64 := raw ! 64 - 27] else raw))"
proof -
  let ?s = "trimPrefix (trimSpace s) ''0x''"
  from assms have len: "length ?s = 130" by (simp add: decodeSig65_def Let_def split: if_splits)
  with assms obtain raw where raw: "hexDecode ?s = Ok raw"
    and b: "b = (if raw ! 64 \<ge> 27 then raw[64 := raw ! 64 - 27] else raw)"
    by (auto simp: decodeSig65_def Let_def io_ok)
  from hexDecode_length [OF raw] len have "length raw = 65" by simp
  with len raw b show ?thesis by simp
qed

text \<open>A 65-byte signature text, white space and case aside, decodes to its bytes.\<close>

lemma decodeSig65_hex:
  assumes "length raw = 65"
  shows "decodeSig65 (''0x'' @ hexEncode raw) =
    Ok (if raw ! 64 \<ge> 27 then raw[64 := raw ! 64 - 27] else raw)"
proof -
  have "\<forall>c\<in>set (''0x'' @ hexEncode raw). plain c"
    using hexEncode_hex [of raw] isHexChar_plain by (auto simp: plain_def code_def)
  then have "trimSpace (''0x'' @ hexEncode raw) = ''0x'' @ hexEncode raw"
    by (rule trimSpace_all_plain)
  moreover have "trimPrefix (''0x'' @ hexEncode raw) ''0x'' = hexEncode raw"
    by (rule trimPrefix_append)
  ultimately show ?thesis using assms by (simp add: decodeSig65_def)
qed

lemma byte_add_27:
  fixes v :: byte
  assumes "unat v < 27"
  shows "v < 27" and "v + 27 \<ge> 27" and "v + 27 - 27 = v" and "unat (v + 27) = unat v + 27"
proof -
  show "v < 27" using assms by (simp add: word_less_nat_alt)
  have "(unat v + 27) mod 256 = unat v + 27" using assms by simp
  then show u: "unat (v + 27) = unat v + 27" by (simp add: unat_word_ariths)
  then show "v + 27 \<ge> 27" by (simp add: word_le_nat_alt)
  show "v + 27 - 27 = v" by simp
qed

text \<open>The guards of \<open>BuildPermit2TypedData\<close>, before their arithmetic is read.\<close>

lemma build_permit2_guards:
  "(\<exists>td. BuildPermit2TypedData p = Ok td) \<longleftrightarrow>
     (\<exists>a. decimalToBigInt (pp_Amount p) = Ok a \<and> bitLen a \<le> 160) \<and>
     bitsForU64 (pp_Nonce p) \<le> 48 \<and> bitsForU64 (pp_Deadline p) \<le> 48 \<and>
     looksLikeAddress (pp_Token p) \<and> looksLikeAddress (pp_Spender p) \<and>
     looksLikeAddress (pp_Permit2Addr p)"
  by (cases "decimalToBigInt (pp_Amount p)")
    (auto simp: BuildPermit2TypedData_def permit2AmountMaxBits_def permit2NonceMaxBits_def
      permit2ExpirationMaxBits_def)

lemma decimalToBigInt_small_iff:
  "(\<exists>a. decimalToBigInt s = Ok a \<and> bitLen a \<le> k) \<longleftrightarrow>
     (\<exists>a. setString 10 (trimSpace s) = Some a \<and> 0 \<le> a \<and> a < 2 ^ k)"
  by (auto simp: decimalToBigInt_Ok_iff bitLen_le_iff)

lemma unat_48_iff_sint: "unat w < 2 ^ 48 \<longleftrightarrow> 0 \<le> sint w \<and> sint w < 2 ^ 48" for w :: i64
proof
  assume "unat w < 2 ^ 48"
  moreover from this have "int (unat w) < int (2 ^ 48)" by (simp only: of_nat_less_iff)
  ultimately show "0 \<le> sint w \<and> sint w < 2 ^ 48" by (simp add: sint_small)
next
  assume *: "0 \<le> sint w \<and> sint w < 2 ^ 48"
  have "uint w = uint (word_of_int (sint w) :: i64)" by simp
  also have "\<dots> = sint w mod 2 ^ 64" by (subst uint_word_of_int) simp
  finally have "uint w = sint w" using * by simp
  with * show "unat w < 2 ^ 48" by (simp add: unat_eq_nat_uint nat_less_iff)
qed

text \<open>Signing and recovering are inverse, on the addresses.\<close>

lemma SignTypedData_recovers:
  assumes law: "sign_recover_law E"
    and sign: "SignTypedData E key td = Ok sp"
    and priv: "toECDSA E key = Ok priv"
  shows "RecoverTypedDataSigner E td (sp_Signature sp) =
           Ok (addressHex E (pubkeyToAddress E (ek_PublicKey priv))) \<and>
         (\<exists>raw. sp_Signature sp = ''0x'' @ hexEncode raw \<and> length raw = 65 \<and> unat (raw ! 64) \<in> {27, 28})"
proof -
  from sign priv obtain digest raw where
    digest: "typedDataAndHash E td = Ok digest" and raw: "ecSign E digest priv = Ok raw"
    and len: "length raw = 65"
    and sp: "sp_Signature sp = ''0x'' @ hexEncode (if raw ! 64 < 27 then raw[64 := raw ! 64 + 27] else raw)"
    by (auto simp: SignTypedData_def io_ok Let_def split: if_splits)
  from law priv raw obtain p where v: "unat (raw ! 64) < 2"
    and p: "ecrecover E digest raw = Ok p" "unmarshalPubkey E p = Ok (ek_PublicKey priv)"
    unfolding sign_recover_law_def by blast
  from v have v27: "unat (raw ! 64) < 27" by simp
  let ?raw = "raw[64 := raw ! 64 + 27]"
  have sp': "sp_Signature sp = ''0x'' @ hexEncode ?raw"
    using sp byte_add_27 [OF v27] by simp
  have "decodeSig65 (sp_Signature sp) = Ok raw"
    unfolding sp' using len byte_add_27 [OF v27] by (subst decodeSig65_hex) simp_all
  then have "RecoverTypedDataSigner E td (sp_Signature sp) =
      Ok (addressHex E (pubkeyToAddress E (ek_PublicKey priv)))"
    by (simp add: RecoverTypedDataSigner_def digest p)
  moreover have "unat (?raw ! 64) \<in> {27, 28}"
    using len v byte_add_27 [OF v27] by auto
  ultimately show ?thesis using sp' len by (intro conjI exI [of _ ?raw]) simp_all
qed

text \<open>
  \<open>BuildPermit2TypedData\<close> accepts exactly the parameters whose amount is a decimal number below
  \<open>2^160\<close>, whose nonce is below \<open>2^48\<close>, whose deadline is non-negative and below \<open>2^48\<close> (a negative
  deadline is caught by its unsigned bit length) and whose three addresses are \<open>0x\<close> and 40
  hexadecimal digits.
\<close>

lemma build_permit2_ok_iff:
  "(\<exists>td. BuildPermit2TypedData p = Ok td) \<longleftrightarrow>
     (\<exists>a. setString 10 (trimSpace (pp_Amount p)) = Some a \<and> 0 \<le> a \<and> a < 2 ^ 160) \<and>
     unat (pp_Nonce p) < 2 ^ 48 \<and>
     0 \<le> sint (pp_Deadline p) \<and> sint (pp_Deadline p) < 2 ^ 48 \<and>
     looksLikeAddress (pp_Token p) \<and> looksLikeAddress (pp_Spender p) \<and>
     looksLikeAddress (pp_Permit2Addr p)"
  by (simp only: build_permit2_guards decimalToBigInt_small_iff bitsForU64_le_iff unat_48_iff_sint conj_assoc)

section \<open>Properties\<close>

text \<open>
  The numbers a Permit2 message is signed over are the numbers of the parameters: the amount,
  expiration, nonce and signature deadline in the message are decimal texts that parse back to the
  parsed amount, the deadline (used for both expiration and signature deadline) and the nonce; the
  token, spender and verifying contract are the given ones, and the domain carries the name
  \<open>Permit2\<close>, no version and the chain id.
\<close>

theorem build_permit2_message:
  assumes "BuildPermit2TypedData p = Ok td"
  shows "\<exists>amount expiration nonce sigDeadline.
    td_PrimaryType td = ''PermitSingle'' \<and>
    td_Message td =
      [(''details'', TMap [(''token'', TStr (pp_Token p)), (''amount'', TStr amount),
                           (''expiration'', TStr expiration), (''nonce'', TStr nonce)]),
       (''spender'', TStr (pp_Spender p)), (''sigDeadline'', TStr sigDeadline)] \<and>
    setString 10 amount = setString 10 (trimSpace (pp_Amount p)) \<and>
    setString 10 expiration = Some (sint (pp_Deadline p)) \<and>
    setString 10 sigDeadline = Some (sint (pp_Deadline p)) \<and>
    setString 10 nonce = Some (uint (pp_Nonce p)) \<and>
    td_Domain td = \<lparr>dom_Name = ''Permit2'', dom_Version = [], dom_ChainId = Some (sint (pp_ChainID p)),
                    dom_VerifyingContract = pp_Permit2Addr p, dom_Salt = []\<rparr>"
  using assms
  by (auto simp: BuildPermit2TypedData_def io_ok decimalToBigInt_Ok_iff
      split: if_splits)

definition demo_params :: permit2_params where
  "demo_params =
    \<lparr>pp_Token = demo_address_text 1, pp_Spender = demo_address_text 2, pp_Amount = ''100'',
     pp_Nonce = 5, pp_Deadline = 1900000000, pp_ChainID = 8453, pp_Permit2Addr = demo_address_text 3\<rparr>"

lemma demo_looks [simp]: "looksLikeAddress (demo_address_text a)"
  using looksLikeAddress_text [OF demo_address_form_law, of a] by (simp add: demo_simps)

lemma demo_100: "setString 10 (trimSpace ''100'') = Some 100"
proof -
  have "trimSpace ''100'' = ''100''" by (rule trimSpace_all_plain) (simp add: plain_def code_def)
  then show ?thesis by (simp add: setString_def digitVal_def code_def)
qed

lemma demo_params_build: "\<exists>td. BuildPermit2TypedData demo_params = Ok td"
  unfolding build_permit2_ok_iff by (simp add: demo_params_def demo_100)

theorem build_permit2_message_witness:
  "\<exists>td. BuildPermit2TypedData demo_params = Ok td \<and> td_PrimaryType td = ''PermitSingle''"
proof -
  obtain td where td: "BuildPermit2TypedData demo_params = Ok td" using demo_params_build by blast
  from build_permit2_message [OF td] td show ?thesis by auto
qed

text \<open>
  \<open>BuildEIP3009TypedData\<close> puts into the message the recipient, sender and token it was given
  and the value it parsed, and accepts only well-formed addresses, a non-negative decimal value
  and a 32-byte nonce.
\<close>

theorem build_eip3009_message:
  assumes "BuildEIP3009TypedData p name version = Ok td"
  shows "looksLikeAddress (tp_Token p) \<and> looksLikeAddress (tp_From p) \<and> looksLikeAddress (tp_To p) \<and>
    dom_VerifyingContract (td_Domain td) = tp_Token p \<and>
    dom_Name (td_Domain td) = name \<and> dom_Version (td_Domain td) = version \<and>
    dom_ChainId (td_Domain td) = Some (sint (tp_ChainID p)) \<and>
    map_of (td_Message td) ''from'' = Some (TStr (tp_From p)) \<and>
    map_of (td_Message td) ''to'' = Some (TStr (tp_To p)) \<and>
    (\<exists>v. decimalToBigInt (tp_Value p) = Ok v \<and> 0 \<le> v \<and>
         map_of (td_Message td) ''value'' = Some (TStr (showInt v))) \<and>
    (\<exists>n. bytes32HexToBytes (tp_Nonce p) = Ok n \<and> length n = 32 \<and>
         map_of (td_Message td) ''nonce'' = Some (TBytes n))"
  using assms hexDecode_length
  by (fastforce simp: BuildEIP3009TypedData_def io_ok decimalToBigInt_Ok_iff bytes32HexToBytes_def
      split: if_splits)

definition demo_3009 :: eip3009_params where
  "demo_3009 =
    \<lparr>tp_Token = demo_address_text 1, tp_From = demo_address_text 2, tp_To = demo_address_text 3,
     tp_Value = showInt 7, tp_ValidAfter = 0, tp_ValidBefore = 100,
     tp_Nonce = ''0x'' @ hexEncode (replicate 32 1), tp_ChainID = 8453\<rparr>"

lemma demo_nonce: "bytes32HexToBytes (''0x'' @ hexEncode (replicate 32 1)) = Ok (replicate 32 1)"
  by (simp add: bytes32HexToBytes_def hasPrefix_def)

lemma demo_one: "trimSpace ''1'' = ''1''"
  by (rule trimSpace_all_plain) (simp add: plain_def code_def)

theorem build_eip3009_message_witness:
  "\<exists>td. BuildEIP3009TypedData demo_3009 ''1'' ''1'' = Ok td \<and>
        map_of (td_Message td) ''to'' = Some (TStr (demo_address_text 3))"
proof -
  obtain td where td: "BuildEIP3009TypedData demo_3009 ''1'' ''1'' = Ok td"
    using demo_nonce by (simp add: BuildEIP3009TypedData_def demo_3009_def demo_one)
  from build_eip3009_message [OF td] td show ?thesis by (auto simp: demo_3009_def)
qed

text \<open>
  C13: what \<open>SignTypedData\<close> signs, \<open>RecoverTypedDataSigner\<close> attributes to the signer: when the curve
  library signs recoverably, the signature text (\<open>0x\<close>, 130 hexadecimal digits, recovery byte 27
  or 28) recovers to the address of the signing key.
\<close>

theorem sign_recover_roundtrip:
  assumes law: "sign_recover_law E"
    and sign: "SignTypedData E key td = Ok sp"
    and priv: "toECDSA E key = Ok priv"
  shows "RecoverTypedDataSigner E td (sp_Signature sp) =
           Ok (addressHex E (pubkeyToAddress E (ek_PublicKey priv))) \<and>
         (\<exists>raw. sp_Signature sp = ''0x'' @ hexEncode raw \<and> length raw = 65 \<and> unat (raw ! 64) \<in> {27, 28})"
  by (rule SignTypedData_recovers [OF assms])

theorem sign_recover_roundtrip_witness:
  "\<exists>td sp. BuildPermit2TypedData demo_params = Ok td \<and>
     SignTypedData demo_lib (replicate 32 5) td = Ok sp \<and>
     RecoverTypedDataSigner demo_lib td (sp_Signature sp) =
       Ok (addressHex demo_lib (pubkeyToAddress demo_lib (beNat (replicate 32 5), 0)))"
proof -
  obtain td where td: "BuildPermit2TypedData demo_params = Ok td" using demo_params_build by blast
  have k: "toECDSA demo_lib (replicate 32 5) =
      Ok \<lparr>ek_PublicKey = (beNat (replicate 32 5), 0), ek_D = beNat (replicate 32 5)\<rparr>"
    by (simp add: demo_simps demo_key_def)
  have "\<exists>sp. SignTypedData demo_lib (replicate 32 5) td = Ok sp"
    unfolding SignTypedData_def k by (simp add: demo_simps Let_def)
  then obtain sp where sp: "SignTypedData demo_lib (replicate 32 5) td = Ok sp" ..
  from sign_recover_roundtrip [OF demo_sign_recover_law sp k] td sp show ?thesis by auto
qed

end
