(* ===== verification/Typing.thy ===== *)
theory Typing
  imports TypedData
begin

text \<open>
  Types for the typed data of \<open>src/eip712.go\<close>: what EIP-712 asks of a message, as an executable
  check, and which of the data that the three builders accept pass it.

  \<open>wtVal\<close> judges one value against a declared type, \<open>well_typed\<close> a whole typed data: the domain and
  the message against the structs declared for them. The check is a specification, written from the
  standard; it models no code. The builders of \<open>TypedData\<close> declare the structs and fill them, and
  the property says exactly when what they fill in fits what they declare.
\<close>

section \<open>The judgement\<close>

text \<open>The width of an unsigned integer type, and the declared type of a member.\<close>

definition uintBits :: "string \<Rightarrow> nat option" where
  "uintBits ty = (if hasPrefix ty ''uint'' then map_option nat (setString 10 (drop 4 ty)) else None)"

definition memberType :: "td_type list \<Rightarrow> string \<Rightarrow> string option" where
  "memberType ds n = map_of (map (\<lambda>d. (td_name d, td_type d)) ds) n"

text \<open>
  A text is a value of \<open>string\<close>, of \<open>address\<close> when it is \<open>0x\<close> and 40 hexadecimal digits, and of
  \<open>uintN\<close> when it is a decimal number of that range.
\<close>

definition wtText :: "string \<Rightarrow> string \<Rightarrow> bool" where
  "wtText ty s \<longleftrightarrow>
     ty = ''string'' \<or> ty = ''address'' \<and> looksLikeAddress s \<or>
     (case (uintBits ty, setString 10 s) of (Some n, Some i) \<Rightarrow> 0 \<le> i \<and> i < 2 ^ n | _ \<Rightarrow> False)"

text \<open>
  A struct value has exactly the declared members, each once and each of its declared type. The
  remaining constructors are those of no type the wallet declares.
\<close>

fun wtVal :: "(string \<times> td_type list) list \<Rightarrow> string \<Rightarrow> td_val \<Rightarrow> bool" where
  "wtVal T ty (TStr s) \<longleftrightarrow> wtText ty s"
| "wtVal T ty (TBytes b) \<longleftrightarrow> ty = ''bytes32'' \<and> length b = 32"
| "wtVal T ty (TMap ms) \<longleftrightarrow>
     (case map_of T ty of
        None \<Rightarrow> False
      | Some ds \<Rightarrow> distinct (map fst ms) \<and> set (map fst ms) = set (map td_name ds) \<and>
          (\<forall>(n, v)\<in>set ms. case memberType ds n of None \<Rightarrow> False | Some ty' \<Rightarrow> wtVal T ty' v))"
| "wtVal T ty _ \<longleftrightarrow> False"

text \<open>The members of a domain that are present, as the values of a struct.\<close>

definition domainMembers :: "td_domain \<Rightarrow> (string \<times> td_val) list" where
  "domainMembers d =
     (if dom_Name d = [] then [] else [(''name'', TStr (dom_Name d))]) @
     (if dom_Version d = [] then [] else [(''version'', TStr (dom_Version d))]) @
     (case dom_ChainId d of None \<Rightarrow> [] | Some c \<Rightarrow> [(''chainId'', TStr (showInt c))]) @
     (if dom_VerifyingContract d = [] then [] else [(''verifyingContract'', TStr (dom_VerifyingContract d))]) @
     (if dom_Salt d = [] then [] else [(''salt'', TStr (dom_Salt d))])"

definition well_typed :: "typed_data \<Rightarrow> bool" where
  "well_typed td \<longleftrightarrow>
     wtVal (td_Types td) ''EIP712Domain'' (TMap (domainMembers (td_Domain td))) \<and>
     wtVal (td_Types td) (td_PrimaryType td) (TMap (td_Message td))"

section \<open>Texts and the types of the wallet\<close>

lemma uintBits_simps [simp]:
  "uintBits ''uint48'' = Some 48" "uintBits ''uint160'' = Some 160" "uintBits ''uint256'' = Some 256"
  "uintBits ''string'' = None" "uintBits ''address'' = None"
  by (simp_all add: uintBits_def hasPrefix_def setString_def digitVal_def code_def)

lemma wtText_simps [simp]:
  "wtText ''string'' s" "wtText ''address'' s \<longleftrightarrow> looksLikeAddress s"
  "wtText ''uint48'' s \<longleftrightarrow> (\<exists>i. setString 10 s = Some i \<and> 0 \<le> i \<and> i < 2 ^ 48)"
  "wtText ''uint160'' s \<longleftrightarrow> (\<exists>i. setString 10 s = Some i \<and> 0 \<le> i \<and> i < 2 ^ 160)"
  "wtText ''uint256'' s \<longleftrightarrow> (\<exists>i. setString 10 s = Some i \<and> 0 \<le> i \<and> i < 2 ^ 256)"
  by (simp_all add: wtText_def split: option.split)

lemma address_nonempty: "looksLikeAddress s \<Longrightarrow> s \<noteq> []"
  by (auto simp: looksLikeAddress_def)

lemma word_numbers:
  "uint (n :: u64) < 2 ^ 256" "sint (d :: i64) < 2 ^ 256"
proof -
  have "uint n < 2 ^ 64" using uint_lt2p [of n] by simp
  then show "uint n < 2 ^ 256" by simp
  have "sint d < 2 ^ 63" using sint_lt [of d] by simp
  then show "sint d < 2 ^ 256" by simp
qed

text \<open>A struct whose members stand in the declared order is judged member by member.\<close>

lemma memberType_nth:
  assumes "distinct (map td_name ds)" "i < length ds"
  shows "memberType ds (td_name (ds ! i)) = Some (td_type (ds ! i))"
proof -
  have "distinct (map fst (map (\<lambda>d. (td_name d, td_type d)) ds))" using assms(1) by (simp add: comp_def)
  moreover have "(td_name (ds ! i), td_type (ds ! i)) \<in> set (map (\<lambda>d. (td_name d, td_type d)) ds)"
    using assms(2) by auto
  ultimately show ?thesis unfolding memberType_def by (rule map_of_is_SomeI)
qed

lemma wtVal_struct:
  assumes ds: "map_of T ty = Some ds" "distinct (map td_name ds)"
    and ms: "map fst ms = map td_name ds"
  shows "wtVal T ty (TMap ms) \<longleftrightarrow> list_all2 (\<lambda>d v. wtVal T (td_type d) v) ds (map snd ms)"
proof -
  have len: "length ms = length ds" using ms by (rule map_eq_imp_length_eq)
  have at: "memberType ds (fst (ms ! i)) = Some (td_type (ds ! i))" if "i < length ds" for i
  proof -
    have "fst (ms ! i) = td_name (ds ! i)" using arg_cong [OF ms, of "\<lambda>xs. xs ! i"] that len by simp
    then show ?thesis using memberType_nth [OF ds(2) that] by simp
  qed
  have "(\<forall>(n, v)\<in>set ms. case memberType ds n of None \<Rightarrow> False | Some ty' \<Rightarrow> wtVal T ty' v) \<longleftrightarrow>
      (\<forall>i<length ds. wtVal T (td_type (ds ! i)) (snd (ms ! i)))"
    using at len by (auto simp: all_set_conv_all_nth split_beta)
  then show ?thesis
    using ds ms len by (simp add: list_all2_conv_all_nth flip: set_map)
qed

text \<open>The message of each builder, judged member by member.\<close>

lemma permit2_well_typed:
  assumes "BuildPermit2TypedData p = Ok td"
  shows "well_typed td \<longleftrightarrow> 0 \<le> sint (pp_ChainID p)"
proof -
  from assms obtain a where td: "td_Types td = permit2_types" "td_PrimaryType td = ''PermitSingle''"
    "td_Domain td = \<lparr>dom_Name = ''Permit2'', dom_Version = [], dom_ChainId = Some (sint (pp_ChainID p)),
       dom_VerifyingContract = pp_Permit2Addr p, dom_Salt = []\<rparr>"
    "td_Message td =
       [(''details'', TMap [(''token'', TStr (pp_Token p)), (''amount'', TStr (showInt a)),
          (''expiration'', TStr (showI (pp_Deadline p))), (''nonce'', TStr (showU (pp_Nonce p)))]),
        (''spender'', TStr (pp_Spender p)), (''sigDeadline'', TStr (showI (pp_Deadline p)))]"
    and a: "0 \<le> a" "a < 2 ^ 160"
    by (auto simp: BuildPermit2TypedData_def io_ok decimalToBigInt_Ok_iff bitLen_le_iff
        permit2AmountMaxBits_def linorder_not_less split: if_splits)
  from assms have "\<exists>td. BuildPermit2TypedData p = Ok td" by blast
  then have ok: "looksLikeAddress (pp_Token p)" "looksLikeAddress (pp_Spender p)"
    "looksLikeAddress (pp_Permit2Addr p)" "0 \<le> sint (pp_Deadline p)" "sint (pp_Deadline p) < 2 ^ 48"
    and n: "unat (pp_Nonce p) < 2 ^ 48"
    unfolding build_permit2_ok_iff by blast+
  from ok(3) have pa: "pp_Permit2Addr p \<noteq> []" by (rule address_nonempty)
  from n have "int (unat (pp_Nonce p)) < int (2 ^ 48)" by (simp only: of_nat_less_iff)
  then have n: "uint (pp_Nonce p) < 2 ^ 48" by simp
  show ?thesis
    using pa ok a n word_numbers
    by (simp add: well_typed_def td domainMembers_def permit2_types_def wtVal_struct del: wtVal.simps(3))
qed

lemma blank_nonempty: "trimSpace s \<noteq> [] \<Longrightarrow> s \<noteq> []"
  by (auto simp: trimSpace_def)

lemma eip2612_well_typed:
  assumes "BuildEIP2612TypedData p name version = Ok td"
  shows "well_typed td \<longleftrightarrow> 0 \<le> sint (ep_ChainID p) \<and> 0 \<le> sint (ep_Deadline p)"
proof -
  from assms obtain v where
    msg: "td_Message td =
      [(''owner'', TStr (ep_Owner p)), (''spender'', TStr (ep_Spender p)), (''value'', TStr (showInt v)),
       (''nonce'', TStr (showU (ep_Nonce p))), (''deadline'', TStr (showI (ep_Deadline p)))]"
    and dom: "td_Domain td = \<lparr>dom_Name = name, dom_Version = version, dom_ChainId = Some (sint (ep_ChainID p)),
       dom_VerifyingContract = ep_Token p, dom_Salt = []\<rparr>"
    and types: "td_PrimaryType td = ''Permit''"
      "map_of (td_Types td) ''EIP712Domain'' = Some token_domain_types"
      "map_of (td_Types td) ''Permit'' = Some
        [\<lparr>td_name = ''owner'', td_type = ''address''\<rparr>, \<lparr>td_name = ''spender'', td_type = ''address''\<rparr>,
         \<lparr>td_name = ''value'', td_type = ''uint256''\<rparr>, \<lparr>td_name = ''nonce'', td_type = ''uint256''\<rparr>,
         \<lparr>td_name = ''deadline'', td_type = ''uint256''\<rparr>]"
    and v: "0 \<le> v" "v < 2 ^ 256"
    and addr: "looksLikeAddress (ep_Token p)" "looksLikeAddress (ep_Owner p)" "looksLikeAddress (ep_Spender p)"
    and named: "trimSpace name \<noteq> []" "trimSpace version \<noteq> []"
    by (auto simp: BuildEIP2612TypedData_def io_ok decimalToBigInt_Ok_iff bitLen_le_iff linorder_not_less
        split: if_splits)
  from addr(1) have "ep_Token p \<noteq> []" by (rule address_nonempty)
  then show ?thesis
    using addr v named [THEN blank_nonempty] word_numbers
    by (simp add: well_typed_def msg dom types domainMembers_def token_domain_types_def wtVal_struct
        del: wtVal.simps(3))
qed

lemma eip3009_well_typed:
  assumes "BuildEIP3009TypedData p name version = Ok td"
  shows "well_typed td \<longleftrightarrow>
    0 \<le> sint (tp_ChainID p) \<and> 0 \<le> sint (tp_ValidAfter p) \<and> 0 \<le> sint (tp_ValidBefore p) \<and>
    (\<exists>v. decimalToBigInt (tp_Value p) = Ok v \<and> v < 2 ^ 256)"
proof -
  from assms obtain v n where
    msg: "td_Message td =
      [(''from'', TStr (tp_From p)), (''to'', TStr (tp_To p)), (''value'', TStr (showInt v)),
       (''validAfter'', TStr (showI (tp_ValidAfter p))), (''validBefore'', TStr (showI (tp_ValidBefore p))),
       (''nonce'', TBytes n)]"
    and dom: "td_Domain td = \<lparr>dom_Name = name, dom_Version = version, dom_ChainId = Some (sint (tp_ChainID p)),
       dom_VerifyingContract = tp_Token p, dom_Salt = []\<rparr>"
    and types: "td_PrimaryType td = ''TransferWithAuthorization''"
      "map_of (td_Types td) ''EIP712Domain'' = Some token_domain_types"
      "map_of (td_Types td) ''TransferWithAuthorization'' = Some
        [\<lparr>td_name = ''from'', td_type = ''address''\<rparr>, \<lparr>td_name = ''to'', td_type = ''address''\<rparr>,
         \<lparr>td_name = ''value'', td_type = ''uint256''\<rparr>, \<lparr>td_name = ''validAfter'', td_type = ''uint256''\<rparr>,
         \<lparr>td_name = ''validBefore'', td_type = ''uint256''\<rparr>, \<lparr>td_name = ''nonce'', td_type = ''bytes32''\<rparr>]"
    and v: "decimalToBigInt (tp_Value p) = Ok v" "0 \<le> v"
    and n: "bytes32HexToBytes (tp_Nonce p) = Ok n"
    and addr: "looksLikeAddress (tp_Token p)" "looksLikeAddress (tp_From p)" "looksLikeAddress (tp_To p)"
    and named: "trimSpace name \<noteq> []" "trimSpace version \<noteq> []"
    by (auto simp: BuildEIP3009TypedData_def io_ok decimalToBigInt_Ok_iff split: if_splits)
  have "length n = 32" using n hexDecode_length by (fastforce simp: bytes32HexToBytes_def split: if_splits)
  moreover from addr(1) have "tp_Token p \<noteq> []" by (rule address_nonempty)
  ultimately show ?thesis
    using addr v named [THEN blank_nonempty] word_numbers
    by (simp add: well_typed_def msg dom types domainMembers_def token_domain_types_def wtVal_struct
        del: wtVal.simps(3)) blast
qed

section \<open>Properties\<close>

text \<open>
  C26: \<open>BuildPermit2TypedData\<close> accepts exactly amounts below \<open>2^160\<close>, nonces below \<open>2^48\<close>, deadlines
  from 0 to below \<open>2^48\<close> and three addresses of \<open>0x\<close> and 40 hexadecimal digits; and whatever the
  three builders accept is well typed for the structs it declares, apart from the signs
  they do not check and one range. A Permit2 message is well typed exactly when the chain id is not
  negative, an ERC-2612 message when neither the chain id nor the deadline is, and an EIP-3009
  message when none of chain id and validity bounds is and the value is below \<open>2^256\<close>: that last
  range is checked for an ERC-2612 value, and not for an EIP-3009 value.
\<close>

theorem builders_well_typed_iff:
  "((\<exists>t. BuildPermit2TypedData p = Ok t) \<longleftrightarrow>
      (\<exists>a. setString 10 (trimSpace (pp_Amount p)) = Some a \<and> 0 \<le> a \<and> a < 2 ^ 160) \<and>
      unat (pp_Nonce p) < 2 ^ 48 \<and> 0 \<le> sint (pp_Deadline p) \<and> sint (pp_Deadline p) < 2 ^ 48 \<and>
      looksLikeAddress (pp_Token p) \<and> looksLikeAddress (pp_Spender p) \<and> looksLikeAddress (pp_Permit2Addr p)) \<and>
   (BuildPermit2TypedData p = Ok td \<longrightarrow> (well_typed td \<longleftrightarrow> 0 \<le> sint (pp_ChainID p))) \<and>
   (BuildEIP2612TypedData q name version = Ok td \<longrightarrow>
      (well_typed td \<longleftrightarrow> 0 \<le> sint (ep_ChainID q) \<and> 0 \<le> sint (ep_Deadline q))) \<and>
   (BuildEIP3009TypedData r name version = Ok td \<longrightarrow>
      (well_typed td \<longleftrightarrow>
         0 \<le> sint (tp_ChainID r) \<and> 0 \<le> sint (tp_ValidAfter r) \<and> 0 \<le> sint (tp_ValidBefore r) \<and>
         (\<exists>v. decimalToBigInt (tp_Value r) = Ok v \<and> v < 2 ^ 256)))"
  by (intro conjI build_permit2_ok_iff)
    (use permit2_well_typed eip2612_well_typed eip3009_well_typed in blast)+

definition demo_2612 :: eip2612_params where
  "demo_2612 =
    \<lparr>ep_Token = demo_address_text 1, ep_Owner = demo_address_text 2, ep_Spender = demo_address_text 3,
     ep_Value = showInt 7, ep_Nonce = 0, ep_Deadline = - 1, ep_ChainID = 8453\<rparr>"

definition demo_oversized :: eip3009_params where
  "demo_oversized = demo_3009\<lparr>tp_Value := showInt (2 ^ 256)\<rparr>"

text \<open>
  One message of each kind: a Permit2 message that is well typed, an ERC-2612 message with a
  negative deadline and an EIP-3009 message for \<open>2^256\<close> atoms that are built and are not.
\<close>

theorem builders_well_typed_iff_witness:
  "(\<exists>td. BuildPermit2TypedData demo_params = Ok td \<and> well_typed td) \<and>
   (\<exists>td. BuildEIP2612TypedData demo_2612 ''1'' ''1'' = Ok td \<and> \<not> well_typed td) \<and>
   (\<exists>td. BuildEIP3009TypedData demo_3009 ''1'' ''1'' = Ok td \<and> well_typed td) \<and>
   (\<exists>td. BuildEIP3009TypedData demo_oversized ''1'' ''1'' = Ok td \<and> \<not> well_typed td)"
proof -
  obtain a where a: "BuildPermit2TypedData demo_params = Ok a" using demo_params_build by blast
  have "bitLen 7 \<le> 256" by (simp add: bitLen_le_iff)
  then obtain b where b: "BuildEIP2612TypedData demo_2612 ''1'' ''1'' = Ok b"
    by (simp add: BuildEIP2612TypedData_def demo_2612_def demo_one)
  obtain c where c: "BuildEIP3009TypedData demo_3009 ''1'' ''1'' = Ok c"
    using demo_nonce by (simp add: BuildEIP3009TypedData_def demo_3009_def demo_one)
  obtain d where d: "BuildEIP3009TypedData demo_oversized ''1'' ''1'' = Ok d"
    using demo_nonce by (simp add: BuildEIP3009TypedData_def demo_oversized_def demo_3009_def demo_one)
  show ?thesis
    using builders_well_typed_iff [of demo_params a]
      builders_well_typed_iff [of _ b demo_2612 "''1''" "''1''"]
      builders_well_typed_iff [of _ c _ "''1''" "''1''" demo_3009]
      builders_well_typed_iff [of _ d _ "''1''" "''1''" demo_oversized] a b c d
    by (simp add: demo_params_def demo_2612_def demo_oversized_def demo_3009_def)
qed

end
