(* ===== verification/Permit2.thy ===== *)
theory Permit2
  imports EthLib
begin

text \<open>
  \<open>src/permit2.go\<close>: the calldata codec of Uniswap's Permit2 contract. The package variables set
  by \<open>init\<close> (two selectors and two argument lists) are the record \<open>permit2_pkg\<close>; building an ABI
  type that the library rejects panics, as \<open>mustABIType\<close> does. ABI packing itself is the library
  function \<open>abiPack\<close>.
\<close>

definition CanonicalPermit2Address :: string where
  "CanonicalPermit2Address = ''0x000000000022D473030F116dDEE9F6B43aC78BA3''"

definition funcSelector :: "eth_lib \<Rightarrow> string \<Rightarrow> bytes" where
  "funcSelector E sig = take 4 (keccak256 E (stringBytes sig))"

definition mustABIType :: "eth_lib \<Rightarrow> string \<Rightarrow> (string \<times> abi_type) list \<Rightarrow> abi_type res" where
  "mustABIType E typeStr components =
     (case abiNewType E typeStr components of Ok t \<Rightarrow> Ok t | _ \<Rightarrow> Panic)"

record permit2_pkg =
  permit2SelectorPermit :: bytes
  permit2SelectorTransferFrom :: bytes
  permit2PermitArgs :: "(string \<times> abi_type) list"
  permit2TransferFromArgs :: "(string \<times> abi_type) list"

definition permit2_init :: "eth_lib \<Rightarrow> permit2_pkg res" where
  "permit2_init E =
     res_bind (mustABIType E ''address'' []) (\<lambda>addrT.
     res_bind (mustABIType E ''uint160'' []) (\<lambda>uint160T.
     res_bind (mustABIType E ''bytes'' []) (\<lambda>bytesT.
     res_bind (mustABIType E ''tuple''
        [(''details'', AbiType ''tuple''
            [(''token'', AbiType ''address'' []), (''amount'', AbiType ''uint160'' []),
             (''expiration'', AbiType ''uint48'' []), (''nonce'', AbiType ''uint48'' [])]),
         (''spender'', AbiType ''address'' []),
         (''sigDeadline'', AbiType ''uint256'' [])]) (\<lambda>permitSingleT.
     Ok \<lparr>permit2SelectorPermit =
           funcSelector E ''permit(address,((address,uint160,uint48,uint48),address,uint256),bytes)'',
         permit2SelectorTransferFrom = funcSelector E ''transferFrom(address,address,uint160,address)'',
         permit2PermitArgs = [(''owner'', addrT), (''permitSingle'', permitSingleT), (''signature'', bytesT)],
         permit2TransferFromArgs = [(''from'', addrT), (''to'', addrT), (''amount'', uint160T), (''token'', addrT)]\<rparr>))))"

record permit_args =
  pa_Owner :: string
  pa_Token :: string
  pa_Spender :: string
  pa_Amount :: "int option"
  pa_Expiration :: u64
  pa_Nonce :: u64
  pa_SigDeadline :: "int option"
  pa_Signature :: bytes

text \<open>\<open>x == nil || x.Sign() <= 0\<close>.\<close>

definition notPositive :: "int option \<Rightarrow> bool" where
  "notPositive x = (case x of None \<Rightarrow> True | Some i \<Rightarrow> i \<le> 0)"

definition permitSingleTuple :: "eth_lib \<Rightarrow> permit_args \<Rightarrow> abi_val" where
  "permitSingleTuple E args =
     AbiTuple
       [(''details'', AbiTuple
           [(''token'', AbiAddress (hexToAddress E (pa_Token args))),
            (''amount'', AbiBig (the (pa_Amount args))),
            (''expiration'', AbiBig (uint (pa_Expiration args))),
            (''nonce'', AbiBig (uint (pa_Nonce args)))]),
        (''spender'', AbiAddress (hexToAddress E (pa_Spender args))),
        (''sigDeadline'', AbiBig (the (pa_SigDeadline args)))]"

definition EncodePermitCall :: "eth_lib \<Rightarrow> permit_args \<Rightarrow> bytes res" where
  "EncodePermitCall E args =
     (if \<not> isHexAddress E (pa_Owner args) then Err (Errorf ''permit2: bad owner %q'' [pa_Owner args])
      else if \<not> isHexAddress E (pa_Token args) then Err (Errorf ''permit2: bad token %q'' [pa_Token args])
      else if \<not> isHexAddress E (pa_Spender args) then Err (Errorf ''permit2: bad spender %q'' [pa_Spender args])
      else if notPositive (pa_Amount args) then Err (Errorf ''permit2: amount must be > 0'' [])
      else if notPositive (pa_SigDeadline args) then Err (Errorf ''permit2: sigDeadline must be > 0'' [])
      else if length (pa_Signature args) \<noteq> 65 then
        Err (Errorf ''permit2: signature must be 65 bytes, got %d'' [showNat (length (pa_Signature args))])
      else
        res_bind (permit2_init E) (\<lambda>G.
        res_bind (res_wrap ''permit2: pack permit args: %w'' []
          (abiPack E (permit2PermitArgs G)
             [AbiAddress (hexToAddress E (pa_Owner args)), permitSingleTuple E args,
              AbiBytes (pa_Signature args)])) (\<lambda>packed.
        Ok (permit2SelectorPermit G @ packed))))"

record transfer_args =
  ta_From :: string
  ta_To :: string
  ta_Amount :: "int option"
  ta_Token :: string

definition EncodeTransferFromCall :: "eth_lib \<Rightarrow> transfer_args \<Rightarrow> bytes res" where
  "EncodeTransferFromCall E args =
     (if \<not> isHexAddress E (ta_From args) then Err (Errorf ''permit2: bad from %q'' [ta_From args])
      else if \<not> isHexAddress E (ta_To args) then Err (Errorf ''permit2: bad to %q'' [ta_To args])
      else if \<not> isHexAddress E (ta_Token args) then Err (Errorf ''permit2: bad token %q'' [ta_Token args])
      else if notPositive (ta_Amount args) then Err (Errorf ''permit2: amount must be > 0'' [])
      else
        res_bind (permit2_init E) (\<lambda>G.
        res_bind (res_wrap ''permit2: pack transferFrom args: %w'' []
          (abiPack E (permit2TransferFromArgs G)
             [AbiAddress (hexToAddress E (ta_From args)), AbiAddress (hexToAddress E (ta_To args)),
              AbiBig (the (ta_Amount args)), AbiAddress (hexToAddress E (ta_Token args))])) (\<lambda>packed.
        Ok (permit2SelectorTransferFrom G @ packed))))"

section \<open>Lemmas\<close>

lemma notPositive_iff: "\<not> notPositive x \<longleftrightarrow> (\<exists>i. x = Some i \<and> 0 < i)"
  by (auto simp: notPositive_def split: option.splits)

lemma permit2_init_Ok_iff:
  "permit2_init E = Ok G \<Longrightarrow>
     permit2SelectorPermit G =
       funcSelector E ''permit(address,((address,uint160,uint48,uint48),address,uint256),bytes)'' \<and>
     permit2SelectorTransferFrom G = funcSelector E ''transferFrom(address,address,uint160,address)''"
  by (auto simp: permit2_init_def io_ok)

lemma mustABIType_total:
  assumes "total_law E"
  obtains f where "\<And>n c. mustABIType E n c = Ok (f n c)"
proof -
  from assms have "\<forall>n c. \<exists>t. abiNewType E n c = Ok t" unfolding total_law_def by blast
  then obtain f where "\<forall>n c. abiNewType E n c = Ok (f n c)" by metis
  then show thesis by (intro that [of f]) (simp add: mustABIType_def)
qed

text \<open>With a library that accepts the types and never panics, \<open>init\<close> completes.\<close>

lemma permit2_init_total: "total_law E \<Longrightarrow> \<exists>G. permit2_init E = Ok G"
  by (erule mustABIType_total) (simp add: permit2_init_def)

section \<open>Properties\<close>

text \<open>
  C29: the calldata of \<open>Permit2.permit\<close> is the selector of
  \<open>permit(address,((address,uint160,uint48,uint48),address,uint256),bytes)\<close> followed by the ABI
  packing of the owner, the \<open>PermitSingle\<close> with exactly the given token, amount, expiration,
  nonce, spender and signature deadline, and the verbatim 65-byte signature; it is produced exactly
  for three well-formed addresses, a positive amount, a positive deadline and a signature of 65
  bytes that the library can pack.
\<close>

theorem encode_permit_call_layout:
  "EncodePermitCall E args = Ok data \<longleftrightarrow>
    isHexAddress E (pa_Owner args) \<and> isHexAddress E (pa_Token args) \<and>
    isHexAddress E (pa_Spender args) \<and> length (pa_Signature args) = 65 \<and>
    (\<exists>amount deadline G packed.
       pa_Amount args = Some amount \<and> 0 < amount \<and> pa_SigDeadline args = Some deadline \<and> 0 < deadline \<and>
       permit2_init E = Ok G \<and>
       data = funcSelector E ''permit(address,((address,uint160,uint48,uint48),address,uint256),bytes)'' @ packed \<and>
       abiPack E (permit2PermitArgs G)
         [AbiAddress (hexToAddress E (pa_Owner args)),
          AbiTuple [(''details'', AbiTuple
              [(''token'', AbiAddress (hexToAddress E (pa_Token args))), (''amount'', AbiBig amount),
               (''expiration'', AbiBig (uint (pa_Expiration args))), (''nonce'', AbiBig (uint (pa_Nonce args)))]),
            (''spender'', AbiAddress (hexToAddress E (pa_Spender args))), (''sigDeadline'', AbiBig deadline)],
          AbiBytes (pa_Signature args)] = Ok packed)" (is "_ \<longleftrightarrow> ?layout")
proof
  show "EncodePermitCall E args = Ok data \<Longrightarrow> ?layout"
    by (auto simp: EncodePermitCall_def io_ok permitSingleTuple_def notPositive_iff
        dest: permit2_init_Ok_iff split: if_splits)
  show "?layout \<Longrightarrow> EncodePermitCall E args = Ok data"
    by (auto simp: EncodePermitCall_def permitSingleTuple_def notPositive_def dest: permit2_init_Ok_iff)
qed

definition demo_permit_args :: permit_args where
  "demo_permit_args =
    \<lparr>pa_Owner = demo_address_text 1, pa_Token = demo_address_text 2, pa_Spender = demo_address_text 3,
     pa_Amount = Some 100, pa_Expiration = 1900000000, pa_Nonce = 5, pa_SigDeadline = Some 1900000000,
     pa_Signature = replicate 65 1\<rparr>"

lemma demo_isHexAddress [simp]: "isHexAddress demo_lib (demo_address_text a)"
  by (simp add: demo_simps)

lemma demo_hexToAddress [simp]: "hexToAddress demo_lib (demo_address_text a) = a"
  by (simp add: demo_simps)

lemma demo_encode_permit: "\<exists>data. EncodePermitCall demo_lib demo_permit_args = Ok data"
proof -
  obtain G where "permit2_init demo_lib = Ok G" using permit2_init_total [OF demo_total_law] ..
  moreover have "abiPack demo_lib a v = Ok (replicate (length v) 9)" for a v by (simp add: demo_simps)
  ultimately show ?thesis
    by (simp add: EncodePermitCall_def demo_permit_args_def notPositive_def)
qed

lemma encode_transfer_call_layout:
  assumes "EncodeTransferFromCall E args = Ok data"
  shows "isHexAddress E (ta_From args) \<and> isHexAddress E (ta_To args) \<and> isHexAddress E (ta_Token args) \<and>
    (\<exists>amount G packed.
       ta_Amount args = Some amount \<and> 0 < amount \<and> permit2_init E = Ok G \<and>
       data = funcSelector E ''transferFrom(address,address,uint160,address)'' @ packed \<and>
       abiPack E (permit2TransferFromArgs G)
         [AbiAddress (hexToAddress E (ta_From args)), AbiAddress (hexToAddress E (ta_To args)),
          AbiBig amount, AbiAddress (hexToAddress E (ta_Token args))] = Ok packed)"
  using assms
  by (auto simp: EncodeTransferFromCall_def io_ok notPositive_iff dest: permit2_init_Ok_iff split: if_splits)

end
