(* ===== verification/Rpc.thy ===== *)
theory Rpc
  imports EthLib
begin

text \<open>
  \<open>src/rpc.go\<close>: the \<open>BaseRPC\<close> port as a record of operations on a world \<open>'w\<close>, its
  \<open>ethclient\<close>-backed implementation, and \<open>WaitForReceipt\<close>, the polling loop that every broadcast
  goes through. The runtime the loop uses (the context's cancellation, the clock, a timer) is the
  record \<open>runtime\<close>.

  \<open>WaitForReceipt\<close> may run for ever when its clock stands still, so it is a partial function: not
  returning is \<open>None\<close>. \<open>waitLoop_returns\<close> shows that it returns when the calls return and waiting
  advances the clock.
\<close>

record 'w base_rpc =
  rpc_ChainID :: "('w, int option) io"
  rpc_BlockNumber :: "('w, u64) io"
  rpc_FilterLogs :: "filter_query \<Rightarrow> ('w, eth_log list) io"
  rpc_PendingNonceAt :: "address \<Rightarrow> ('w, u64) io"
  rpc_BalanceAt :: "address \<Rightarrow> ('w, int) io"
  rpc_SuggestGasTipCap :: "('w, int option) io"
  rpc_SuggestGasPrice :: "('w, int option) io"
  rpc_EstimateGas :: "call_msg \<Rightarrow> ('w, u64) io"
  rpc_SendTransaction :: "transaction \<Rightarrow> ('w, unit) io"
  rpc_TransactionReceipt :: "hash \<Rightarrow> ('w, receipt) io"
  rpc_CallContract :: "call_msg \<Rightarrow> int option \<Rightarrow> ('w, bytes) io"
  rpc_Close :: "('w, unit) io"

text \<open>The \<open>ethclient.Client\<close> methods \<open>RealBaseRPC\<close> forwards to, and the dialer.\<close>

record 'w eth_client =
  cl_ChainID :: "('w, int option) io"
  cl_BlockNumber :: "('w, u64) io"
  cl_FilterLogs :: "filter_query \<Rightarrow> ('w, eth_log list) io"
  cl_PendingNonceAt :: "address \<Rightarrow> ('w, u64) io"
  cl_BalanceAt :: "address \<Rightarrow> int option \<Rightarrow> ('w, int) io"
  cl_SuggestGasTipCap :: "('w, int option) io"
  cl_SuggestGasPrice :: "('w, int option) io"
  cl_EstimateGas :: "call_msg \<Rightarrow> ('w, u64) io"
  cl_SendTransaction :: "transaction \<Rightarrow> ('w, unit) io"
  cl_TransactionReceipt :: "hash \<Rightarrow> ('w, receipt) io"
  cl_CallContract :: "call_msg \<Rightarrow> int option \<Rightarrow> ('w, bytes) io"
  cl_Close :: "('w, unit) io"

definition RealBaseRPC :: "'w eth_client \<Rightarrow> 'w base_rpc" where
  "RealBaseRPC c =
    \<lparr>rpc_ChainID = cl_ChainID c, rpc_BlockNumber = cl_BlockNumber c,
     rpc_FilterLogs = cl_FilterLogs c, rpc_PendingNonceAt = cl_PendingNonceAt c,
     rpc_BalanceAt = (\<lambda>a. cl_BalanceAt c a None),
     rpc_SuggestGasTipCap = cl_SuggestGasTipCap c, rpc_SuggestGasPrice = cl_SuggestGasPrice c,
     rpc_EstimateGas = cl_EstimateGas c, rpc_SendTransaction = cl_SendTransaction c,
     rpc_TransactionReceipt = cl_TransactionReceipt c, rpc_CallContract = cl_CallContract c,
     rpc_Close = cl_Close c\<rparr>"

definition NewBaseRPC :: "(string \<Rightarrow> ('w, 'w eth_client) io) \<Rightarrow> string \<Rightarrow> ('w, 'w base_rpc) io" where
  "NewBaseRPC dial rpcURL =
     (if rpcURL = [] then fail (Errorf ''agentwallet rpc: empty url'' [])
      else io_bind (io_wrap ''agentwallet rpc: dial %s: %w'' [rpcURL] (dial rpcURL))
             (\<lambda>c. ret (RealBaseRPC c)))"

record 'w runtime =
  rt_ctx :: "('w, unit) io"          \<comment> \<open>\<open>ctx.Err()\<close> when the context is done\<close>
  rt_now :: "('w, int) io"           \<comment> \<open>\<open>time.Now()\<close>, nanoseconds\<close>
  rt_wait :: "int \<Rightarrow> ('w, unit) io"  \<comment> \<open>a timer of that length, or \<open>ctx.Err()\<close> when cancelled first\<close>

partial_function (option) waitLoop ::
  "eth_lib \<Rightarrow> 'w runtime \<Rightarrow> 'w base_rpc \<Rightarrow> hash \<Rightarrow> int \<Rightarrow> int \<Rightarrow> 'w \<Rightarrow> (receipt res \<times> 'w) option"
where
  "waitLoop E rt rpc h deadline pollInterval w =
     io_bind (rt_ctx rt) (\<lambda>_.
     io_try (rpc_TransactionReceipt rpc h)
       (\<lambda>err w1.
          if \<not> errIs err NotFound then
            fail (Wrap ''agentwallet rpc: receipt %s: %w'' [hashHex E h] err) w1
          else io_bind (rt_now rt) (\<lambda>now w2.
            if now > deadline then fail ErrReceiptTimeout w2
            else io_bind (rt_wait rt pollInterval)
                   (\<lambda>_. waitLoop E rt rpc h deadline pollInterval) w2) w1)
       ret) w"

definition second :: int where
  "second = 1000000000"

definition WaitForReceipt ::
  "eth_lib \<Rightarrow> 'w runtime \<Rightarrow> 'w base_rpc \<Rightarrow> hash \<Rightarrow> int \<Rightarrow> int \<Rightarrow> ('w, receipt) io" where
  "WaitForReceipt E rt rpc h timeout pollInterval0 =
     (let pollInterval = (if pollInterval0 \<le> 0 then 2 * second else pollInterval0) in
      io_bind (rt_now rt) (\<lambda>start. waitLoop E rt rpc h (start + timeout) pollInterval))"

section \<open>What the loop changes and returns\<close>

lemma waitLoop_moves:
  assumes pre: "preorder_rel R" and ctx: "moves R (rt_ctx rt)"
    and rcp: "moves R (rpc_TransactionReceipt rpc h)" and now: "moves R (rt_now rt)"
    and wait: "\<And>d. moves R (rt_wait rt d)"
  shows "moves R (waitLoop E rt rpc h deadline poll)"
proof (rule movesI)
  fix w r w'
  assume run: "waitLoop E rt rpc h deadline poll w = Some (r, w')"
  have "rt = rt \<longrightarrow> rpc = rpc \<longrightarrow> h = h \<longrightarrow> R w (snd (r, w'))"
  proof (rule waitLoop.raw_induct [where P = "\<lambda>E' rt' rpc' h' dl pl w p.
        rt' = rt \<longrightarrow> rpc' = rpc \<longrightarrow> h' = h \<longrightarrow> R w (snd p)", OF _ run], intro impI)
    fix f E' rt' rpc' h' dl pl u y
    assume IH: "\<And>E' rt' rpc' h' dl pl u y. f E' rt' rpc' h' dl pl u = Some y \<Longrightarrow>
        rt' = rt \<longrightarrow> rpc' = rpc \<longrightarrow> h' = h \<longrightarrow> R u (snd y)"
      and eqs: "rt' = rt" "rpc' = rpc" "h' = h"
      and body: "io_bind (rt_ctx rt') (\<lambda>_. io_try (rpc_TransactionReceipt rpc' h')
        (\<lambda>err w1. if \<not> errIs err NotFound then
            fail (Wrap ''agentwallet rpc: receipt %s: %w'' [hashHex E' h'] err) w1
          else io_bind (rt_now rt') (\<lambda>now w2. if now > dl then fail ErrReceiptTimeout w2
            else io_bind (rt_wait rt' pl) (\<lambda>_. f E' rt' rpc' h' dl pl) w2) w1) ret) u = Some y"
    have f: "moves R (f E' rt rpc h dl pl)"
      by (rule movesI) (use IH in force)
    have "moves R (io_bind (rt_ctx rt) (\<lambda>_. io_try (rpc_TransactionReceipt rpc h)
        (\<lambda>err w1. if \<not> errIs err NotFound then
            fail (Wrap ''agentwallet rpc: receipt %s: %w'' [hashHex E' h] err) w1
          else io_bind (rt_now rt) (\<lambda>now w2. if now > dl then fail ErrReceiptTimeout w2
            else io_bind (rt_wait rt pl) (\<lambda>_. f E' rt rpc h dl pl) w2) w1) ret))"
      by (intro moves_intros pre ctx rcp now wait f)
    with body eqs show "R u (snd y)"
      by (cases y) (auto dest: movesD)
  qed
  then show "R w w'" by simp
qed

lemma WaitForReceipt_moves [moves_intros]:
  assumes "preorder_rel R" and "moves R (rt_ctx rt)"
    and "moves R (rpc_TransactionReceipt rpc h)" and "moves R (rt_now rt)"
    and "\<And>d. moves R (rt_wait rt d)"
  shows "moves R (WaitForReceipt E rt rpc h timeout poll)"
  unfolding WaitForReceipt_def Let_def
  by (intro moves_intros waitLoop_moves assms)

text \<open>A receipt the loop returns was returned by a \<open>TransactionReceipt\<close> call for the same hash.\<close>

lemma waitLoop_Ok:
  "waitLoop E rt rpc h deadline poll w = Some (Ok r, w') \<Longrightarrow>
     \<exists>u. rpc_TransactionReceipt rpc h u = Some (Ok r, w')"
proof -
  assume run: "waitLoop E rt rpc h deadline poll w = Some (Ok r, w')"
  have "fst (Ok r, w') = Ok r \<longrightarrow> (\<exists>u. rpc_TransactionReceipt rpc h u = Some (Ok r, snd (Ok r, w')))"
  proof (rule waitLoop.raw_induct [where P = "\<lambda>E rt rpc h dl pl w p.
        fst p = Ok r \<longrightarrow> (\<exists>u. rpc_TransactionReceipt rpc h u = Some (Ok r, snd p))", OF _ run])
  qed (auto simp: io_bind_Some_iff io_try_Some_iff split: if_splits; force)
  then show ?thesis by simp
qed

lemma WaitForReceipt_Ok:
  "WaitForReceipt E rt rpc h timeout poll w = Some (Ok r, w') \<Longrightarrow>
     \<exists>u. rpc_TransactionReceipt rpc h u = Some (Ok r, w')"
  unfolding WaitForReceipt_def Let_def by (auto simp: io_ok dest: waitLoop_Ok)

text \<open>The errors of the loop: the timeout, an error of the context, or one the node gave.\<close>

definition loop_error :: "eth_lib \<Rightarrow> 'w runtime \<Rightarrow> hash \<Rightarrow> int \<Rightarrow> error \<Rightarrow> bool" where
  "loop_error E rt h deadline e \<longleftrightarrow>
     (e = ErrReceiptTimeout \<and> (\<exists>now u v. rt_now rt u = Some (Ok now, v) \<and> deadline < now)) \<or>
     (\<exists>err. e = Wrap ''agentwallet rpc: receipt %s: %w'' [hashHex E h] err \<and> \<not> errIs err NotFound) \<or>
     (\<exists>u v. rt_ctx rt u = Some (Err e, v)) \<or> (\<exists>d u v. rt_wait rt d u = Some (Err e, v)) \<or>
     (\<exists>u v. rt_now rt u = Some (Err e, v))"

lemma waitLoop_Err:
  assumes run: "waitLoop E rt rpc h deadline poll w = Some (Err e, w')"
  shows "loop_error E rt h deadline e"
proof -
  have "fst (Err e :: receipt res, w') = Err e \<longrightarrow> loop_error E rt h deadline e"
  proof (rule waitLoop.raw_induct [where P = "\<lambda>E rt rpc h dl pl w p.
        fst p = Err e \<longrightarrow> loop_error E rt h dl e", OF _ run])
    show "fst y = Err e \<longrightarrow> loop_error E rt h dl e"
      if IH: "\<And>E rt rpc h dl pl w y. f E rt rpc h dl pl w = Some y \<Longrightarrow>
            fst y = Err e \<longrightarrow> loop_error E rt h dl e"
        and body: "io_bind (rt_ctx rt) (\<lambda>_. io_try (rpc_TransactionReceipt rpc h)
          (\<lambda>err w1. if \<not> errIs err NotFound then
              fail (Wrap ''agentwallet rpc: receipt %s: %w'' [hashHex E h] err) w1
            else io_bind (rt_now rt) (\<lambda>now w2. if now > dl then fail ErrReceiptTimeout w2
              else io_bind (rt_wait rt pl) (\<lambda>_. f E rt rpc h dl pl) w2) w1) ret) u = Some y"
      for f E and rt :: "'a runtime" and rpc h dl pl u y
    proof (cases y)
      case (Pair r v)
      show ?thesis
        using body IH [of E rt rpc h dl pl]
        unfolding Pair io_bind_Some_iff io_try_Some_iff
        by (auto simp: loop_error_def io_bind_Some_iff split: if_splits; force)
    qed
  qed
  then show ?thesis by simp
qed

section \<open>The loop returns\<close>

text \<open>
  What the loop relies on to return: its calls come back, no call moves the clock backwards, the
  reading of \<open>time.Now\<close> is the clock, and a timer that fires has let its duration pass.
\<close>

definition clock_law :: "('w \<Rightarrow> int) \<Rightarrow> 'w runtime \<Rightarrow> 'w base_rpc \<Rightarrow> bool" where
  "clock_law clock rt rpc \<longleftrightarrow>
     returns (rt_ctx rt) \<and> returns (rt_now rt) \<and> (\<forall>d. returns (rt_wait rt d)) \<and>
     (\<forall>h. returns (rpc_TransactionReceipt rpc h)) \<and>
     moves (\<lambda>w w'. clock w \<le> clock w') (rt_ctx rt) \<and>
     (\<forall>h. moves (\<lambda>w w'. clock w \<le> clock w') (rpc_TransactionReceipt rpc h)) \<and>
     (\<forall>w r w'. rt_now rt w = Some (r, w') \<longrightarrow> clock w \<le> clock w' \<and> r = Ok (clock w')) \<and>
     (\<forall>d w u w'. rt_wait rt d w = Some (Ok u, w') \<longrightarrow> clock w + d \<le> clock w')"

lemma waitLoop_returns:
  assumes law: "clock_law clock rt rpc" and poll: "0 < poll"
  shows "\<exists>r w'. waitLoop E rt rpc h deadline poll w = Some (r, w')"
proof (induction "nat (deadline + 1 - clock w)" arbitrary: w rule: less_induct)
  case less
  note L = law [unfolded clock_law_def]
  from L obtain c w1 where ctx: "rt_ctx rt w = Some (c, w1)" and c1: "clock w \<le> clock w1"
    using returnsD movesD by metis
  from L obtain q w2 where rcp: "rpc_TransactionReceipt rpc h w1 = Some (q, w2)"
    and c2: "clock w1 \<le> clock w2"
    using returnsD movesD by metis
  from L obtain n w3 where now: "rt_now rt w2 = Some (n, w3)"
    using returnsD by metis
  with L have n: "n = Ok (clock w3)" and c3: "clock w2 \<le> clock w3" by blast+
  from L obtain d w4 where wait: "rt_wait rt poll w3 = Some (d, w4)"
    using returnsD by metis
  have again: "\<exists>r w'. waitLoop E rt rpc h deadline poll w4 = Some (r, w')"
    if "d = Ok ()" "clock w3 \<le> deadline"
  proof (rule less)
    from L wait that have "clock w3 + poll \<le> clock w4" by blast
    with c1 c2 c3 poll that show "nat (deadline + 1 - clock w4) < nat (deadline + 1 - clock w)"
      by linarith
  qed
  show ?case
    using again
    by (cases c; cases q; cases d)
      (simp_all add: waitLoop.simps [of E rt rpc h deadline poll w] io_eval ctx rcp now n wait)
qed

lemma WaitForReceipt_returns:
  assumes law: "clock_law clock rt rpc"
  shows "returns (WaitForReceipt E rt rpc h timeout poll)"
proof -
  have "returns (rt_now rt)" using law by (simp add: clock_law_def)
  moreover have "returns (waitLoop E rt rpc h dl p)" if "0 < p" for dl p
    using waitLoop_returns [OF law that] unfolding returns_def by (metis option.distinct(1))
  ultimately show ?thesis
    unfolding WaitForReceipt_def Let_def
    by (intro returns_intros) (auto simp: second_def)
qed

text \<open>C25: \<open>WaitForReceipt\<close> always comes back, whatever receipt the node may or may not have, for
  every timeout and every poll interval (zero and negative ones included, which the code replaces
  by two seconds), as long as its calls come back and waiting lets the time pass. What it returns is
  a receipt that \<open>TransactionReceipt\<close> gave for this hash, or an error: the timeout sentinel after
  a clock reading past the deadline, the wrapped error of a node call that is not NotFound, or the
  error of the context.\<close>

theorem wait_for_receipt_returns:
  assumes "clock_law clock rt rpc"
  shows "\<exists>r w'. WaitForReceipt E rt rpc h timeout poll w = Some (r, w') \<and>
           (\<forall>rc. r = Ok rc \<longrightarrow> (\<exists>u. rpc_TransactionReceipt rpc h u = Some (Ok rc, w'))) \<and>
           (\<forall>e. r = Err e \<longrightarrow>
              (\<exists>start u. rt_now rt w = Some (Ok start, u) \<and> loop_error E rt h (start + timeout) e))"
proof -
  obtain r w' where run: "WaitForReceipt E rt rpc h timeout poll w = Some (r, w')"
    using returnsD [OF WaitForReceipt_returns [OF assms]] by blast
  have now: "\<exists>start u. rt_now rt w = Some (Ok start, u)"
    using assms unfolding clock_law_def by (metis returnsD)
  have "\<exists>start u. rt_now rt w = Some (Ok start, u) \<and> loop_error E rt h (start + timeout) e"
    if "r = Err e" for e
    using run now that unfolding WaitForReceipt_def Let_def
    by (auto simp: io_bind_Some_iff dest: waitLoop_Err)
  moreover have "\<exists>u. rpc_TransactionReceipt rpc h u = Some (Ok rc, w')" if "r = Ok rc" for rc
    using run that WaitForReceipt_Ok by metis
  ultimately show ?thesis
    using run by (intro exI [of _ r] exI [of _ w']) simp
qed

text \<open>A node that knows no receipt before second 5, on a world that is only a clock.\<close>

definition clock_runtime :: "int runtime" where
  "clock_runtime = \<lparr>rt_ctx = ret (), rt_now = (\<lambda>w. Some (Ok w, w)), rt_wait = (\<lambda>d w. Some (Ok (), w + d))\<rparr>"

definition late_rpc :: "int base_rpc" where
  "late_rpc =
    \<lparr>rpc_ChainID = fail NotFound, rpc_BlockNumber = ret 0, rpc_FilterLogs = (\<lambda>_. ret []),
     rpc_PendingNonceAt = (\<lambda>_. ret 0), rpc_BalanceAt = (\<lambda>_. ret 0), rpc_SuggestGasTipCap = ret None,
     rpc_SuggestGasPrice = ret None, rpc_EstimateGas = (\<lambda>_. ret 0), rpc_SendTransaction = (\<lambda>_. ret ()),
     rpc_TransactionReceipt =
       (\<lambda>h w. if w < 5 * second then fail NotFound w else ret \<lparr>rc_Status = 1\<rparr> w),
     rpc_CallContract = (\<lambda>_ _. ret []), rpc_Close = ret ()\<rparr>"

lemma late_clock_law: "clock_law id clock_runtime late_rpc"
  by (auto simp: clock_law_def clock_runtime_def late_rpc_def returns_def moves_def ret_def fail_def)

theorem wait_for_receipt_returns_witness:
  "\<exists>r w'. WaitForReceipt demo_lib clock_runtime late_rpc 7 (10 * second) 0 0 = Some (r, w') \<and>
     (\<forall>rc. r = Ok rc \<longrightarrow> (\<exists>u. rpc_TransactionReceipt late_rpc 7 u = Some (Ok rc, w')))"
  using wait_for_receipt_returns [OF late_clock_law, of demo_lib 7 "10 * second" 0 0] by blast

lemma late_receipt_found:
  "WaitForReceipt demo_lib clock_runtime late_rpc 7 (10 * second) 0 0 =
     Some (Ok \<lparr>rc_Status = 1\<rparr>, 6 * second)"
proof -
  have step: "waitLoop demo_lib clock_runtime late_rpc 7 dl pl w =
      (if 5 * second \<le> w then Some (Ok \<lparr>rc_Status = 1\<rparr>, w)
       else if dl < w then Some (Err ErrReceiptTimeout, w)
       else waitLoop demo_lib clock_runtime late_rpc 7 dl pl (w + pl))" for dl pl w
    by (subst waitLoop.simps)
      (simp add: clock_runtime_def late_rpc_def io_bind_def io_try_def ret_def fail_def)
  have "rt_now clock_runtime 0 = Some (Ok 0, 0)" by (simp add: clock_runtime_def)
  then show ?thesis
    by (simp add: WaitForReceipt_def io_bind_eval step second_def)
qed

end
