(* ===== verification/Store.thy ===== *)
theory Store
  imports GoBig
begin

text \<open>
  \<open>src/store.go\<close>: the cached Permit2 authorizations. \<open>MemoryStore\<close> keeps a slice of rows behind a
  mutex, so each operation is one atomic function on the list of rows. A row is identified by
  owner, agent, token (up to letter case) and nonce.

  The locale \<open>row_store\<close> and its extension \<open>authorization_store\<close> state the contract of the
  \<open>AuthorizationStore\<close> port over an abstract map from identities to rows, and prove what its
  clients rely on; the interpretations \<open>ms\<close> show that \<open>MemoryStore\<close> fulfils it.
\<close>

record authorization =
  au_Owner :: string
  au_Agent :: string
  au_Token :: string
  au_AmountAtoms :: string
  au_Expiration :: i64
  au_Nonce :: i64
  au_SignatureHex :: string
  au_SpentAtoms :: string
  au_Revoked :: bool
  au_OnchainLocked :: bool
  au_CreatedAtUnix :: i64

definition orZero :: "string \<Rightarrow> string" where
  "orZero s = (if trimSpace s = [] then ''0'' else s)"

text \<open>\<open>Authorization.spent\<close>: an unreadable total counts as zero here.\<close>

definition spent :: "authorization \<Rightarrow> int" where
  "spent a = (case setString 10 (orZero (au_SpentAtoms a)) of None \<Rightarrow> 0 | Some v \<Rightarrow> v)"

definition idMatch :: "authorization \<Rightarrow> string \<Rightarrow> string \<Rightarrow> string \<Rightarrow> i64 \<Rightarrow> bool" where
  "idMatch a owner agent token nonce \<longleftrightarrow>
     equalFold (au_Owner a) owner \<and> equalFold (au_Agent a) agent \<and>
     equalFold (au_Token a) token \<and> au_Nonce a = nonce"

section \<open>MemoryStore\<close>

type_synonym rows = "authorization list"

definition NewMemoryStore :: rows where
  "NewMemoryStore = []"

text \<open>The row that replaces an existing one: its accumulated spend and, unless given, its time.\<close>

definition refreshed :: "authorization \<Rightarrow> authorization \<Rightarrow> authorization" where
  "refreshed old a = a\<lparr>au_SpentAtoms := orZero (au_SpentAtoms old),
     au_CreatedAtUnix := (if au_CreatedAtUnix a = 0 then au_CreatedAtUnix old else au_CreatedAtUnix a)\<rparr>"

fun upsertLoop :: "authorization \<Rightarrow> rows \<Rightarrow> rows option" where
  "upsertLoop a [] = None"
| "upsertLoop a (r # rs) =
     (if idMatch r (au_Owner a) (au_Agent a) (au_Token a) (au_Nonce a) then Some (refreshed r a # rs)
      else map_option (Cons r) (upsertLoop a rs))"

definition ms_Upsert :: "authorization \<Rightarrow> rows \<Rightarrow> bool \<times> rows" where
  "ms_Upsert a rows =
     (case upsertLoop a rows of
        Some rows' \<Rightarrow> (True, rows')
      | None \<Rightarrow> (False, rows @ [if au_SpentAtoms a = [] then a\<lparr>au_SpentAtoms := ''0''\<rparr> else a]))"

definition hasSignature :: "authorization \<Rightarrow> bool" where
  "hasSignature r \<longleftrightarrow> trimSpace (au_SignatureHex r) \<noteq> []"

text \<open>The order of \<open>sort.SliceStable\<close> with \<open>CreatedAtUnix\<close> descending.\<close>

definition recency :: "authorization \<Rightarrow> int" where
  "recency r = - sint (au_CreatedAtUnix r)"

definition pickActive :: "(authorization \<Rightarrow> bool) \<Rightarrow> bool \<Rightarrow> rows \<Rightarrow> authorization res" where
  "pickActive pred requireSig rows =
     (let cands = filter (\<lambda>r. \<not> (au_Revoked r \<or> au_OnchainLocked r) \<and> pred r) rows in
      if cands = [] then Err ErrNoAuthorization
      else
        let sorted = sort_key recency cands in
        if requireSig then
          (case find hasSignature sorted of
             Some c \<Rightarrow> Ok c
           | None \<Rightarrow> Err ErrAuthorizationMissingSignature)
        else Ok (hd sorted))"

definition ms_ActiveForAgent :: "string \<Rightarrow> i64 \<Rightarrow> rows \<Rightarrow> authorization res" where
  "ms_ActiveForAgent agent now rows =
     pickActive (\<lambda>r. equalFold (au_Agent r) agent \<and> sint (au_Expiration r) > sint now) True rows"

definition ms_ActiveForOwner :: "string \<Rightarrow> string \<Rightarrow> i64 \<Rightarrow> rows \<Rightarrow> authorization res" where
  "ms_ActiveForOwner owner token now rows =
     pickActive (\<lambda>r. equalFold (au_Owner r) owner \<and> equalFold (au_Token r) token \<and>
                     sint (au_Expiration r) > sint now) False rows"

text \<open>
  \<open>BumpSpent\<close> ignores the \<open>ok\<close> of parsing the stored total: an unreadable total is a nil pointer
  that \<open>Add\<close> dereferences, a panic.
\<close>

fun bumpLoop :: "string \<Rightarrow> string \<Rightarrow> string \<Rightarrow> i64 \<Rightarrow> int \<Rightarrow> rows \<Rightarrow> rows res" where
  "bumpLoop owner agent token nonce add [] = Err ErrNoAuthorization"
| "bumpLoop owner agent token nonce add (r # rs) =
     (if idMatch r owner agent token nonce then
        (case setString 10 (orZero (au_SpentAtoms r)) of
           None \<Rightarrow> Panic
         | Some cur \<Rightarrow> Ok (r\<lparr>au_SpentAtoms := showInt (cur + add)\<rparr> # rs))
      else res_bind (bumpLoop owner agent token nonce add rs) (\<lambda>rs'. Ok (r # rs')))"

definition ms_BumpSpent :: "string \<Rightarrow> string \<Rightarrow> string \<Rightarrow> i64 \<Rightarrow> string \<Rightarrow> rows \<Rightarrow> rows res" where
  "ms_BumpSpent owner agent token nonce addAtoms rows =
     (case setString 10 (trimSpace addAtoms) of
        None \<Rightarrow> Err (Errorf ''agentwallet store: bad addAtoms'' [])
      | Some add \<Rightarrow> bumpLoop owner agent token nonce add rows)"

definition ms_MarkLocked :: "string \<Rightarrow> string \<Rightarrow> string \<Rightarrow> rows \<Rightarrow> rows" where
  "ms_MarkLocked owner agent token rows =
     map (\<lambda>r. if equalFold (au_Owner r) owner \<and> equalFold (au_Agent r) agent \<and>
                 equalFold (au_Token r) token
              then r\<lparr>au_OnchainLocked := True\<rparr> else r) rows"

section \<open>The abstract store\<close>

type_synonym row_id = "string \<times> string \<times> string \<times> i64"

definition mkId :: "string \<Rightarrow> string \<Rightarrow> string \<Rightarrow> i64 \<Rightarrow> row_id" where
  "mkId owner agent token nonce = (toLower owner, toLower agent, toLower token, nonce)"

definition rowId :: "authorization \<Rightarrow> row_id" where
  "rowId a = mkId (au_Owner a) (au_Agent a) (au_Token a) (au_Nonce a)"

definition lookupRow :: "rows \<Rightarrow> row_id \<Rightarrow> authorization option" where
  "lookupRow rows i = find (\<lambda>r. rowId r = i) rows"

text \<open>A total that \<open>BumpSpent\<close> can read.\<close>

definition readable :: "authorization \<Rightarrow> bool" where
  "readable a \<longleftrightarrow> setString 10 (orZero (au_SpentAtoms a)) \<noteq> None"

definition store_wf :: "rows \<Rightarrow> bool" where
  "store_wf rows \<longleftrightarrow> distinct (map rowId rows) \<and> (\<forall>r\<in>set rows. readable r)"

definition upserted :: "authorization option \<Rightarrow> authorization \<Rightarrow> authorization" where
  "upserted old a =
     (case old of
        None \<Rightarrow> if au_SpentAtoms a = [] then a\<lparr>au_SpentAtoms := ''0''\<rparr> else a
      | Some r \<Rightarrow> refreshed r a)"

definition bumped :: "authorization \<Rightarrow> int \<Rightarrow> authorization" where
  "bumped r d = r\<lparr>au_SpentAtoms := showInt (spent r + d)\<rparr>"

definition lockedBy :: "string \<Rightarrow> string \<Rightarrow> string \<Rightarrow> authorization \<Rightarrow> authorization" where
  "lockedBy owner agent token r =
     (if equalFold (au_Owner r) owner \<and> equalFold (au_Agent r) agent \<and> equalFold (au_Token r) token
      then r\<lparr>au_OnchainLocked := True\<rparr> else r)"

text \<open>The rows a spend may use.\<close>

definition usable :: "i64 \<Rightarrow> authorization \<Rightarrow> bool" where
  "usable now r \<longleftrightarrow> \<not> au_Revoked r \<and> \<not> au_OnchainLocked r \<and> sint (au_Expiration r) > sint now"

text \<open>The rows as a finite map, with the three operations that write them.\<close>

locale row_store =
  fixes upsert :: "authorization \<Rightarrow> 's \<Rightarrow> bool \<times> 's"
    and bumpSpent :: "string \<Rightarrow> string \<Rightarrow> string \<Rightarrow> i64 \<Rightarrow> string \<Rightarrow> 's \<Rightarrow> 's res"
    and markLocked :: "string \<Rightarrow> string \<Rightarrow> string \<Rightarrow> 's \<Rightarrow> 's"
    and row :: "'s \<Rightarrow> row_id \<Rightarrow> authorization option"
    and wf :: "'s \<Rightarrow> bool"
  assumes row_rowId: "wf s \<Longrightarrow> row s i = Some r \<Longrightarrow> rowId r = i \<and> readable r"
    and upsert_law: "wf s \<Longrightarrow> readable a \<Longrightarrow> upsert a s = (existed, s') \<Longrightarrow>
      wf s' \<and> existed = (row s (rowId a) \<noteq> None) \<and>
      row s' = (row s)(rowId a \<mapsto> upserted (row s (rowId a)) a)"
    and bump_law: "wf s \<Longrightarrow> row s (mkId owner agent token nonce) = Some r \<Longrightarrow>
      setString 10 (trimSpace add) = Some d \<Longrightarrow>
      \<exists>s'. bumpSpent owner agent token nonce add s = Ok s' \<and> wf s' \<and>
        row s' = (row s)(mkId owner agent token nonce \<mapsto> bumped r d)"
    and bump_missing: "wf s \<Longrightarrow> row s (mkId owner agent token nonce) = None \<Longrightarrow>
      setString 10 (trimSpace add) = Some d \<Longrightarrow>
      bumpSpent owner agent token nonce add s = Err ErrNoAuthorization"
    and lock_law: "wf s \<Longrightarrow> wf (markLocked owner agent token s) \<and>
      row (markLocked owner agent token s) i = map_option (lockedBy owner agent token) (row s i)"
begin

lemma spent_bumped: "spent (bumped r d) = spent r + d"
  using showInt_nonempty by (simp add: spent_def bumped_def orZero_def)

text \<open>Re-caching an authorization never loses what was already spent under it.\<close>

lemma upsert_keeps_spent:
  assumes "wf s" and "readable a" and "upsert a s = (existed, s')" and "row s (rowId a) = Some r"
  shows "\<exists>r'. row s' (rowId a) = Some r' \<and> spent r' = spent r"
proof -
  have "orZero (orZero x) = orZero x" for x by (simp add: orZero_def)
  then have "spent (refreshed r a) = spent r" by (simp add: spent_def refreshed_def)
  with upsert_law [OF assms(1,2,3)] assms(4) show ?thesis by (simp add: upserted_def)
qed

end

text \<open>The port adds the choice of the row to spend from.\<close>

locale authorization_store = row_store upsert bumpSpent markLocked row wf
  for upsert :: "authorization \<Rightarrow> 's \<Rightarrow> bool \<times> 's"
    and bumpSpent :: "string \<Rightarrow> string \<Rightarrow> string \<Rightarrow> i64 \<Rightarrow> string \<Rightarrow> 's \<Rightarrow> 's res"
    and markLocked :: "string \<Rightarrow> string \<Rightarrow> string \<Rightarrow> 's \<Rightarrow> 's"
    and row :: "'s \<Rightarrow> row_id \<Rightarrow> authorization option"
    and wf :: "'s \<Rightarrow> bool" +
  fixes activeForAgent :: "string \<Rightarrow> i64 \<Rightarrow> 's \<Rightarrow> authorization res"
  assumes active_sound: "wf s \<Longrightarrow> activeForAgent agent now s = Ok r \<Longrightarrow>
      row s (rowId r) = Some r \<and> equalFold (au_Agent r) agent \<and> usable now r \<and> hasSignature r"
    and active_recent: "wf s \<Longrightarrow> activeForAgent agent now s = Ok r \<Longrightarrow>
      row s i = Some q \<Longrightarrow> equalFold (au_Agent q) agent \<Longrightarrow> usable now q \<Longrightarrow> hasSignature q \<Longrightarrow>
      sint (au_CreatedAtUnix q) \<le> sint (au_CreatedAtUnix r)"
    and active_complete: "wf s \<Longrightarrow> row s i = Some q \<Longrightarrow> equalFold (au_Agent q) agent \<Longrightarrow>
      usable now q \<Longrightarrow> hasSignature q \<Longrightarrow> \<exists>r. activeForAgent agent now s = Ok r"
begin

text \<open>Identities are matched up to letter case, so a row found for an agent can be bumped by it.\<close>

lemma bump_active:
  assumes "wf s" and act: "activeForAgent agent now s = Ok r"
    and add: "setString 10 (trimSpace add) = Some d"
  shows "\<exists>s'. bumpSpent (au_Owner r) agent (au_Token r) (au_Nonce r) add s = Ok s' \<and> wf s' \<and>
    row s' = (row s)(rowId r \<mapsto> bumped r d)"
proof -
  from active_sound [OF assms(1) act] have r: "row s (rowId r) = Some r"
    and "equalFold (au_Agent r) agent" by auto
  then have "mkId (au_Owner r) agent (au_Token r) (au_Nonce r) = rowId r"
    by (simp add: rowId_def mkId_def equalFold_def)
  with bump_law [OF assms(1) _ add, of "au_Owner r" agent "au_Token r" "au_Nonce r" r] r
  show ?thesis by simp
qed

text \<open>A spend within the allowance keeps the recorded total within the allowance.\<close>

lemma bump_within_allowance:
  assumes "wf s" and "activeForAgent agent now s = Ok r"
    and "setString 10 (trimSpace add) = Some d" and "spent r + d \<le> allowance"
    and "bumpSpent (au_Owner r) agent (au_Token r) (au_Nonce r) add s = Ok s'"
  shows "\<exists>r'. row s' (rowId r) = Some r' \<and> spent r' = spent r + d \<and> spent r' \<le> allowance \<and>
    (\<forall>i. i \<noteq> rowId r \<longrightarrow> row s' i = row s i)"
  using bump_active [OF assms(1,2,3)] assms(4,5) spent_bumped by auto

text \<open>A freshly cached signed authorization makes its agent able to spend.\<close>

lemma upsert_active:
  assumes "wf s" and "readable a" and "upsert a s = (existed, s')"
    and "usable now a" and "hasSignature a"
  shows "\<exists>r. activeForAgent (au_Agent a) now s' = Ok r"
proof -
  let ?a = "upserted (row s (rowId a)) a"
  have a: "usable now ?a" "hasSignature ?a" "au_Agent ?a = au_Agent a"
    using assms(4,5)
    by (simp_all add: upserted_def refreshed_def usable_def hasSignature_def split: option.split)
  from upsert_law [OF assms(1,2,3)] have "wf s'" and "row s' (rowId a) = Some ?a"
    by simp_all
  from active_complete [OF this, of "au_Agent a" now] a show ?thesis by simp
qed

text \<open>After a lockdown no row of the locked triple is ever picked.\<close>

lemma locked_never_active:
  assumes "wf s" and "activeForAgent g now (markLocked owner agent token s) = Ok r"
  shows "\<not> (equalFold (au_Owner r) owner \<and> equalFold (au_Agent r) agent \<and> equalFold (au_Token r) token)"
proof -
  let ?s = "markLocked owner agent token s"
  have "wf ?s" using lock_law [OF assms(1)] by simp
  from active_sound [OF this assms(2)] have "row ?s (rowId r) = Some r" and u: "usable now r" by auto
  then obtain q where q: "lockedBy owner agent token q = r" using lock_law [OF assms(1)] by auto
  then show ?thesis using u by (auto simp: lockedBy_def usable_def split: if_splits)
qed

end

section \<open>MemoryStore fulfils the contract\<close>

lemma idMatch_iff: "idMatch r owner agent token nonce \<longleftrightarrow> rowId r = mkId owner agent token nonce"
  by (auto simp: idMatch_def rowId_def mkId_def equalFold_def)

lemma rowId_refreshed [simp]: "rowId (refreshed r a) = rowId a"
  by (simp add: rowId_def refreshed_def)

lemma rowId_upserted [simp]: "rowId (upserted old a) = rowId a"
  by (auto simp: upserted_def rowId_def refreshed_def split: option.split)

lemma rowId_bumped [simp]: "rowId (bumped r d) = rowId r"
  by (simp add: rowId_def bumped_def)

lemma rowId_lockedBy [simp]: "rowId (lockedBy ow ag tk r) = rowId r"
  by (simp add: rowId_def lockedBy_def)

lemma orZero_idem [simp]: "orZero (orZero x) = orZero x"
  by (simp add: orZero_def)

lemma readable_refreshed [simp]: "readable (refreshed r a) = readable r"
  by (simp add: readable_def refreshed_def)

lemma setString_zero [simp]: "setString 10 ''0'' = Some 0"
  by (simp add: setString_def digitVal_def code_def)

lemma orZero_Nil: "orZero [] = ''0''"
  by (simp add: orZero_def)

lemma orZero_zero [simp]: "orZero ''0'' = ''0''"
  by (simp add: orZero_def)

lemma readable_upserted:
  "readable a \<Longrightarrow> (\<forall>r. old = Some r \<longrightarrow> readable r) \<Longrightarrow> readable (upserted old a)"
  by (auto simp: upserted_def split: option.split) (simp add: readable_def orZero_Nil)

lemma readable_bumped [simp]: "readable (bumped r d)"
  using showInt_nonempty by (simp add: readable_def bumped_def orZero_def)

lemma readable_lockedBy [simp]: "readable (lockedBy ow ag tk r) = readable r"
  by (simp add: readable_def lockedBy_def)

lemma lookupRow_Cons [simp]:
  "lookupRow (r # rs) i = (if rowId r = i then Some r else lookupRow rs i)"
  by (simp add: lookupRow_def)

lemma lookupRow_Nil [simp]: "lookupRow [] i = None"
  by (simp add: lookupRow_def)

lemma lookupRow_None_iff: "lookupRow rows i = None \<longleftrightarrow> i \<notin> rowId ` set rows"
  by (auto simp: lookupRow_def find_None_iff)

lemma lookupRow_append:
  "lookupRow (rs @ qs) i = (case lookupRow rs i of Some r \<Rightarrow> Some r | None \<Rightarrow> lookupRow qs i)"
  by (induction rs) (auto split: option.split)

lemma lookupRow_Some: "lookupRow rows i = Some r \<Longrightarrow> r \<in> set rows \<and> rowId r = i"
  by (auto simp: lookupRow_def find_Some_iff)

lemma lookupRow_mem:
  assumes "distinct (map rowId rows)" and "r \<in> set rows"
  shows "lookupRow rows (rowId r) = Some r"
  using assms
proof (induction rows)
  case Nil
  then show ?case by simp
next
  case (Cons q rows)
  then show ?case by (auto simp: rev_image_eqI)
qed

lemma upsertLoop_None: "upsertLoop a rows = None \<longleftrightarrow> lookupRow rows (rowId a) = None"
  by (induction rows) (auto simp: idMatch_iff rowId_def [of a])

lemma upsertLoop_Some:
  "upsertLoop a rows = Some rows' \<Longrightarrow>
     \<exists>xs r ys. rows = xs @ r # ys \<and> rowId r = rowId a \<and> rowId a \<notin> rowId ` set xs \<and>
       rows' = xs @ refreshed r a # ys"
proof (induction rows arbitrary: rows')
  case Nil
  then show ?case by simp
next
  case (Cons q rows)
  show ?case
  proof (cases "rowId q = rowId a")
    case True
    with Cons.prems have "rows' = refreshed q a # rows" by (simp add: idMatch_iff rowId_def [of a])
    with True show ?thesis by (intro exI [of _ "[]"]) auto
  next
    case False
    with Cons.prems obtain rs where rs: "upsertLoop a rows = Some rs" "rows' = q # rs"
      by (auto simp: idMatch_iff rowId_def [of a])
    from Cons.IH [OF rs(1)] obtain xs r ys where
      "rows = xs @ r # ys" "rowId r = rowId a" "rowId a \<notin> rowId ` set xs" "rs = xs @ refreshed r a # ys"
      by blast
    with rs(2) False show ?thesis by (intro exI [of _ "q # xs"] exI [of _ r] exI [of _ ys]) auto
  qed
qed

lemma ms_Upsert_law:
  assumes "store_wf rows" and "readable a" and "ms_Upsert a rows = (existed, rows')"
  shows "store_wf rows' \<and> existed = (lookupRow rows (rowId a) \<noteq> None) \<and>
    lookupRow rows' = (lookupRow rows)(rowId a \<mapsto> upserted (lookupRow rows (rowId a)) a)"
proof (cases "upsertLoop a rows")
  case None
  then have fresh: "lookupRow rows (rowId a) = None" by (simp add: upsertLoop_None)
  have r': "rows' = rows @ [upserted None a]" and "existed = False"
    using assms(3) None by (auto simp: ms_Upsert_def upserted_def)
  moreover have "store_wf rows'"
    using assms(1,2) fresh readable_upserted [of a None]
    by (auto simp: r' store_wf_def lookupRow_None_iff)
  ultimately show ?thesis
    using fresh by (auto simp: lookupRow_append intro!: ext split: option.split)
next
  case (Some rs)
  then obtain xs r ys where split: "rows = xs @ r # ys" "rowId r = rowId a" "rowId a \<notin> rowId ` set xs"
      "rs = xs @ refreshed r a # ys"
    using upsertLoop_Some by blast
  from split(3) have xs: "lookupRow xs (rowId a) = None" by (simp add: lookupRow_None_iff)
  have r': "rows' = rs" "existed = True" using assms(3) Some by (auto simp: ms_Upsert_def)
  have old: "lookupRow rows (rowId a) = Some r" using split xs by (simp add: lookupRow_append)
  have "store_wf rows'" using assms(1) split by (auto simp: store_wf_def r')
  moreover have "lookupRow rows' = (lookupRow rows)(rowId a \<mapsto> refreshed r a)"
    using split xs by (auto simp: r' lookupRow_append intro!: ext split: option.split)
  ultimately show ?thesis by (simp add: r' old upserted_def)
qed

lemma bumpLoop_missing:
  "lookupRow rows (mkId ow ag tk n) = None \<Longrightarrow> bumpLoop ow ag tk n d rows = Err ErrNoAuthorization"
  by (induction rows) (auto simp: idMatch_iff split: if_splits)

lemma bumpLoop_law:
  assumes "\<forall>r\<in>set rows. readable r" and "lookupRow rows (mkId ow ag tk n) = Some r"
  shows "\<exists>rows'. bumpLoop ow ag tk n d rows = Ok rows' \<and> map rowId rows' = map rowId rows \<and>
    (\<forall>q\<in>set rows'. readable q) \<and>
    lookupRow rows' = (lookupRow rows)(mkId ow ag tk n \<mapsto> bumped r d)"
  using assms
proof (induction rows)
  case Nil
  then show ?case by simp
next
  case (Cons q rows)
  show ?case
  proof (cases "rowId q = mkId ow ag tk n")
    case True
    with Cons.prems have q: "q = r" "readable r" by auto
    then obtain cur where "setString 10 (orZero (au_SpentAtoms r)) = Some cur"
      by (auto simp: readable_def)
    moreover from this have "bumped r d = r\<lparr>au_SpentAtoms := showInt (cur + d)\<rparr>"
      by (simp add: bumped_def spent_def)
    ultimately show ?thesis
      using True q Cons.prems readable_bumped [of r d] rowId_bumped [of r d]
      by (auto simp: idMatch_iff intro!: ext)
  next
    case False
    with Cons.prems have "\<forall>r\<in>set rows. readable r" and "lookupRow rows (mkId ow ag tk n) = Some r"
      by auto
    from Cons.IH [OF this] obtain rs where rs: "bumpLoop ow ag tk n d rows = Ok rs"
      "map rowId rs = map rowId rows" "\<forall>q\<in>set rs. readable q"
      "lookupRow rs = (lookupRow rows)(mkId ow ag tk n \<mapsto> bumped r d)" by blast
    with False Cons.prems show ?thesis by (auto simp: idMatch_iff intro!: ext)
  qed
qed

lemma ms_BumpSpent_law:
  assumes "store_wf rows" and "lookupRow rows (mkId ow ag tk n) = Some r"
    and "setString 10 (trimSpace add) = Some d"
  shows "\<exists>rows'. ms_BumpSpent ow ag tk n add rows = Ok rows' \<and> store_wf rows' \<and>
    lookupRow rows' = (lookupRow rows)(mkId ow ag tk n \<mapsto> bumped r d)"
  using bumpLoop_law [of rows ow ag tk n r d] assms
  by (auto simp: store_wf_def ms_BumpSpent_def)

lemma ms_MarkLocked_map: "ms_MarkLocked ow ag tk rows = map (lockedBy ow ag tk) rows"
  by (simp add: ms_MarkLocked_def lockedBy_def cong: map_cong)

lemma ms_MarkLocked_law:
  assumes "store_wf rows"
  shows "store_wf (ms_MarkLocked ow ag tk rows) \<and>
    lookupRow (ms_MarkLocked ow ag tk rows) i = map_option (lockedBy ow ag tk) (lookupRow rows i)"
proof -
  have "lookupRow (map (lockedBy ow ag tk) rows) i = map_option (lockedBy ow ag tk) (lookupRow rows i)"
    by (induction rows) auto
  then show ?thesis
    using assms by (simp add: ms_MarkLocked_map store_wf_def o_def)
qed

section \<open>Picking the most recent candidate\<close>

lemma find_Some_filter: "find P xs = Some c \<longleftrightarrow> (\<exists>t. filter P xs = c # t)"
  by (induction xs) auto

lemma find_sort_key:
  fixes f :: "'a \<Rightarrow> int"
  assumes "find P (sort_key f xs) = Some c"
  shows "c \<in> set xs \<and> P c \<and> (\<forall>x\<in>set xs. P x \<longrightarrow> f c \<le> f x) \<and>
    find (\<lambda>x. P x \<and> f x = f c) xs = Some c"
proof -
  from assms obtain t where "filter P (sort_key f xs) = c # t" by (auto simp: find_Some_filter)
  then have t: "sort_key f (filter P xs) = c # t" by (simp add: filter_sort)
  from t have "set (c # t) = set (filter P xs)" by (metis set_sort)
  moreover have "sorted (map f (c # t))" unfolding t [symmetric] by simp
  ultimately have min: "c \<in> set xs" "P c" "\<forall>x\<in>set xs. P x \<longrightarrow> f c \<le> f x" by auto
  have "filter (\<lambda>x. f x = f c) (filter P xs) = filter (\<lambda>x. f x = f c) (c # t)"
    using sort_key_stable [of f "f c" "filter P xs"] t by simp
  then have "find (\<lambda>x. P x \<and> f x = f c) xs = Some c"
    by (auto simp: find_Some_filter filter_filter conj_commute)
  with min show ?thesis by simp
qed

lemma pickActive_sig_Ok:
  assumes "pickActive pred True rows = Ok c"
  shows "c \<in> set rows \<and> pred c \<and> \<not> au_Revoked c \<and> \<not> au_OnchainLocked c \<and> hasSignature c \<and>
    (\<forall>q\<in>set rows. pred q \<longrightarrow> \<not> au_Revoked q \<longrightarrow> \<not> au_OnchainLocked q \<longrightarrow> hasSignature q \<longrightarrow>
       sint (au_CreatedAtUnix q) \<le> sint (au_CreatedAtUnix c))"
proof -
  from assms have "find hasSignature (sort_key recency
      (filter (\<lambda>r. \<not> (au_Revoked r \<or> au_OnchainLocked r) \<and> pred r) rows)) = Some c"
    by (auto simp: pickActive_def Let_def split: if_splits option.splits)
  from find_sort_key [OF this] show ?thesis by (auto simp: recency_def)
qed

lemma pickActive_sig_cases:
  "pickActive pred True rows =
     (let cands = filter (\<lambda>r. \<not> (au_Revoked r \<or> au_OnchainLocked r) \<and> pred r) rows in
      if cands = [] then Err ErrNoAuthorization
      else if filter hasSignature cands = [] then Err ErrAuthorizationMissingSignature
      else Ok (the (find hasSignature (sort_key recency cands))))"
proof -
  let ?c = "filter (\<lambda>r. \<not> (au_Revoked r \<or> au_OnchainLocked r) \<and> pred r) rows"
  have "find hasSignature (sort_key recency ?c) = None \<longleftrightarrow> filter hasSignature ?c = []"
    by (auto simp: find_None_iff filter_empty_conv)
  then show ?thesis
    by (auto simp: pickActive_def Let_def split: option.split)
qed

lemma ms_Active_sound:
  assumes "store_wf rows" and "ms_ActiveForAgent agent now rows = Ok r"
  shows "lookupRow rows (rowId r) = Some r \<and> equalFold (au_Agent r) agent \<and> usable now r \<and> hasSignature r"
  using pickActive_sig_Ok [OF assms(2) [unfolded ms_ActiveForAgent_def]] assms(1)
  by (auto simp: usable_def store_wf_def intro: lookupRow_mem)

interpretation ms: row_store ms_Upsert ms_BumpSpent ms_MarkLocked lookupRow store_wf
proof
  fix rows i r
  assume "store_wf rows" and "lookupRow rows i = Some r"
  then show "rowId r = i \<and> readable r" by (auto simp: store_wf_def dest: lookupRow_Some)
next
  fix rows a existed rows'
  assume "store_wf rows" and "readable a" and "ms_Upsert a rows = (existed, rows')"
  then show "store_wf rows' \<and> existed = (lookupRow rows (rowId a) \<noteq> None) \<and>
      lookupRow rows' = (lookupRow rows)(rowId a \<mapsto> upserted (lookupRow rows (rowId a)) a)"
    by (rule ms_Upsert_law)
next
  fix rows ow ag tk n r add d
  assume "store_wf rows" and "lookupRow rows (mkId ow ag tk n) = Some r"
    and "setString 10 (trimSpace add) = Some d"
  then show "\<exists>rows'. ms_BumpSpent ow ag tk n add rows = Ok rows' \<and> store_wf rows' \<and>
      lookupRow rows' = (lookupRow rows)(mkId ow ag tk n \<mapsto> bumped r d)"
    by (rule ms_BumpSpent_law)
next
  fix rows ow ag tk n add d
  assume "lookupRow rows (mkId ow ag tk n) = None" and "setString 10 (trimSpace add) = Some d"
  then show "ms_BumpSpent ow ag tk n add rows = Err ErrNoAuthorization"
    by (simp add: ms_BumpSpent_def bumpLoop_missing)
next
  fix rows ow ag tk i
  assume "store_wf rows"
  then show "store_wf (ms_MarkLocked ow ag tk rows) \<and>
      lookupRow (ms_MarkLocked ow ag tk rows) i = map_option (lockedBy ow ag tk) (lookupRow rows i)"
    by (rule ms_MarkLocked_law)
qed

interpretation ms: authorization_store ms_Upsert ms_BumpSpent ms_MarkLocked lookupRow store_wf ms_ActiveForAgent
proof
  fix rows agent now r
  assume "store_wf rows" and "ms_ActiveForAgent agent now rows = Ok r"
  then show "lookupRow rows (rowId r) = Some r \<and> equalFold (au_Agent r) agent \<and> usable now r \<and> hasSignature r"
    by (rule ms_Active_sound)
next
  fix rows agent now r i q
  assume "ms_ActiveForAgent agent now rows = Ok r" and "lookupRow rows i = Some q"
    and "equalFold (au_Agent q) agent" and "usable now q" and "hasSignature q"
  then show "sint (au_CreatedAtUnix q) \<le> sint (au_CreatedAtUnix r)"
    using pickActive_sig_Ok [of _ rows r] lookupRow_Some [of rows i q]
    unfolding ms_ActiveForAgent_def usable_def by blast
next
  fix rows i q agent now
  assume "lookupRow rows i = Some q" and "equalFold (au_Agent q) agent" and "usable now q" and "hasSignature q"
  then show "\<exists>r. ms_ActiveForAgent agent now rows = Ok r"
    using lookupRow_Some [of rows i q]
    by (auto simp: ms_ActiveForAgent_def pickActive_sig_cases Let_def usable_def filter_empty_conv)
qed

section \<open>Reachable stores\<close>

text \<open>
  The stores that sequences of operations lead to from an empty one, \<open>P\<close> being what the callers of
  \<open>Upsert\<close> see to of the rows they give; \<open>MemoryStore\<close> itself checks nothing of them.
\<close>

inductive store_step :: "(authorization \<Rightarrow> bool) \<Rightarrow> rows \<Rightarrow> rows \<Rightarrow> bool" for P where
  step_upsert: "P a \<Longrightarrow> ms_Upsert a s = (existed, s') \<Longrightarrow> store_step P s s'"
| step_bump: "ms_BumpSpent owner agent token nonce add s = Ok s' \<Longrightarrow> store_step P s s'"
| step_lock: "store_step P s (ms_MarkLocked owner agent token s)"

inductive store_reach :: "(authorization \<Rightarrow> bool) \<Rightarrow> rows \<Rightarrow> bool" for P where
  reach_empty: "store_reach P NewMemoryStore"
| reach_step: "store_reach P s \<Longrightarrow> store_step P s s' \<Longrightarrow> store_reach P s'"

lemma ms_BumpSpent_cases:
  assumes "store_wf s"
  shows "(setString 10 (trimSpace add) = None \<and>
            ms_BumpSpent owner agent token nonce add s = Err (Errorf ''agentwallet store: bad addAtoms'' [])) \<or>
         (lookupRow s (mkId owner agent token nonce) = None \<and>
            ms_BumpSpent owner agent token nonce add s = Err ErrNoAuthorization) \<or>
         (\<exists>d r s'. setString 10 (trimSpace add) = Some d \<and>
            lookupRow s (mkId owner agent token nonce) = Some r \<and>
            ms_BumpSpent owner agent token nonce add s = Ok s' \<and> store_wf s' \<and>
            lookupRow s' = (lookupRow s)(mkId owner agent token nonce \<mapsto> bumped r d))"
proof (cases "setString 10 (trimSpace add)")
  case None
  then show ?thesis by (simp add: ms_BumpSpent_def)
next
  case (Some d)
  then show ?thesis
    using ms.bump_law [OF assms _ Some] ms.bump_missing [OF assms _ Some]
    by (cases "lookupRow s (mkId owner agent token nonce)") fastforce+
qed

lemma store_step_wf: "store_step P s s' \<Longrightarrow> (\<And>a. P a \<Longrightarrow> readable a) \<Longrightarrow> store_wf s \<Longrightarrow> store_wf s'"
proof (induction rule: store_step.induct)
  case (step_upsert a s existed s')
  then show ?case using ms.upsert_law by blast
next
  case (step_bump owner agent token nonce add s s')
  then show ?case using ms_BumpSpent_cases [of s add owner agent token nonce] by auto
next
  case (step_lock s owner agent token)
  then show ?case using ms.lock_law by blast
qed

lemma store_reach_wf: "store_reach P s \<Longrightarrow> (\<And>a. P a \<Longrightarrow> readable a) \<Longrightarrow> store_wf s"
proof (induction rule: store_reach.induct)
  case reach_empty
  show ?case by (simp add: NewMemoryStore_def store_wf_def)
next
  case (reach_step s s')
  then show ?case by (blast intro: store_step_wf)
qed

text \<open>Identities stay distinct whatever the rows are.\<close>

lemma bumpLoop_rowIds: "bumpLoop ow ag tk n d rows = Ok rows' \<Longrightarrow> map rowId rows' = map rowId rows"
  by (induction rows arbitrary: rows') (auto simp: rowId_def io_ok split: if_splits option.splits)

lemma ms_Upsert_distinct:
  assumes "distinct (map rowId rows)" and "ms_Upsert a rows = (existed, rows')"
  shows "distinct (map rowId rows')"
proof (cases "upsertLoop a rows")
  case None
  then have "rows' = rows @ [upserted None a]" and "rowId a \<notin> rowId ` set rows"
    using assms(2) upsertLoop_None [of a rows] by (auto simp: ms_Upsert_def upserted_def lookupRow_None_iff)
  then show ?thesis using assms(1) by auto
next
  case (Some rs)
  with assms show ?thesis by (auto simp: ms_Upsert_def dest!: upsertLoop_Some)
qed

lemma store_reach_distinct: "store_reach P s \<Longrightarrow> distinct (map rowId s)"
proof (induction rule: store_reach.induct)
  case reach_empty
  show ?case by (simp add: NewMemoryStore_def)
next
  case (reach_step s s')
  from reach_step.hyps(2) show ?case
  proof cases
    case (step_upsert a existed)
    with reach_step.IH show ?thesis by (blast intro: ms_Upsert_distinct)
  next
    case (step_bump ow ag tk n add)
    with reach_step.IH show ?thesis
      by (auto simp: ms_BumpSpent_def bumpLoop_rowIds split: option.splits)
  next
    case (step_lock ow ag tk)
    with reach_step.IH show ?thesis by (simp add: ms_MarkLocked_map o_def)
  qed
qed

text \<open>The unchecked parse: the first matching row decides.\<close>

lemma bumpLoop_Panic_iff:
  "bumpLoop ow ag tk n d rows = Panic \<longleftrightarrow> (\<exists>r. lookupRow rows (mkId ow ag tk n) = Some r \<and> \<not> readable r)"
proof (induction rows)
  case (Cons r rows)
  then show ?case
    by (cases "bumpLoop ow ag tk n d rows") (auto simp: idMatch_iff readable_def split: option.splits)
qed simp

section \<open>Properties\<close>

text \<open>
  C16: in every store that any sequence of \<open>Upsert\<close>, \<open>BumpSpent\<close> and \<open>MarkLocked\<close> reaches from an empty
  one, whatever rows are cached, no two rows have the same identity (owner, agent and token up to
  letter case, and nonce), and \<open>BumpSpent\<close> panics exactly when the number it is given parses and the
  row it finds has a recorded total that does not, the nil number of the unchecked parse. \<open>Upsert\<close>
  is the only way such a row gets in: where all cached rows have a readable total (as those of the
  authorizer and the listener, which are empty) every total stays readable and \<open>BumpSpent\<close> never
  panics.
\<close>

theorem bump_panics_exactly_on_unreadable_total:
  assumes "store_reach P rows"
  shows "distinct (map rowId rows) \<and>
    (ms_BumpSpent owner agent token nonce add rows = Panic \<longleftrightarrow>
       setString 10 (trimSpace add) \<noteq> None \<and>
       (\<exists>r. lookupRow rows (mkId owner agent token nonce) = Some r \<and>
          setString 10 (orZero (au_SpentAtoms r)) = None)) \<and>
    ((\<forall>a. P a \<longrightarrow> readable a) \<longrightarrow>
       (\<forall>r\<in>set rows. readable r) \<and> ms_BumpSpent owner agent token nonce add rows \<noteq> Panic)"
proof (intro conjI impI)
  show "distinct (map rowId rows)" by (rule store_reach_distinct [OF assms])
  show "ms_BumpSpent owner agent token nonce add rows = Panic \<longleftrightarrow>
       setString 10 (trimSpace add) \<noteq> None \<and>
       (\<exists>r. lookupRow rows (mkId owner agent token nonce) = Some r \<and>
          setString 10 (orZero (au_SpentAtoms r)) = None)"
    by (auto simp: ms_BumpSpent_def bumpLoop_Panic_iff readable_def split: option.split)
next
  assume "\<forall>a. P a \<longrightarrow> readable a"
  with assms have wf: "store_wf rows" by (blast intro: store_reach_wf)
  then show "\<forall>r\<in>set rows. readable r" by (simp add: store_wf_def)
  show "ms_BumpSpent owner agent token nonce add rows \<noteq> Panic"
    using ms_BumpSpent_cases [OF wf, of add owner agent token nonce] by auto
qed

definition demo_row :: authorization where
  "demo_row =
    \<lparr>au_Owner = ''0xA'', au_Agent = ''0xb'', au_Token = ''0xc'', au_AmountAtoms = ''100'',
     au_Expiration = 2000, au_Nonce = 5, au_SignatureHex = ''0x1'', au_SpentAtoms = [],
     au_Revoked = False, au_OnchainLocked = False, au_CreatedAtUnix = 7\<rparr>"

lemma demo_row_readable: "readable demo_row"
  by (simp add: readable_def demo_row_def orZero_Nil)

lemma demo_row_signed: "hasSignature demo_row"
proof -
  have "trimSpace ''0x1'' = ''0x1''" by (rule trimSpace_all_plain) (simp add: plain_def code_def)
  then show ?thesis by (simp add: hasSignature_def demo_row_def)
qed

lemma demo_row_usable: "usable 1000 demo_row"
  by (simp add: usable_def demo_row_def)

definition demo_store :: rows where
  "demo_store = snd (ms_Upsert demo_row NewMemoryStore)"

lemma store_reach_first: "P a \<Longrightarrow> store_reach P (snd (ms_Upsert a NewMemoryStore))"
  by (metis reach_empty reach_step step_upsert prod.collapse)

lemma demo_store_reach: "store_reach readable demo_store"
  unfolding demo_store_def by (rule store_reach_first [where P = readable]) (rule demo_row_readable)

lemma demo_store_wf: "store_wf demo_store"
  by (rule store_reach_wf [OF demo_store_reach])

lemma demo_store_rows: "demo_store = [demo_row\<lparr>au_SpentAtoms := ''0''\<rparr>]"
  by (simp add: demo_store_def ms_Upsert_def NewMemoryStore_def demo_row_def)

lemma demo_lookup: "lookupRow demo_store (rowId demo_row) = Some (demo_row\<lparr>au_SpentAtoms := ''0''\<rparr>)"
  by (simp add: demo_store_rows rowId_def)

text \<open>A row with a total that is no number, cached and then spent on.\<close>

definition demo_unreadable :: authorization where
  "demo_unreadable = demo_row\<lparr>au_SpentAtoms := ''abc''\<rparr>"

theorem bump_panics_exactly_on_unreadable_total_witness:
  "ms_BumpSpent ''0xA'' ''0xb'' ''0xc'' 5 ''1'' (snd (ms_Upsert demo_unreadable NewMemoryStore)) = Panic \<and>
   ms_BumpSpent ''0xA'' ''0xb'' ''0xc'' 5 ''1'' demo_store \<noteq> Panic"
proof (rule conjI)
  let ?s = "snd (ms_Upsert demo_unreadable NewMemoryStore)"
  have reach: "store_reach (\<lambda>_. True) ?s" by (rule store_reach_first) simp
  have "setString 10 (orZero ''abc'') = None" "setString 10 (trimSpace ''1'') \<noteq> None" by code_simp+
  moreover have "lookupRow ?s (mkId ''0xA'' ''0xb'' ''0xc'' 5) = Some demo_unreadable"
    by (simp add: ms_Upsert_def NewMemoryStore_def demo_unreadable_def demo_row_def rowId_def)
  ultimately show "ms_BumpSpent ''0xA'' ''0xb'' ''0xc'' 5 ''1'' ?s = Panic"
    using bump_panics_exactly_on_unreadable_total [OF reach, of "''0xA''" "''0xb''" "''0xc''" 5 "''1''"]
    by (simp add: demo_unreadable_def)
  show "ms_BumpSpent ''0xA'' ''0xb'' ''0xc'' 5 ''1'' demo_store \<noteq> Panic"
    using bump_panics_exactly_on_unreadable_total [OF demo_store_reach] by blast
qed

text \<open>
  C17: \<open>Upsert\<close> is an update of the map from identities to rows: it reports whether the identity was
  present, changes no other identity, stores the given row, and of an existing row keeps exactly
  the accumulated spend (and the creation time when none is given); the spend counted against the
  allowance is the same before and after.
\<close>

theorem upsert_refines_map_update:
  assumes "store_wf rows" and "readable a" and "ms_Upsert a rows = (existed, rows')"
  shows "store_wf rows' \<and> existed = (lookupRow rows (rowId a) \<noteq> None) \<and>
    lookupRow rows' = (lookupRow rows)(rowId a \<mapsto> upserted (lookupRow rows (rowId a)) a) \<and>
    (\<forall>r. lookupRow rows (rowId a) = Some r \<longrightarrow>
       (\<exists>r'. lookupRow rows' (rowId a) = Some r' \<and> spent r' = spent r))"
  using ms.upsert_law [OF assms] ms.upsert_keeps_spent [OF assms] by auto

theorem upsert_refines_map_update_witness:
  "\<exists>rows'. ms_Upsert demo_row demo_store = (True, rows') \<and>
     (\<exists>r'. lookupRow rows' (rowId demo_row) = Some r' \<and> spent r' = 0)"
proof -
  obtain e rows' where u: "ms_Upsert demo_row demo_store = (e, rows')" by (cases "ms_Upsert demo_row demo_store")
  from upsert_refines_map_update [OF demo_store_wf demo_row_readable u] u
  show ?thesis by (auto simp: demo_lookup spent_def)
qed

text \<open>
  C18: \<open>BumpSpent\<close> adds exactly the given number of atoms to exactly the row with the given
  identity: the call succeeds when the row exists and the number parses, the row's total grows by
  it, and every other row is as before.
\<close>

theorem bump_spent_exact:
  assumes "store_wf rows" and "lookupRow rows (mkId owner agent token nonce) = Some r"
    and "setString 10 (trimSpace add) = Some d"
  shows "\<exists>rows' r'. ms_BumpSpent owner agent token nonce add rows = Ok rows' \<and> store_wf rows' \<and>
    lookupRow rows' = (lookupRow rows)(mkId owner agent token nonce \<mapsto> r') \<and>
    spent r' = spent r + d \<and> r' = r\<lparr>au_SpentAtoms := showInt (spent r + d)\<rparr>"
  using ms.bump_law [OF assms] ms.spent_bumped [of r d] by (auto simp: bumped_def)

theorem bump_spent_exact_witness:
  "\<exists>rows' r'. ms_BumpSpent ''0xa'' ''0xB'' ''0xc'' 5 (showInt 30) demo_store = Ok rows' \<and>
     lookupRow rows' (rowId demo_row) = Some r' \<and> spent r' = 30"
proof -
  have id: "mkId ''0xa'' ''0xB'' ''0xc'' 5 = rowId demo_row"
    by (simp add: mkId_def rowId_def demo_row_def toLower_def lowerChar_def code_def flip: code_inj)
  have l: "lookupRow demo_store (mkId ''0xa'' ''0xB'' ''0xc'' 5) = Some (demo_row\<lparr>au_SpentAtoms := ''0''\<rparr>)"
    by (simp add: id demo_lookup)
  have n: "setString 10 (trimSpace (showInt 30)) = Some 30" by simp
  from bump_spent_exact [OF demo_store_wf l n]
  show ?thesis by (auto simp: id spent_def)
qed

text \<open>
  C19: what \<open>ActiveForAgent\<close> answers. A row it returns belongs to the agent, is neither revoked nor
  locked nor expired, is signed, and no other such row was created later. It answers "no active
  authorization" exactly when the agent has no unrevoked, unlocked, unexpired row, and "missing
  signature" exactly when it has some but none of them is signed; it never panics.
\<close>

theorem active_for_agent_spec:
  "case ms_ActiveForAgent agent now rows of
     Ok r \<Rightarrow> r \<in> set rows \<and> equalFold (au_Agent r) agent \<and> usable now r \<and> hasSignature r \<and>
       (\<forall>q\<in>set rows. equalFold (au_Agent q) agent \<and> usable now q \<and> hasSignature q \<longrightarrow>
          sint (au_CreatedAtUnix q) \<le> sint (au_CreatedAtUnix r))
   | Err e \<Rightarrow>
       (e = ErrNoAuthorization \<and> (\<forall>q\<in>set rows. \<not> (equalFold (au_Agent q) agent \<and> usable now q))) \<or>
       (e = ErrAuthorizationMissingSignature \<and>
          (\<exists>q\<in>set rows. equalFold (au_Agent q) agent \<and> usable now q) \<and>
          (\<forall>q\<in>set rows. equalFold (au_Agent q) agent \<and> usable now q \<longrightarrow> \<not> hasSignature q))
   | Panic \<Rightarrow> False"
proof (cases "ms_ActiveForAgent agent now rows")
  case (Ok r)
  from pickActive_sig_Ok [OF Ok [unfolded ms_ActiveForAgent_def]] show ?thesis
    unfolding Ok by (auto simp: usable_def)
next
  case (Err e)
  then show ?thesis
    by (auto simp: ms_ActiveForAgent_def pickActive_sig_cases Let_def usable_def filter_empty_conv
        split: if_splits)
next
  case Panic
  then show ?thesis
    by (simp add: ms_ActiveForAgent_def pickActive_sig_cases Let_def split: if_splits)
qed

theorem active_for_agent_spec_witness:
  "\<exists>r. ms_ActiveForAgent ''0xB'' 1000 demo_store = Ok r \<and> usable 1000 r \<and>
       ms_ActiveForAgent ''0xB'' 3000 demo_store = Err ErrNoAuthorization"
proof -
  let ?r = "demo_row\<lparr>au_SpentAtoms := ''0''\<rparr>"
  have ag: "equalFold (au_Agent ?r) ''0xB''"
    by (simp add: equalFold_def demo_row_def toLower_def lowerChar_def code_def flip: code_inj)
  have us: "usable 1000 ?r" "\<not> usable 3000 ?r" "hasSignature ?r"
    using demo_row_usable demo_row_signed by (simp_all add: usable_def hasSignature_def demo_row_def)
  show ?thesis
    using active_for_agent_spec [where agent = "''0xB''" and now = 1000 and rows = demo_store]
      active_for_agent_spec [where agent = "''0xB''" and now = 3000 and rows = demo_store] ag us
    by (auto simp: demo_store_rows split: res.splits)
qed

text \<open>
  \<open>Upsert\<close> carries over nothing else of the row it replaces: the revocation and lock flags and
  the signature become those of the new row. Re-submitting the same signed authorization therefore
  clears an application-level revocation and an observed lockdown, and an event-sourced row (with
  no signature) takes the signature away.
\<close>

theorem upsert_overwrites_flags:
  assumes "store_wf rows" and "readable a" and "ms_Upsert a rows = (existed, rows')"
  shows "\<exists>r'. lookupRow rows' (rowId a) = Some r' \<and> au_Revoked r' = au_Revoked a \<and>
    au_OnchainLocked r' = au_OnchainLocked a \<and> au_SignatureHex r' = au_SignatureHex a \<and>
    au_AmountAtoms r' = au_AmountAtoms a \<and> au_Expiration r' = au_Expiration a"
  using ms.upsert_law [OF assms]
  by (auto simp: upserted_def refreshed_def split: option.split)

theorem upsert_overwrites_flags_witness:
  "\<exists>rows' r'. ms_Upsert demo_row (ms_MarkLocked ''0xa'' ''0xb'' ''0xc'' demo_store) = (True, rows') \<and>
     lookupRow rows' (rowId demo_row) = Some r' \<and> \<not> au_OnchainLocked r'"
proof -
  let ?s = "ms_MarkLocked ''0xa'' ''0xb'' ''0xc'' demo_store"
  have wf: "store_wf ?s" using ms.lock_law [OF demo_store_wf] by blast
  obtain e rows' where u: "ms_Upsert demo_row ?s = (e, rows')" by (cases "ms_Upsert demo_row ?s")
  have "lookupRow ?s (rowId demo_row) \<noteq> None"
    using ms.lock_law [OF demo_store_wf] demo_lookup by simp
  then have "e = True" using ms.upsert_law [OF wf demo_row_readable u] by simp
  with upsert_overwrites_flags [OF wf demo_row_readable u] u show ?thesis by (auto simp: demo_row_def)
qed

end
