(* ===== verification/World.thy ===== *)
theory World
  imports Rpc Store
begin

text \<open>
  The ports the components are wired to, over any world \<open>'w\<close>, and the world the properties speak
  of: the rows of the \<open>MemoryStore\<close>, the watermark, and the history of what was asked of the
  outside so far. The outside (RPC node, clock, context, seller lookup, crediter) is an \<open>env\<close>:
  every answer is an arbitrary function of the history, and an answer may never come.
\<close>

section \<open>Ports\<close>

text \<open>\<open>AuthorizationStore\<close> (\<open>store.go\<close>), \<open>Crediter\<close> (\<open>spend.go\<close>), \<open>WatermarkStore\<close> (\<open>listener.go\<close>).\<close>

record 'w auth_store =
  st_Upsert :: "authorization \<Rightarrow> ('w, bool) io"
  st_ActiveForAgent :: "string \<Rightarrow> i64 \<Rightarrow> ('w, authorization) io"
  st_ActiveForOwner :: "string \<Rightarrow> string \<Rightarrow> i64 \<Rightarrow> ('w, authorization) io"
  st_BumpSpent :: "string \<Rightarrow> string \<Rightarrow> string \<Rightarrow> i64 \<Rightarrow> string \<Rightarrow> ('w, unit) io"
  st_MarkLocked :: "string \<Rightarrow> string \<Rightarrow> string \<Rightarrow> ('w, unit) io"

type_synonym 'w crediter =
  "string \<Rightarrow> string \<Rightarrow> string \<Rightarrow> string \<Rightarrow> ('w, string \<times> string \<times> bool) io"

record 'w watermark_store =
  wm_Get :: "('w, u64) io"
  wm_Set :: "u64 \<Rightarrow> ('w, unit) io"

section \<open>The world\<close>

datatype event =
    EvChainID | EvBlockNumber | EvFilterLogs filter_query | EvPendingNonce address
  | EvBalance address "int res" | EvGasTip | EvGasPrice | EvEstimate call_msg
  | EvSend transaction "unit res" | EvReceipt hash "receipt res" | EvCall call_msg "bytes res" | EvClose
  | EvCtx | EvNow | EvWait int | EvSeller | EvTreasury | EvCredit string string string string
  | EvGetMark | EvSetMark u64

record world =
  w_rows :: rows
  w_mark :: u64
  w_hist :: "event list"

type_synonym 'a answer = "event list \<Rightarrow> 'a res option"

definition ask :: "'a answer \<Rightarrow> ('a res \<Rightarrow> event) \<Rightarrow> (world, 'a) io" where
  "ask f ev w = (case f (w_hist w) of None \<Rightarrow> None
     | Some r \<Rightarrow> Some (r, w\<lparr>w_hist := w_hist w @ [ev r]\<rparr>))"

record env =
  e_ChainID :: "int option answer"
  e_BlockNumber :: "u64 answer"
  e_FilterLogs :: "filter_query \<Rightarrow> eth_log list answer"
  e_PendingNonce :: "address \<Rightarrow> u64 answer"
  e_Balance :: "address \<Rightarrow> int option \<Rightarrow> int answer"
  e_GasTip :: "int option answer"
  e_GasPrice :: "int option answer"
  e_Estimate :: "call_msg \<Rightarrow> u64 answer"
  e_Send :: "transaction \<Rightarrow> unit answer"
  e_Receipt :: "hash \<Rightarrow> receipt answer"
  e_Call :: "call_msg \<Rightarrow> int option \<Rightarrow> bytes answer"
  e_Ctx :: "unit answer"
  e_Now :: "int answer"
  e_Wait :: "int \<Rightarrow> unit answer"
  e_Seller :: "string answer"
  e_Treasury :: "string answer"
  e_Credit :: "string \<Rightarrow> string \<Rightarrow> string \<Rightarrow> string \<Rightarrow> (string \<times> string \<times> bool) answer"
  e_GetMark :: "unit answer"
  e_SetMark :: "u64 \<Rightarrow> unit answer"

definition env_client :: "env \<Rightarrow> world eth_client" where
  "env_client N =
    \<lparr>cl_ChainID = ask (e_ChainID N) (\<lambda>_. EvChainID),
     cl_BlockNumber = ask (e_BlockNumber N) (\<lambda>_. EvBlockNumber),
     cl_FilterLogs = (\<lambda>q. ask (e_FilterLogs N q) (\<lambda>_. EvFilterLogs q)),
     cl_PendingNonceAt = (\<lambda>a. ask (e_PendingNonce N a) (\<lambda>_. EvPendingNonce a)),
     cl_BalanceAt = (\<lambda>a b. ask (e_Balance N a b) (EvBalance a)),
     cl_SuggestGasTipCap = ask (e_GasTip N) (\<lambda>_. EvGasTip),
     cl_SuggestGasPrice = ask (e_GasPrice N) (\<lambda>_. EvGasPrice),
     cl_EstimateGas = (\<lambda>m. ask (e_Estimate N m) (\<lambda>_. EvEstimate m)),
     cl_SendTransaction = (\<lambda>t. ask (e_Send N t) (EvSend t)),
     cl_TransactionReceipt = (\<lambda>h. ask (e_Receipt N h) (EvReceipt h)),
     cl_CallContract = (\<lambda>m b. ask (e_Call N m b) (EvCall m)),
     cl_Close = ask (\<lambda>_. Some (Ok ())) (\<lambda>_. EvClose)\<rparr>"

definition env_rpc :: "env \<Rightarrow> world base_rpc" where
  "env_rpc N = RealBaseRPC (env_client N)"

definition env_runtime :: "env \<Rightarrow> world runtime" where
  "env_runtime N =
    \<lparr>rt_ctx = ask (e_Ctx N) (\<lambda>_. EvCtx), rt_now = ask (e_Now N) (\<lambda>_. EvNow),
     rt_wait = (\<lambda>d. ask (e_Wait N d) (\<lambda>_. EvWait d))\<rparr>"

definition env_seller :: "env \<Rightarrow> (world, string) io" where
  "env_seller N = ask (e_Seller N) (\<lambda>_. EvSeller)"

definition env_treasury :: "env \<Rightarrow> (world, string) io" where
  "env_treasury N = ask (e_Treasury N) (\<lambda>_. EvTreasury)"

definition env_crediter :: "env \<Rightarrow> world crediter" where
  "env_crediter N = (\<lambda>ow tk at tx. ask (e_Credit N ow tk at tx) (\<lambda>_. EvCredit ow tk at tx))"

text \<open>
  The watermark lives in the world; the store that holds it may fail, and then keeps its value.
\<close>

definition env_watermark :: "env \<Rightarrow> world watermark_store" where
  "env_watermark N =
    \<lparr>wm_Get = io_bind (ask (e_GetMark N) (\<lambda>_. EvGetMark)) (\<lambda>_ w. ret (w_mark w) w),
     wm_Set = (\<lambda>b. io_bind (ask (e_SetMark N b) (\<lambda>_. EvSetMark b)) (\<lambda>_ w. ret () (w\<lparr>w_mark := b\<rparr>)))\<rparr>"

text \<open>\<open>MemoryStore\<close> as the store port: every operation is one atomic step on the rows.\<close>

definition memory_store :: "world auth_store" where
  "memory_store =
    \<lparr>st_Upsert = (\<lambda>a w. let (existed, rows) = ms_Upsert a (w_rows w) in Some (Ok existed, w\<lparr>w_rows := rows\<rparr>)),
     st_ActiveForAgent = (\<lambda>agent now w. lift (ms_ActiveForAgent agent now (w_rows w)) w),
     st_ActiveForOwner = (\<lambda>owner token now w. lift (ms_ActiveForOwner owner token now (w_rows w)) w),
     st_BumpSpent = (\<lambda>owner agent token nonce add w.
        case ms_BumpSpent owner agent token nonce add (w_rows w) of
          Ok rows \<Rightarrow> Some (Ok (), w\<lparr>w_rows := rows\<rparr>)
        | Err e \<Rightarrow> Some (Err e, w)
        | Panic \<Rightarrow> Some (Panic, w)),
     st_MarkLocked = (\<lambda>owner agent token w. Some (Ok (), w\<lparr>w_rows := ms_MarkLocked owner agent token (w_rows w)\<rparr>))\<rparr>"

section \<open>What the ports change\<close>

text \<open>\<open>calm\<close>: only the history grows, the store and the watermark are as before.\<close>

definition extends :: "world \<Rightarrow> world \<Rightarrow> bool" where
  "extends w w' \<longleftrightarrow> (\<exists>es. w_hist w' = w_hist w @ es)"

definition calm :: "world \<Rightarrow> world \<Rightarrow> bool" where
  "calm w w' \<longleftrightarrow> w_rows w' = w_rows w \<and> w_mark w' = w_mark w \<and> extends w w'"

lemma preorder_extends [simp, moves_intros]: "preorder_rel extends"
  by (auto simp: preorder_rel_def extends_def)

lemma preorder_calm [simp, moves_intros]: "preorder_rel calm"
  by (auto simp: preorder_rel_def calm_def extends_def)

lemma calm_refl [simp]: "calm w w"
  by (simp add: calm_def extends_def)

lemma calm_trans: "calm u v \<Longrightarrow> calm v w \<Longrightarrow> calm u w"
  by (rule preorder_trans [OF preorder_calm])

lemma extends_trans: "extends u v \<Longrightarrow> extends v w \<Longrightarrow> extends u w"
  by (rule preorder_trans [OF preorder_extends])

lemma calm_extends: "calm w w' \<Longrightarrow> extends w w'"
  by (simp add: calm_def)

lemma moves_calm_ask [moves_intros]: "moves calm (ask f ev)"
  by (auto simp: moves_def ask_def calm_def extends_def split: option.splits)

lemma ask_Some_iff:
  "ask f ev w = Some (r, w') \<longleftrightarrow> f (w_hist w) = Some r \<and> w' = w\<lparr>w_hist := w_hist w @ [ev r]\<rparr>"
  by (auto simp: ask_def split: option.splits)

lemma succeeds_ask: "(\<And>h. \<exists>a. f h = Some (Ok a)) \<Longrightarrow> succeeds (ask f ev)"
  unfolding succeeds_def ask_Some_iff by blast

lemma settles_ask: "(\<And>h. \<exists>r. f h = Some r \<and> r \<noteq> Panic) \<Longrightarrow> settles (ask f ev)"
  unfolding settles_def ask_Some_iff by blast

lemma yields_ask: "(\<And>h. \<exists>a. f h = Some (Ok a) \<and> P a) \<Longrightarrow> yields (ask f ev) P"
  unfolding yields_def ask_Some_iff by blast

lemmas env_rpc_simps = env_rpc_def RealBaseRPC_def env_client_def base_rpc.simps eth_client.simps
lemmas env_rt_simps = env_runtime_def runtime.simps

lemma env_rpc_calm [moves_intros]:
  "moves calm (rpc_ChainID (env_rpc N))" "moves calm (rpc_BlockNumber (env_rpc N))"
  "moves calm (rpc_FilterLogs (env_rpc N) q)" "moves calm (rpc_PendingNonceAt (env_rpc N) a)"
  "moves calm (rpc_BalanceAt (env_rpc N) a)" "moves calm (rpc_SuggestGasTipCap (env_rpc N))"
  "moves calm (rpc_SuggestGasPrice (env_rpc N))" "moves calm (rpc_EstimateGas (env_rpc N) m)"
  "moves calm (rpc_SendTransaction (env_rpc N) t)" "moves calm (rpc_TransactionReceipt (env_rpc N) h)"
  "moves calm (rpc_CallContract (env_rpc N) m b)" "moves calm (rpc_Close (env_rpc N))"
  by (simp_all only: env_rpc_simps moves_calm_ask)

lemma env_runtime_calm [moves_intros]:
  "moves calm (rt_ctx (env_runtime N))" "moves calm (rt_now (env_runtime N))"
  "moves calm (rt_wait (env_runtime N) d)"
  by (simp_all only: env_rt_simps moves_calm_ask)

lemma env_ports_calm [moves_intros]:
  "moves calm (env_seller N)" "moves calm (env_treasury N)" "moves calm (env_crediter N ow tk at tx)"
  by (simp_all only: env_seller_def env_treasury_def env_crediter_def moves_calm_ask)

lemma env_Receipt_Ok:
  "rpc_TransactionReceipt (env_rpc N) h w = Some (Ok rc, w') \<Longrightarrow>
     w_hist w' = w_hist w @ [EvReceipt h (Ok rc)]"
  by (auto simp: env_rpc_simps ask_Some_iff)

lemma env_Send_iff:
  "rpc_SendTransaction (env_rpc N) t w = Some (r, w') \<longleftrightarrow>
     e_Send N t (w_hist w) = Some r \<and> w' = w\<lparr>w_hist := w_hist w @ [EvSend t r]\<rparr>"
  by (simp add: env_rpc_simps ask_Some_iff)

lemma WaitForReceipt_calm [moves_intros]:
  "moves calm (WaitForReceipt E (env_runtime N) (env_rpc N) h timeout poll)"
  by (intro moves_intros)

lemma moves_calm_memory [moves_intros]:
  "moves calm (st_ActiveForAgent memory_store agent now)"
  "moves calm (st_ActiveForOwner memory_store owner token now)"
  by (auto simp: memory_store_def moves_def)

lemma memory_store_eval:
  "st_ActiveForAgent memory_store agent now w = Some (r, w') \<longleftrightarrow>
     r = ms_ActiveForAgent agent now (w_rows w) \<and> w' = w"
  "st_ActiveForOwner memory_store owner token now w = Some (r, w') \<longleftrightarrow>
     r = ms_ActiveForOwner owner token now (w_rows w) \<and> w' = w"
  "st_MarkLocked memory_store owner agent token w = Some (q, w') \<longleftrightarrow>
     q = Ok () \<and> w' = w\<lparr>w_rows := ms_MarkLocked owner agent token (w_rows w)\<rparr>"
  "st_Upsert memory_store a w = Some (b, w') \<longleftrightarrow>
     b = Ok (fst (ms_Upsert a (w_rows w))) \<and> w' = w\<lparr>w_rows := snd (ms_Upsert a (w_rows w))\<rparr>"
  by (auto simp: memory_store_def split: prod.split)

lemma memory_store_Bump_Ok:
  "st_BumpSpent memory_store owner agent token nonce add w = Some (Ok u, w') \<longleftrightarrow>
     (\<exists>rows. ms_BumpSpent owner agent token nonce add (w_rows w) = Ok rows \<and> w' = w\<lparr>w_rows := rows\<rparr>)"
  by (auto simp: memory_store_def split: res.split)

lemma memory_store_Bump_other:
  "st_BumpSpent memory_store owner agent token nonce add w = Some (r, w') \<Longrightarrow> \<not> isOk r \<Longrightarrow> w' = w"
  by (auto simp: memory_store_def split: res.splits)

section \<open>The broadcasts in a history\<close>

text \<open>\<open>sends\<close>: every transaction handed to \<open>SendTransaction\<close>, in order.\<close>

fun sends :: "event list \<Rightarrow> transaction list" where
  "sends [] = []"
| "sends (EvSend t r # es) = t # sends es"
| "sends (_ # es) = sends es"

lemma sends_append [simp]: "sends (xs @ ys) = sends xs @ sends ys"
  by (induction xs rule: sends.induct) auto

text \<open>\<open>silent\<close>: a calm step that broadcasts nothing.\<close>

definition silent :: "world \<Rightarrow> world \<Rightarrow> bool" where
  "silent w w' \<longleftrightarrow> calm w w' \<and> sends (w_hist w') = sends (w_hist w)"

lemma preorder_silent [simp, moves_intros]: "preorder_rel silent"
  by (auto simp: preorder_rel_def silent_def intro: calm_trans)

lemma silent_refl [simp]: "silent w w"
  by (simp add: silent_def)

lemma silent_trans: "silent u v \<Longrightarrow> silent v w \<Longrightarrow> silent u w"
  by (rule preorder_trans [OF preorder_silent])

lemma silent_calm: "silent w w' \<Longrightarrow> calm w w'"
  by (simp add: silent_def)

lemma moves_silent_ask: "(\<And>r. sends [ev r] = []) \<Longrightarrow> moves silent (ask f ev)"
  using moves_calm_ask [of f ev]
  by (auto simp: moves_def silent_def ask_Some_iff)

lemma env_rpc_silent [moves_intros]:
  "moves silent (rpc_ChainID (env_rpc N))" "moves silent (rpc_BlockNumber (env_rpc N))"
  "moves silent (rpc_FilterLogs (env_rpc N) q)" "moves silent (rpc_PendingNonceAt (env_rpc N) a)"
  "moves silent (rpc_BalanceAt (env_rpc N) a)" "moves silent (rpc_SuggestGasTipCap (env_rpc N))"
  "moves silent (rpc_SuggestGasPrice (env_rpc N))" "moves silent (rpc_EstimateGas (env_rpc N) m)"
  "moves silent (rpc_TransactionReceipt (env_rpc N) h)"
  "moves silent (rpc_CallContract (env_rpc N) m b)" "moves silent (rpc_Close (env_rpc N))"
  unfolding env_rpc_simps by (rule moves_silent_ask, simp)+

lemma env_runtime_silent [moves_intros]:
  "moves silent (rt_ctx (env_runtime N))" "moves silent (rt_now (env_runtime N))"
  "moves silent (rt_wait (env_runtime N) d)"
  unfolding env_rt_simps by (rule moves_silent_ask, simp)+

lemma env_ports_silent [moves_intros]:
  "moves silent (env_seller N)" "moves silent (env_treasury N)" "moves silent (env_crediter N ow tk at tx)"
  unfolding env_seller_def env_treasury_def env_crediter_def by (rule moves_silent_ask, simp)+

lemma WaitForReceipt_silent [moves_intros]:
  "moves silent (WaitForReceipt E (env_runtime N) (env_rpc N) h timeout poll)"
  by (intro moves_intros)

lemma moves_silent_memory [moves_intros]:
  "moves silent (st_ActiveForAgent memory_store agent now)"
  "moves silent (st_ActiveForOwner memory_store owner token now)"
  by (auto simp: memory_store_def moves_def)

text \<open>
  \<open>confirmed t es\<close>: the transaction was accepted for broadcast and later a receipt with status 1 was
  read for its hash.
\<close>

definition confirmed :: "eth_lib \<Rightarrow> transaction \<Rightarrow> event list \<Rightarrow> bool" where
  "confirmed E t es \<longleftrightarrow>
     (\<exists>xs ys zs rc. es = xs @ EvSend t (Ok ()) # ys @ EvReceipt (txHash E t) (Ok rc) # zs \<and> rc_Status rc = 1)"

lemma confirmed_extend: "confirmed E t es \<Longrightarrow> confirmed E t (ds @ es @ fs)"
  unfolding confirmed_def by (metis append.assoc append_Cons)

text \<open>\<open>sent P n\<close>: a calm step with at most \<open>n\<close> broadcasts, each satisfying \<open>P\<close>.\<close>

definition sent :: "(transaction \<Rightarrow> bool) \<Rightarrow> nat \<Rightarrow> world \<Rightarrow> world \<Rightarrow> bool" where
  "sent P n w w' \<longleftrightarrow> calm w w' \<and>
     (\<exists>ts. sends (w_hist w') = sends (w_hist w) @ ts \<and> length ts \<le> n \<and> (\<forall>t\<in>set ts. P t))"

lemma silent_sent: "silent w w' \<Longrightarrow> sent P n w w'"
  by (simp add: silent_def sent_def)

lemma sent_trans:
  assumes "sent P m u v" and "sent P n v w" and "m + n \<le> k"
  shows "sent P k u w"
proof -
  from assms(1) obtain ts where ts: "calm u v" "sends (w_hist v) = sends (w_hist u) @ ts"
    "length ts \<le> m" "\<forall>t\<in>set ts. P t" by (auto simp: sent_def)
  from assms(2) obtain us where us: "calm v w" "sends (w_hist w) = sends (w_hist v) @ us"
    "length us \<le> n" "\<forall>t\<in>set us. P t" by (auto simp: sent_def)
  have "calm u w" using ts(1) us(1) by (rule calm_trans)
  moreover have "sends (w_hist w) = sends (w_hist u) @ ts @ us" using ts us by simp
  moreover have "length (ts @ us) \<le> k" using ts us assms(3) by simp
  moreover have "\<forall>t\<in>set (ts @ us). P t" using ts us by auto
  ultimately show ?thesis unfolding sent_def by blast
qed

lemma sent_silent: "sent P n u v \<Longrightarrow> silent v w \<Longrightarrow> sent P n u w"
  using sent_trans [of P n u v 0 w n] silent_sent [of v w P 0] by simp

lemma silent_sent_trans: "silent u v \<Longrightarrow> sent P n v w \<Longrightarrow> sent P n u w"
  using sent_trans [of P 0 u v n w n] silent_sent [of u v P 0] by simp

lemma sent_mono: "sent P n u v \<Longrightarrow> n \<le> m \<Longrightarrow> sent P m u v"
  unfolding sent_def by (metis order_trans)

lemma calm_hist: "calm w w' \<Longrightarrow> \<exists>es. w_hist w' = w_hist w @ es"
  by (simp add: calm_def extends_def)

lemma env_Send_sent:
  "P t \<Longrightarrow> rpc_SendTransaction (env_rpc N) t w = Some (r, w') \<Longrightarrow> sent P 1 w w'"
  using movesD [OF env_rpc_calm(9), of N t w r w']
  by (auto simp: env_Send_iff sent_def)

text \<open>A transaction whose broadcast was the last event, and whose receipt came with status 1.\<close>

lemma WaitForReceipt_confirms:
  assumes run: "WaitForReceipt E (env_runtime N) (env_rpc N) (txHash E t) tmo poll w = Some (Ok rc, w')"
    and last: "w_hist w = es @ [EvSend t (Ok ())]" and status: "rc_Status rc = 1"
  shows "\<exists>ys. w_hist w' = w_hist w @ ys @ [EvReceipt (txHash E t) (Ok rc)]"
proof -
  from movesD [OF WaitForReceipt_calm run] obtain zs where zs: "w_hist w' = w_hist w @ zs"
    by (auto simp: calm_def extends_def)
  from WaitForReceipt_Ok [OF run] obtain u
    where "rpc_TransactionReceipt (env_rpc N) (txHash E t) u = Some (Ok rc, w')" ..
  from env_Receipt_Ok [OF this]
  have "w_hist w' = w_hist u @ [EvReceipt (txHash E t) (Ok rc)]" .
  with zs last show ?thesis by (cases zs rule: rev_cases) auto
qed

text \<open>The events between two worlds.\<close>

definition news :: "world \<Rightarrow> world \<Rightarrow> event list" where
  "news w w' = drop (length (w_hist w)) (w_hist w')"

lemma news_append: "w_hist w' = w_hist w @ es \<Longrightarrow> news w w' = es"
  by (simp add: news_def)

lemma news_calm: "calm w w' \<Longrightarrow> w_hist w' = w_hist w @ news w w'"
  by (auto simp: calm_def extends_def news_append)

lemma news_trans:
  assumes "calm u v" and "calm v w"
  shows "news u w = news u v @ news v w"
  by (rule news_append) (metis news_calm assms append.assoc)

lemma sends_news: "calm w w' \<Longrightarrow> sends (w_hist w') = sends (w_hist w) @ sends (news w w')"
  using news_calm [of w w'] by (metis sends_append)

lemma silent_news: "silent w w' \<Longrightarrow> sends (news w w') = []"
  using sends_news [of w w'] by (auto simp: silent_def)

lemma sent_news: "sent P n w w' \<Longrightarrow> length (sends (news w w')) \<le> n \<and> (\<forall>t\<in>set (sends (news w w')). P t)"
  using sends_news [of w w'] by (auto simp: sent_def)

text \<open>A confirmation stays one when the observation starts earlier and ends later.\<close>

lemma confirmed_news:
  assumes "confirmed E t (news v x)" and "calm u v" and "calm v x" and "calm x y"
  shows "confirmed E t (news u y)"
proof -
  have "news u y = news u v @ news v x @ news x y"
    using news_trans [OF assms(2) calm_trans [OF assms(3,4)]] news_trans [OF assms(3,4)] by simp
  with confirmed_extend [OF assms(1)] show ?thesis by metis
qed

lemma WaitForReceipt_confirmed:
  assumes run: "WaitForReceipt E (env_runtime N) (env_rpc N) (txHash E t) tmo poll x = Some (Ok rc, w')"
    and last: "w_hist x = w_hist v @ es @ [EvSend t (Ok ())]" and status: "rc_Status rc = 1"
  shows "confirmed E t (news v w')"
proof -
  from last have "w_hist x = (w_hist v @ es) @ [EvSend t (Ok ())]" by simp
  from WaitForReceipt_confirms [OF run this status] obtain ys
    where "w_hist w' = w_hist x @ ys @ [EvReceipt (txHash E t) (Ok rc)]" ..
  with last have "news v w' = es @ EvSend t (Ok ()) # ys @ [EvReceipt (txHash E t) (Ok rc)]"
    by (intro news_append) simp
  with status show ?thesis unfolding confirmed_def by blast
qed

text \<open>
  One silent call of a composite operation, on the way from \<open>u\<close>: what must hold at its end holds
  after a silent error, and the rest runs from a world that is silently reached.
\<close>

lemma wp_silent_bind:
  assumes "moves silent m" and "silent u w"
    and "\<And>a w'. m w = Some (Ok a, w') \<Longrightarrow> silent u w' \<Longrightarrow> wp (k a) Q w'"
    and "\<And>e w'. silent u w' \<Longrightarrow> Q (Err e) w'" and "\<And>w'. silent u w' \<Longrightarrow> Q Panic w'"
  shows "wp (io_bind m k) Q w"
  unfolding wp_bind
  by (rule wp_call [OF assms(1)]) (simp_all add: assms silent_trans [OF assms(2)])

lemma wp_silent_lift:
  assumes "silent u w" and "\<And>a. r = Ok a \<Longrightarrow> wp (k a) Q w"
    and "\<And>e w'. silent u w' \<Longrightarrow> Q (Err e) w'" and "\<And>w'. silent u w' \<Longrightarrow> Q Panic w'"
  shows "wp (io_bind (lift r) k) Q w"
  using assms by (cases r) (simp_all add: wp_simps)

section \<open>A concrete environment, for the witnesses\<close>

text \<open>
  A node on which the agent with address 2 is empty and everybody else rich, that accepts and
  confirms every transaction.
\<close>

definition demo_env :: env where
  "demo_env =
    \<lparr>e_ChainID = (\<lambda>_. Some (Ok (Some 8453))), e_BlockNumber = (\<lambda>_. Some (Ok 100)),
     e_FilterLogs = (\<lambda>_ _. Some (Ok [])), e_PendingNonce = (\<lambda>_ _. Some (Ok 3)),
     e_Balance = (\<lambda>a _ _. Some (Ok (if a = 2 then 0 else 1000))),
     e_GasTip = (\<lambda>_. Some (Ok None)), e_GasPrice = (\<lambda>_. Some (Ok (Some 7))),
     e_Estimate = (\<lambda>_ _. Some (Ok 100)), e_Send = (\<lambda>_ _. Some (Ok ())),
     e_Receipt = (\<lambda>_ _. Some (Ok \<lparr>rc_Status = 1\<rparr>)), e_Call = (\<lambda>_ _ _. Some (Ok [])),
     e_Ctx = (\<lambda>_. Some (Ok ())), e_Now = (\<lambda>_. Some (Ok 0)), e_Wait = (\<lambda>_ _. Some (Ok ())),
     e_Seller = (\<lambda>_. Some (Ok (demo_address_text 9))), e_Treasury = (\<lambda>_. Some (Ok (demo_address_text 8))),
     e_Credit = (\<lambda>_ _ _ _ _. Some (Ok ([], [], False))),
     e_GetMark = (\<lambda>_. Some (Ok ())), e_SetMark = (\<lambda>_ _. Some (Ok ()))\<rparr>"

definition demo_world :: world where
  "demo_world = \<lparr>w_rows = [], w_mark = 0, w_hist = []\<rparr>"

lemmas demo_env_simps = env_rpc_simps env_rt_simps demo_env_def env.simps ask_def

lemma demo_wait:
  "WaitForReceipt E (env_runtime demo_env) (env_rpc demo_env) h tmo poll w =
     Some (Ok \<lparr>rc_Status = 1\<rparr>, w\<lparr>w_hist := w_hist w @ [EvNow, EvCtx, EvReceipt h (Ok \<lparr>rc_Status = 1\<rparr>)]\<rparr>)"
  by (simp add: WaitForReceipt_def Let_def io_bind_def io_try_def ret_def fail_def demo_env_simps
      waitLoop.simps [unfolded io_bind_def io_try_def])

lemma demo_calls:
  "rpc_ChainID (env_rpc demo_env) w = Some (Ok (Some 8453), w\<lparr>w_hist := w_hist w @ [EvChainID]\<rparr>)"
  "rpc_PendingNonceAt (env_rpc demo_env) a w = Some (Ok 3, w\<lparr>w_hist := w_hist w @ [EvPendingNonce a]\<rparr>)"
  "rpc_BalanceAt (env_rpc demo_env) a w =
     Some (Ok (if a = 2 then 0 else 1000), w\<lparr>w_hist := w_hist w @ [EvBalance a (Ok (if a = 2 then 0 else 1000))]\<rparr>)"
  "rpc_SuggestGasTipCap (env_rpc demo_env) w = Some (Ok None, w\<lparr>w_hist := w_hist w @ [EvGasTip]\<rparr>)"
  "rpc_SuggestGasPrice (env_rpc demo_env) w = Some (Ok (Some 7), w\<lparr>w_hist := w_hist w @ [EvGasPrice]\<rparr>)"
  "rpc_EstimateGas (env_rpc demo_env) m w = Some (Ok 100, w\<lparr>w_hist := w_hist w @ [EvEstimate m]\<rparr>)"
  "rpc_SendTransaction (env_rpc demo_env) t w = Some (Ok (), w\<lparr>w_hist := w_hist w @ [EvSend t (Ok ())]\<rparr>)"
  "rpc_CallContract (env_rpc demo_env) m b w = Some (Ok [], w\<lparr>w_hist := w_hist w @ [EvCall m (Ok [])]\<rparr>)"
  by (simp_all add: demo_env_simps)

end
