(* ===== verification/Signer.thy ===== *)
theory Signer
  imports Derive TypedData Permit2 World
begin

text \<open>
  \<open>src/signer.go\<close>: the \<open>Signer\<close> port and its implementation \<open>BIP44Signer\<close>, which derives the key
  anew for every call and scrubs it before it returns (\<open>defer k.Zeroize()\<close>). \<open>withKey\<close> is that
  pattern: it gives the outcome of the call together with what is left of the derived key.

  The locale \<open>signer_contract\<close> states what clients rely on: a typed-data signature recovers to the
  signer's address, and signing a transaction keeps its payload.
\<close>

section \<open>The port\<close>

record 'w signer =
  sg_Address :: "('w, string) io"
  sg_SignPermit2 :: "permit2_params \<Rightarrow> ('w, signed_payload) io"
  sg_SignEIP2612 :: "eip2612_params \<Rightarrow> string \<Rightarrow> string \<Rightarrow> ('w, signed_payload) io"
  sg_SignEIP3009 :: "eip3009_params \<Rightarrow> string \<Rightarrow> string \<Rightarrow> ('w, signed_payload) io"
  sg_SignTx :: "transaction option \<Rightarrow> int option \<Rightarrow> ('w, transaction) io"

section \<open>BIP44Signer\<close>

record bip44_signer =
  bs_masterSeed :: bytes
  bs_coinType :: u32
  bs_account :: u32

definition NewBIP44Signer :: "eth_lib \<Rightarrow> bytes \<Rightarrow> u32 \<Rightarrow> u32 \<Rightarrow> bip44_signer res" where
  "NewBIP44Signer E masterSeed coinType0 account =
     (if masterSeed = [] then Err ErrSignerNotConfigured
      else
        let coinType = (if coinType0 = 0 then DefaultCoinType else coinType0) in
        res_bind (Derive E masterSeed coinType account) (\<lambda>k.
        Ok \<lparr>bs_masterSeed = masterSeed, bs_coinType = coinType, bs_account = account\<rparr>))"

text \<open>A signer pointer may be nil.\<close>

definition bs_derive :: "eth_lib \<Rightarrow> bip44_signer option \<Rightarrow> agent_key res" where
  "bs_derive E s =
     (case s of
        None \<Rightarrow> Err ErrSignerNotConfigured
      | Some b \<Rightarrow>
          if bs_masterSeed b = [] then Err ErrSignerNotConfigured
          else Derive E (bs_masterSeed b) (bs_coinType b) (bs_account b))"

definition withKey ::
  "eth_lib \<Rightarrow> bip44_signer option \<Rightarrow> (agent_key \<Rightarrow> 'a res) \<Rightarrow> 'a res \<times> agent_key option" where
  "withKey E s body =
     (case bs_derive E s of
        Ok k \<Rightarrow> (body k, Zeroize (Some k))
      | Err e \<Rightarrow> (Err e, None)
      | Panic \<Rightarrow> (Panic, None))"

definition bs_Address :: "eth_lib \<Rightarrow> bip44_signer option \<Rightarrow> string res \<times> agent_key option" where
  "bs_Address E s = withKey E s (\<lambda>k. Ok (ak_Address k))"

definition bs_SignPermit2 ::
  "eth_lib \<Rightarrow> bip44_signer option \<Rightarrow> permit2_params \<Rightarrow> signed_payload res \<times> agent_key option" where
  "bs_SignPermit2 E s p =
     withKey E s (\<lambda>k. res_bind (BuildPermit2TypedData p) (SignTypedData E (ak_PrivateKey k)))"

definition bs_SignEIP2612 ::
  "eth_lib \<Rightarrow> bip44_signer option \<Rightarrow> eip2612_params \<Rightarrow> string \<Rightarrow> string \<Rightarrow>
     signed_payload res \<times> agent_key option" where
  "bs_SignEIP2612 E s p name version =
     withKey E s (\<lambda>k. res_bind (BuildEIP2612TypedData p name version) (SignTypedData E (ak_PrivateKey k)))"

definition bs_SignEIP3009 ::
  "eth_lib \<Rightarrow> bip44_signer option \<Rightarrow> eip3009_params \<Rightarrow> string \<Rightarrow> string \<Rightarrow>
     signed_payload res \<times> agent_key option" where
  "bs_SignEIP3009 E s p name version =
     withKey E s (\<lambda>k. res_bind (BuildEIP3009TypedData p name version) (SignTypedData E (ak_PrivateKey k)))"

definition bs_SignTx ::
  "eth_lib \<Rightarrow> bip44_signer option \<Rightarrow> transaction option \<Rightarrow> int option \<Rightarrow>
     transaction res \<times> agent_key option" where
  "bs_SignTx E s tx chainID =
     (case tx of
        None \<Rightarrow> (Err (Errorf ''agentwallet: tx is nil'' []), None)
      | Some t \<Rightarrow>
          if notPositive chainID then (Err (Errorf ''agentwallet: chainID must be > 0'' []), None)
          else withKey E s (\<lambda>k.
            res_bind (res_wrap ''agentwallet: to-ecdsa: %w'' [] (toECDSA E (ak_PrivateKey k))) (\<lambda>priv.
            res_wrap ''agentwallet: sign tx: %w'' [] (signTx E t (the chainID) priv))))"

text \<open>\<open>BIP44Signer\<close> as a \<open>Signer\<close>: it touches no world.\<close>

definition bip44_port :: "eth_lib \<Rightarrow> bip44_signer option \<Rightarrow> 'w signer" where
  "bip44_port E s =
    \<lparr>sg_Address = lift (fst (bs_Address E s)),
     sg_SignPermit2 = (\<lambda>p. lift (fst (bs_SignPermit2 E s p))),
     sg_SignEIP2612 = (\<lambda>p n v. lift (fst (bs_SignEIP2612 E s p n v))),
     sg_SignEIP3009 = (\<lambda>p n v. lift (fst (bs_SignEIP3009 E s p n v))),
     sg_SignTx = (\<lambda>t c. lift (fst (bs_SignTx E s t c)))\<rparr>"

section \<open>The contract\<close>

locale signer_contract =
  fixes address :: "eth_lib \<Rightarrow> 's \<Rightarrow> string res"
    and signPermit2 :: "eth_lib \<Rightarrow> 's \<Rightarrow> permit2_params \<Rightarrow> signed_payload res"
    and signEIP2612 :: "eth_lib \<Rightarrow> 's \<Rightarrow> eip2612_params \<Rightarrow> string \<Rightarrow> string \<Rightarrow> signed_payload res"
    and signEIP3009 :: "eth_lib \<Rightarrow> 's \<Rightarrow> eip3009_params \<Rightarrow> string \<Rightarrow> string \<Rightarrow> signed_payload res"
    and signTransaction :: "eth_lib \<Rightarrow> 's \<Rightarrow> transaction option \<Rightarrow> int option \<Rightarrow> transaction res"
  assumes permit2_law: "sign_recover_law E \<Longrightarrow> address E s = Ok a \<Longrightarrow> signPermit2 E s p = Ok sp \<Longrightarrow>
      \<exists>td. BuildPermit2TypedData p = Ok td \<and> RecoverTypedDataSigner E td (sp_Signature sp) = Ok a"
    and eip2612_law: "sign_recover_law E \<Longrightarrow> address E s = Ok a \<Longrightarrow> signEIP2612 E s q n v = Ok sp \<Longrightarrow>
      \<exists>td. BuildEIP2612TypedData q n v = Ok td \<and> RecoverTypedDataSigner E td (sp_Signature sp) = Ok a"
    and eip3009_law: "sign_recover_law E \<Longrightarrow> address E s = Ok a \<Longrightarrow> signEIP3009 E s r n v = Ok sp \<Longrightarrow>
      \<exists>td. BuildEIP3009TypedData r n v = Ok td \<and> RecoverTypedDataSigner E td (sp_Signature sp) = Ok a"
    and tx_law: "sign_tx_law E \<Longrightarrow> signTransaction E s t c = Ok t' \<Longrightarrow>
      \<exists>u i. t = Some u \<and> c = Some i \<and> 0 < i \<and> tx_payload t' = tx_payload u"
begin

lemma recovered_only_from_self:
  assumes "sign_recover_law E" and "address E s = Ok a" and "signPermit2 E s p = Ok sp"
    and "BuildPermit2TypedData p = Ok td" and "RecoverTypedDataSigner E td (sp_Signature sp) = Ok b"
  shows "b = a"
  using permit2_law [OF assms(1,2,3)] assms(4,5) by auto

text \<open>One address recovers from every kind of signature the signer makes.\<close>

lemma one_identity:
  assumes "sign_recover_law E" and "address E s = Ok a"
    and "signPermit2 E s p = Ok sp" and "signEIP3009 E s r n v = Ok sp'"
  shows "\<exists>td td'. BuildPermit2TypedData p = Ok td \<and> BuildEIP3009TypedData r n v = Ok td' \<and>
    RecoverTypedDataSigner E td (sp_Signature sp) = RecoverTypedDataSigner E td' (sp_Signature sp')"
  using permit2_law [OF assms(1,2,3)] eip3009_law [OF assms(1,2,4)] by auto

end

section \<open>BIP44Signer fulfils it\<close>

lemma withKey_Ok_iff [io_ok]:
  "fst (withKey E s f) = Ok a \<longleftrightarrow> (\<exists>k. bs_derive E s = Ok k \<and> f k = Ok a)"
  by (auto simp: withKey_def split: res.splits)

lemma bs_derive_key:
  "bs_derive E s = Ok k \<Longrightarrow> \<exists>priv. toECDSA E (ak_PrivateKey k) = Ok priv \<and>
     ak_Address k = addressHex E (pubkeyToAddress E (ek_PublicKey priv))"
  by (auto simp: bs_derive_def io_ok split: option.splits if_splits)

lemma withKey_signs:
  assumes law: "sign_recover_law E" and addr: "fst (bs_Address E s) = Ok a"
    and sign: "fst (withKey E s (\<lambda>k. res_bind td_res (SignTypedData E (ak_PrivateKey k)))) = Ok sp"
  shows "\<exists>td. td_res = Ok td \<and> RecoverTypedDataSigner E td (sp_Signature sp) = Ok a"
proof -
  from sign obtain k td where k: "bs_derive E s = Ok k" and td: "td_res = Ok td"
    and sp: "SignTypedData E (ak_PrivateKey k) td = Ok sp" by (auto simp: io_ok)
  from bs_derive_key [OF k] obtain priv where priv: "toECDSA E (ak_PrivateKey k) = Ok priv"
    and a: "ak_Address k = addressHex E (pubkeyToAddress E (ek_PublicKey priv))" by blast
  from addr k a have "a = addressHex E (pubkeyToAddress E (ek_PublicKey priv))"
    by (simp add: bs_Address_def io_ok)
  with SignTypedData_recovers [OF law sp priv] td show ?thesis by simp
qed

lemma bs_SignTx_Ok_iff [io_ok]:
  "fst (bs_SignTx E s t c) = Ok t' \<longleftrightarrow>
     (\<exists>u i k priv. t = Some u \<and> c = Some i \<and> 0 < i \<and> bs_derive E s = Ok k \<and>
        toECDSA E (ak_PrivateKey k) = Ok priv \<and> signTx E u i priv = Ok t')"
  by (auto simp: bs_SignTx_def io_ok notPositive_def split: option.splits)

interpretation bip44: signer_contract
  "\<lambda>E s. fst (bs_Address E s)" "\<lambda>E s p. fst (bs_SignPermit2 E s p)"
  "\<lambda>E s p n v. fst (bs_SignEIP2612 E s p n v)" "\<lambda>E s p n v. fst (bs_SignEIP3009 E s p n v)"
  "\<lambda>E s t c. fst (bs_SignTx E s t c)"
proof
  fix E s a p sp
  assume "sign_recover_law E" "fst (bs_Address E s) = Ok a" "fst (bs_SignPermit2 E s p) = Ok sp"
  then show "\<exists>td. BuildPermit2TypedData p = Ok td \<and> RecoverTypedDataSigner E td (sp_Signature sp) = Ok a"
    unfolding bs_SignPermit2_def by (rule withKey_signs)
next
  fix E s a q n v sp
  assume "sign_recover_law E" "fst (bs_Address E s) = Ok a" "fst (bs_SignEIP2612 E s q n v) = Ok sp"
  then show "\<exists>td. BuildEIP2612TypedData q n v = Ok td \<and> RecoverTypedDataSigner E td (sp_Signature sp) = Ok a"
    unfolding bs_SignEIP2612_def by (rule withKey_signs)
next
  fix E s a r n v sp
  assume "sign_recover_law E" "fst (bs_Address E s) = Ok a" "fst (bs_SignEIP3009 E s r n v) = Ok sp"
  then show "\<exists>td. BuildEIP3009TypedData r n v = Ok td \<and> RecoverTypedDataSigner E td (sp_Signature sp) = Ok a"
    unfolding bs_SignEIP3009_def by (rule withKey_signs)
next
  fix E s t c t'
  assume "sign_tx_law E" "fst (bs_SignTx E s t c) = Ok t'"
  then show "\<exists>u i. t = Some u \<and> c = Some i \<and> 0 < i \<and> tx_payload t' = tx_payload u"
    by (auto simp: io_ok sign_tx_law_def)
qed

lemma bip44_port_still:
  "moves (same id) (sg_Address (bip44_port E s))"
  "moves (same id) (sg_SignTx (bip44_port E s) t c)"
  by (simp_all add: bip44_port_def moves_lift)

text \<open>What a call leaves behind of the key it derived is all zero bytes.\<close>

definition scrubbed :: "agent_key option \<Rightarrow> bool" where
  "scrubbed left \<longleftrightarrow> (\<forall>k. left = Some k \<longrightarrow> ak_PrivateKey k = replicate (length (ak_PrivateKey k)) 0)"

lemma scrubbed_None [simp]: "scrubbed None"
  by (simp add: scrubbed_def)

lemma withKey_scrubbed: "scrubbed (snd (withKey E s f))"
  by (simp add: withKey_def scrubbed_def Zeroize_def map_replicate_const split: res.split)

section \<open>Properties\<close>

text \<open>
  C15: no method of \<open>BIP44Signer\<close> leaves key material in the key it derived: whatever the outcome
  (a signature, an error after the derivation, or a panic of the library inside the call), the
  private key of the \<open>AgentKey\<close> that is left is all zero bytes.
\<close>

theorem signer_zeroizes_every_key:
  "scrubbed (snd (bs_Address E s)) \<and> scrubbed (snd (bs_SignPermit2 E s p)) \<and>
   scrubbed (snd (bs_SignEIP2612 E s q n v)) \<and> scrubbed (snd (bs_SignEIP3009 E s r n v)) \<and>
   scrubbed (snd (bs_SignTx E s t c))"
  unfolding bs_Address_def bs_SignPermit2_def bs_SignEIP2612_def bs_SignEIP3009_def bs_SignTx_def
  by (simp add: withKey_scrubbed split: option.split)

text \<open>Construction has already derived the key once, so a constructed signer has one.\<close>

lemma NewBIP44Signer_derives:
  "NewBIP44Signer E seed coinType account = Ok b \<Longrightarrow>
     \<exists>k. Derive E seed (if coinType = 0 then DefaultCoinType else coinType) account = Ok k \<and>
       bs_derive E (Some b) = Ok k"
  by (auto simp: NewBIP44Signer_def bs_derive_def Let_def io_ok split: if_splits)

definition demo_signer :: bip44_signer where
  "demo_signer = \<lparr>bs_masterSeed = replicate 32 1, bs_coinType = 8453, bs_account = 7\<rparr>"

lemma demo_signer_key: "\<exists>k. bs_derive demo_lib (Some demo_signer) = Ok k \<and> length (ak_PrivateKey k) = 32"
  by (simp add: bs_derive_def demo_signer_def Derive_def deriveHardened_def demo_simps demo_key_def
      bip44Purpose_def)

text \<open>
  C14: a signer that \<open>NewBIP44Signer\<close> built has an address, the one \<open>Derive\<close> gives for its seed,
  coin type (8453 for none) and account, and its signatures are attributed to that address:
  whatever it signs through \<open>SignPermit2\<close>, \<open>SignEIP2612\<close> or \<open>SignEIP3009\<close>,
  \<open>RecoverTypedDataSigner\<close> on the typed data rebuilt from the same parameters gives exactly
  \<open>Address\<close>.
\<close>

theorem signer_signatures_recover_to_address:
  assumes "sign_recover_law E" and "NewBIP44Signer E seed coinType account = Ok b"
  shows "\<exists>k. Derive E seed (if coinType = 0 then DefaultCoinType else coinType) account = Ok k \<and>
     fst (bs_Address E (Some b)) = Ok (ak_Address k) \<and>
     (\<forall>p sp. fst (bs_SignPermit2 E (Some b) p) = Ok sp \<longrightarrow> (\<exists>td. BuildPermit2TypedData p = Ok td \<and>
        RecoverTypedDataSigner E td (sp_Signature sp) = Ok (ak_Address k))) \<and>
     (\<forall>q n v sp. fst (bs_SignEIP2612 E (Some b) q n v) = Ok sp \<longrightarrow> (\<exists>td. BuildEIP2612TypedData q n v = Ok td \<and>
        RecoverTypedDataSigner E td (sp_Signature sp) = Ok (ak_Address k))) \<and>
     (\<forall>r n v sp. fst (bs_SignEIP3009 E (Some b) r n v) = Ok sp \<longrightarrow> (\<exists>td. BuildEIP3009TypedData r n v = Ok td \<and>
        RecoverTypedDataSigner E td (sp_Signature sp) = Ok (ak_Address k)))"
proof -
  from NewBIP44Signer_derives [OF assms(2)] obtain k where
    k: "Derive E seed (if coinType = 0 then DefaultCoinType else coinType) account = Ok k"
    and "bs_derive E (Some b) = Ok k" by blast
  then have a: "fst (bs_Address E (Some b)) = Ok (ak_Address k)" by (simp add: bs_Address_def io_ok)
  from bip44.permit2_law [OF assms(1) a] bip44.eip2612_law [OF assms(1) a] bip44.eip3009_law [OF assms(1) a] k a
  show ?thesis by blast
qed

theorem signer_signatures_recover_to_address_witness:
  "\<exists>k sp td. NewBIP44Signer demo_lib (replicate 32 1) 0 7 = Ok demo_signer \<and>
     Derive demo_lib (replicate 32 1) 8453 7 = Ok k \<and>
     fst (bs_SignPermit2 demo_lib (Some demo_signer) demo_params) = Ok sp \<and>
     BuildPermit2TypedData demo_params = Ok td \<and>
     RecoverTypedDataSigner demo_lib td (sp_Signature sp) = Ok (ak_Address k)"
proof -
  obtain k where k: "bs_derive demo_lib (Some demo_signer) = Ok k" "length (ak_PrivateKey k) = 32"
    using demo_signer_key by blast
  then have "NewBIP44Signer demo_lib (replicate 32 1) 0 7 = Ok demo_signer"
    by (simp add: NewBIP44Signer_def bs_derive_def demo_signer_def DefaultCoinType_def)
  note recovers = this signer_signatures_recover_to_address [OF demo_sign_recover_law this]
  obtain td where td: "BuildPermit2TypedData demo_params = Ok td" using demo_params_build by blast
  have "\<exists>sp. SignTypedData demo_lib (ak_PrivateKey k) td = Ok sp"
    by (simp add: SignTypedData_def demo_simps demo_key_def k Let_def)
  then obtain sp where "fst (bs_SignPermit2 demo_lib (Some demo_signer) demo_params) = Ok sp"
    by (auto simp: bs_SignPermit2_def io_ok k td)
  with recovers td show ?thesis by (fastforce simp: DefaultCoinType_def)
qed

end
