(* ===== verification/GasFunder.thy ===== *)
theory GasFunder
  imports World Permit2
begin

text \<open>
  \<open>src/gasfunder.go\<close>: a hot wallet that tops up an agent's native balance before the agent
  broadcasts, and the fee rule it shares with \<open>buildSignSend\<close> of \<open>spend.go\<close>. \<open>EnsureGas\<close> is split
  at its mutex: \<open>ensureLocked\<close> is the part that runs while the mutex is held.
\<close>

section \<open>Fees\<close>

text \<open>\<open>tipErr != nil || tip == nil || tip.Sign() <= 0\<close> falls back to one million wei.\<close>

definition tipOrDefault :: "error + int option \<Rightarrow> int" where
  "tipOrDefault r =
     (case r of Inr (Some tip) \<Rightarrow> if tip \<le> 0 then 1000000 else tip | _ \<Rightarrow> 1000000)"

text \<open>
  The gas price must be positive. The error wraps \<open>gpErr\<close>, which is nil when the node answered with
  no or a non-positive price; \<open>fmt\<close> prints that as \<open>%!w(<nil>)\<close>.
\<close>

definition gasPriceOf :: "error + int option \<Rightarrow> int res" where
  "gasPriceOf r =
     (case r of
        Inl e \<Rightarrow> Err (Wrap ''gas price: %w'' [] e)
      | Inr p \<Rightarrow>
          if notPositive p then Err (Errorf ''gas price: %w'' [''%!w(<nil>)'']) else Ok (the p))"

definition maxFeeOf :: "int \<Rightarrow> int \<Rightarrow> int" where
  "maxFeeOf gasPrice tip = (let m = gasPrice * 2 in if m < tip then tip else m)"

lemma tipOrDefault_pos: "0 < tipOrDefault r"
  by (auto simp: tipOrDefault_def split: sum.split option.split)

lemma maxFeeOf_ge: "tip \<le> maxFeeOf p tip" and maxFeeOf_price: "2 * p \<le> maxFeeOf p tip"
  by (auto simp: maxFeeOf_def Let_def)

lemma gasPriceOf_Ok_iff [io_ok]: "gasPriceOf r = Ok p \<longleftrightarrow> r = Inr (Some p) \<and> 0 < p"
  by (auto simp: gasPriceOf_def notPositive_def split: sum.splits option.splits)

section \<open>The funder\<close>

record 'w gas_funder =
  gf_rpc :: "'w base_rpc"
  gf_privateKey :: ecdsa_key
  gf_address :: address
  gf_minBalanceWei :: int
  gf_topUpWei :: int
  gf_receiptTimeout :: int
  gf_pollInterval :: int

record fund_result =
  fr_Funded :: bool
  fr_TxHash :: string
  fr_FundedWei :: string
  fr_BalanceWei :: string

definition NewGasFunder ::
  "eth_lib \<Rightarrow> 'w base_rpc option \<Rightarrow> string \<Rightarrow> int option \<Rightarrow> int option \<Rightarrow> 'w gas_funder res" where
  "NewGasFunder E rpc hexKey minBalanceWei topUpWei =
     (case rpc of
        None \<Rightarrow> Err (Errorf ''agentwallet gasfunder: nil rpc'' [])
      | Some r \<Rightarrow>
          let k = trimPrefix (trimSpace hexKey) ''0x'' in
          if k = [] then Err (Errorf ''agentwallet gasfunder: empty private key'' [])
          else
            res_bind (res_wrap ''agentwallet gasfunder: bad private key: %w'' [] (hexToECDSA E k)) (\<lambda>priv.
            Ok \<lparr>gf_rpc = r, gf_privateKey = priv,
                gf_address = pubkeyToAddress E (ek_PublicKey priv),
                gf_minBalanceWei = (if notPositive minBalanceWei then 200000000000000 else the minBalanceWei),
                gf_topUpWei = (if notPositive topUpWei then 1000000000000000 else the topUpWei),
                gf_receiptTimeout = 60 * second, gf_pollInterval = 2 * second\<rparr>))"

definition FunderAddress :: "eth_lib \<Rightarrow> 'w gas_funder \<Rightarrow> string" where
  "FunderAddress E f = addressHex E (gf_address f)"

definition buildAndSend ::
  "eth_lib \<Rightarrow> 'w gas_funder \<Rightarrow> address \<Rightarrow> int \<Rightarrow> ('w, transaction) io" where
  "buildAndSend E f to chainID =
     io_bind (io_wrap ''nonce: %w'' [] (rpc_PendingNonceAt (gf_rpc f) (gf_address f))) (\<lambda>nonce.
     io_bind (io_both (rpc_SuggestGasTipCap (gf_rpc f))) (\<lambda>tipr.
     let tip = tipOrDefault tipr in
     io_bind (io_both (rpc_SuggestGasPrice (gf_rpc f))) (\<lambda>gpr.
     io_bind (lift (gasPriceOf gpr)) (\<lambda>gasPrice.
     let maxFee = maxFeeOf gasPrice tip in
     io_bind (io_both (rpc_EstimateGas (gf_rpc f)
        \<lparr>cm_From = Some (gf_address f), cm_To = Some to, cm_Value = Some (gf_topUpWei f), cm_Data = [],
         cm_GasFeeCap = None, cm_GasTipCap = None\<rparr>)) (\<lambda>estr.
     let gasLimit = (case estr of Inr est \<Rightarrow> if est > 0 then est else 21000 | Inl _ \<Rightarrow> 21000);
         tx = NewTx \<lparr>tx_ChainID = chainID, tx_Nonce = nonce, tx_GasTipCap = tip, tx_GasFeeCap = maxFee,
                tx_Gas = gasLimit, tx_To = to, tx_Value = gf_topUpWei f, tx_Data = []\<rparr> in
     io_bind (io_wrap ''sign: %w'' [] (lift (signTx E tx chainID (gf_privateKey f)))) (\<lambda>sgn.
     io_bind (io_wrap ''broadcast: %w'' [] (rpc_SendTransaction (gf_rpc f) sgn)) (\<lambda>_.
     ret sgn)))))))"

definition fundAgent ::
  "eth_lib \<Rightarrow> 'w runtime \<Rightarrow> 'w gas_funder \<Rightarrow> address \<Rightarrow> int \<Rightarrow> fund_result \<Rightarrow> ('w, fund_result) io" where
  "fundAgent E rt f agent chainID res =
     io_bind (io_wrap ''agentwallet gasfunder: read funder balance: %w'' []
       (rpc_BalanceAt (gf_rpc f) (gf_address f))) (\<lambda>funderBal.
     if funderBal \<le> gf_topUpWei f then
       fail (Errorf ''agentwallet gasfunder: funder %s underfunded (%s wei)''
         [addressHex E (gf_address f), showInt funderBal])
     else
     io_bind (io_wrap ''agentwallet gasfunder: send: %w'' [] (buildAndSend E f agent chainID)) (\<lambda>tx.
     io_bind (io_wrap ''agentwallet gasfunder: funding receipt: %w'' []
       (WaitForReceipt E rt (gf_rpc f) (txHash E tx) (gf_receiptTimeout f) (gf_pollInterval f))) (\<lambda>receipt.
     if rc_Status receipt \<noteq> 1 then
       fail (Errorf ''agentwallet gasfunder: funding tx reverted (%s)'' [hashHex E (txHash E tx)])
     else ret (res\<lparr>fr_Funded := True, fr_TxHash := hashHex E (txHash E tx),
                   fr_FundedWei := showInt (gf_topUpWei f)\<rparr>))))"

definition ensureLocked ::
  "eth_lib \<Rightarrow> 'w runtime \<Rightarrow> 'w gas_funder \<Rightarrow> address \<Rightarrow> int \<Rightarrow> fund_result \<Rightarrow> ('w, fund_result) io" where
  "ensureLocked E rt f agent chainID res =
     io_bind (io_both (rpc_BalanceAt (gf_rpc f) agent)) (\<lambda>b2.
     case b2 of
       Inr bal2 \<Rightarrow>
         if bal2 \<ge> gf_minBalanceWei f then ret (res\<lparr>fr_BalanceWei := showInt bal2\<rparr>)
         else fundAgent E rt f agent chainID res
     | Inl _ \<Rightarrow> fundAgent E rt f agent chainID res)"


text \<open>A funder pointer may be nil: then there is nothing to do.\<close>

definition EnsureGas ::
  "eth_lib \<Rightarrow> 'w runtime \<Rightarrow> 'w gas_funder option \<Rightarrow> string \<Rightarrow> int option \<Rightarrow> ('w, fund_result) io" where
  "EnsureGas E rt funder agentAddress chainID =
     (case funder of
        None \<Rightarrow> ret \<lparr>fr_Funded = False, fr_TxHash = [], fr_FundedWei = [], fr_BalanceWei = []\<rparr>
      | Some f \<Rightarrow>
          if \<not> isHexAddress E agentAddress then
            fail (Errorf ''agentwallet gasfunder: bad agent address %q'' [agentAddress])
          else if notPositive chainID then fail (Errorf ''agentwallet gasfunder: chainID required'' [])
          else
            let agent = hexToAddress E agentAddress in
            io_bind (io_wrap ''agentwallet gasfunder: read agent balance: %w'' []
              (rpc_BalanceAt (gf_rpc f) agent)) (\<lambda>bal.
            let res = \<lparr>fr_Funded = False, fr_TxHash = [], fr_FundedWei = [], fr_BalanceWei = showInt bal\<rparr> in
            if bal \<ge> gf_minBalanceWei f then ret res
            else ensureLocked E rt f agent (the chainID) res))"

section \<open>What a top-up broadcasts\<close>

text \<open>The only transaction a funder with key and amount of \<open>f\<close> broadcasts for an agent.\<close>

definition topUpTx :: "world gas_funder \<Rightarrow> address \<Rightarrow> int \<Rightarrow> transaction \<Rightarrow> bool" where
  "topUpTx f agent chainID t \<longleftrightarrow>
     tx_To (tx_payload t) = agent \<and> tx_Value (tx_payload t) = gf_topUpWei f \<and>
     tx_ChainID (tx_payload t) = chainID \<and> tx_Data (tx_payload t) = [] \<and>
     0 < tx_GasTipCap (tx_payload t) \<and> tx_GasTipCap (tx_payload t) \<le> tx_GasFeeCap (tx_payload t) \<and>
     0 < tx_Gas (tx_payload t)"

lemma send_topUp:
  assumes "silent w u" and "P t" and "rpc_SendTransaction (env_rpc N) t u = Some (r, w')"
  shows "sent P 1 w w' \<and> (\<forall>q. r = Ok q \<longrightarrow>
    (\<exists>es. w_hist w' = w_hist w @ es @ [EvSend t (Ok ())]) \<and> sends (w_hist w') = sends (w_hist w) @ [t])"
  using assms silent_sent_trans [OF assms(1) env_Send_sent [where P = P, OF assms(2,3)]]
  by (auto simp: env_Send_iff silent_def dest: calm_hist)

lemma buildAndSend_wp:
  assumes law: "sign_tx_law E" and rpc: "gf_rpc f = env_rpc N"
  shows "wp (buildAndSend E f agent chainID)
    (\<lambda>r w'. sent (topUpTx f agent chainID) 1 w w' \<and>
       (\<forall>t. r = Ok t \<longrightarrow> topUpTx f agent chainID t \<and>
          (\<exists>es. w_hist w' = w_hist w @ es @ [EvSend t (Ok ())]) \<and>
          sends (w_hist w') = sends (w_hist w) @ [t])) w"
    (is "wp _ ?Q w")
proof -
  have err: "?Q (Err e) w'" "?Q Panic w'" if "silent w w'" for e w'
    using that by (simp_all add: silent_sent)
  have send: "wp (io_bind (io_wrap s as (rpc_SendTransaction (env_rpc N) t)) (\<lambda>_. ret t)) ?Q u"
    if u: "silent w u" and t: "topUpTx f agent chainID t" for s as t u
  proof -
    have "wp (rpc_SendTransaction (env_rpc N) t)
      (\<lambda>r w'. case res_wrap s as r of Ok _ \<Rightarrow> ?Q (Ok t) w' | Err e \<Rightarrow> ?Q (Err e) w' | Panic \<Rightarrow> ?Q Panic w') u"
      using send_topUp [where P = "topUpTx f agent chainID", OF u t] t
      by (intro wpI) (auto split: res.split)
    then show ?thesis unfolding wp_bind wp_wrap wp_ret .
  qed
  show ?thesis
    unfolding buildAndSend_def rpc Let_def
    apply (rule wp_silent_bind [of _ w], intro moves_intros, rule silent_refl)
      defer apply (erule err)+
    apply (rule wp_silent_bind [of _ w], intro moves_intros, assumption)
      defer apply (erule err)+
    apply (rule wp_silent_bind [of _ w], intro moves_intros, assumption)
      defer apply (erule err)+
    apply (rule wp_silent_lift [of w], assumption)
      defer apply (erule err)+
    apply (rule wp_silent_bind [of _ w], intro moves_intros, assumption)
      defer apply (erule err)+
    apply (rule wp_silent_bind [of _ w], intro moves_intros, assumption)
      defer apply (erule err)+
    using law
    by (intro send)
      (auto simp: io_ok sign_tx_law_def topUpTx_def NewTx_def maxFeeOf_ge tipOrDefault_pos word_gt_0
        split: sum.split)
qed


text \<open>
  What funding one agent guarantees, from the world \<open>w\<close> in which \<open>EnsureGas\<close> was called: at most one
  broadcast, a top-up, and it is reported exactly when it is confirmed.
\<close>

definition fundingDone :: "eth_lib \<Rightarrow> world gas_funder \<Rightarrow> address \<Rightarrow> int \<Rightarrow> world \<Rightarrow> fund_result res \<Rightarrow> world \<Rightarrow> bool" where
  "fundingDone E f agent chainID w r w' \<longleftrightarrow>
     sent (topUpTx f agent chainID) 1 w w' \<and>
     (\<forall>t\<in>set (sends (news w w')).
        \<exists>fb. EvBalance (gf_address f) (Ok fb) \<in> set (news w w') \<and> gf_topUpWei f < fb) \<and>
     (\<forall>res. r = Ok res \<longrightarrow>
        (if fr_Funded res then
           (\<exists>t. sends (news w w') = [t] \<and> topUpTx f agent chainID t \<and>
                confirmed E t (news w w') \<and> fr_TxHash res = hashHex E (txHash E t))
         else sends (news w w') = [] \<and>
           (\<exists>b. EvBalance agent (Ok b) \<in> set (news w w') \<and> gf_minBalanceWei f \<le> b \<and>
                fr_BalanceWei res = showInt b)))"

lemma fundingDone_failed: "silent w w' \<Longrightarrow> \<not> isOk r \<Longrightarrow> fundingDone E f agent chainID w r w'"
  by (auto simp: fundingDone_def silent_sent silent_news)

lemma env_Balance_Ok:
  "rpc_BalanceAt (env_rpc N) a w = Some (Ok b, w') \<Longrightarrow> w_hist w' = w_hist w @ [EvBalance a (Ok b)]"
  by (auto simp: env_rpc_simps ask_Some_iff)

text \<open>A balance that was read stays in the record of the call.\<close>

lemma balance_in_news:
  assumes "calm w u" and "rpc_BalanceAt (env_rpc N) a u = Some (Ok b, v)" and "calm v w'"
  shows "EvBalance a (Ok b) \<in> set (news w w')"
proof -
  have v: "calm u v" using assms(2) env_rpc_calm(5) by (rule movesD [rotated])
  have "news w w' = news w u @ [EvBalance a (Ok b)] @ news v w'"
    using news_trans [OF assms(1) calm_trans [OF v assms(3)]] news_trans [OF v assms(3)]
      news_append [OF env_Balance_Ok [OF assms(2)]] by simp
  then show ?thesis by simp
qed

text \<open>The end of a funding whose transaction \<open>t\<close> was built in the world \<open>x\<close>.\<close>

lemma fundingDone_built:
  assumes law: "sign_tx_law E" and rpc: "gf_rpc f = env_rpc N"
    and from_w: "silent w u" and bal: "rpc_BalanceAt (env_rpc N) (gf_address f) u = Some (Ok fb, v)"
    and fb: "gf_topUpWei f < fb" and build: "buildAndSend E f agent chainID v = Some (q, x)"
    and x: "silent x w'"
    and ok: "\<And>rs. r = Ok rs \<Longrightarrow> \<exists>t. q = Ok t \<and> fr_Funded rs \<and> fr_TxHash rs = hashHex E (txHash E t) \<and>
        confirmed E t (news w w')"
  shows "fundingDone E f agent chainID w r w'"
proof -
  have v: "silent u v" using bal env_rpc_silent(5) by (rule movesD [rotated])
  from wpD [OF buildAndSend_wp [OF law rpc] build]
  have b: "sent (topUpTx f agent chainID) 1 v x"
    and t: "\<And>t. q = Ok t \<Longrightarrow> topUpTx f agent chainID t \<and> sends (w_hist x) = sends (w_hist v) @ [t]"
    by auto
  have w: "silent w v" using from_w v by (rule silent_trans)
  have s: "sent (topUpTx f agent chainID) 1 w w'"
    using sent_silent [OF silent_sent_trans [OF w b] x] .
  have cv: "calm v w'" using b x by (auto simp: sent_def dest: silent_calm intro: calm_trans)
  have ev: "EvBalance (gf_address f) (Ok fb) \<in> set (news w w')"
    using balance_in_news [OF silent_calm [OF from_w] bal cv] .
  have "sends (news w w') = [t]" if "q = Ok t" for t
    using t [OF that] w x s sends_news [of w w'] by (auto simp: silent_def sent_def)
  with s ev fb t ok show ?thesis unfolding fundingDone_def by fastforce
qed

text \<open>A top-up that was broadcast is reported as funded only after its receipt.\<close>

lemma top_up_awaited:
  assumes law: "sign_tx_law E" and rpc: "gf_rpc f = env_rpc N" and from_w: "silent w u"
    and bal: "rpc_BalanceAt (env_rpc N) (gf_address f) u = Some (Ok fb, v)" and fb: "gf_topUpWei f < fb"
    and build: "buildAndSend E f agent chainID v = Some (Ok tx, x)"
  shows "wp (io_bind (io_wrap s [] (WaitForReceipt E (env_runtime N) (env_rpc N) (txHash E tx) tmo poll)) (\<lambda>receipt.
      if rc_Status receipt \<noteq> 1 then fail (e tx)
      else ret (res\<lparr>fr_Funded := True, fr_TxHash := hashHex E (txHash E tx), fr_FundedWei := tu\<rparr>)))
    (fundingDone E f agent chainID w) x"
  unfolding wp_bind wp_wrap
proof (rule wp_call [OF WaitForReceipt_silent], goal_cases)
  case (1 rc w')
  note fin = fundingDone_built [OF law rpc from_w bal fb build]
  from wpD [OF buildAndSend_wp [OF law rpc] build] obtain es
    where es: "w_hist x = w_hist v @ es @ [EvSend tx (Ok ())]" and vx: "calm v x"
    by (auto simp: sent_def)
  have wv: "calm w v"
    using silent_calm [OF from_w] bal movesD [OF env_rpc_calm(5)] calm_trans by metis
  have conf: "confirmed E tx (news w w')" if "rc_Status rc = 1"
    using confirmed_news [OF WaitForReceipt_confirmed [OF 1(2) es that] wv
        calm_trans [OF vx silent_calm [OF 1(1)]] calm_refl] .
  show ?case
    unfolding res_wrap.simps res.case wp_if wp_fail wp_ret
    using conf by (intro conjI impI fin [OF 1(1)]) auto
qed (auto intro!: fundingDone_built [OF law rpc from_w bal fb build])

lemma fundAgent_wp:
  assumes law: "sign_tx_law E" and rpc: "gf_rpc f = env_rpc N" and from_w: "silent w u"
  shows "wp (fundAgent E (env_runtime N) f agent chainID res) (fundingDone E f agent chainID w) u"
proof -
  have go: "wp (io_bind (io_wrap s1 [] (buildAndSend E f agent chainID)) (\<lambda>tx.
      io_bind (io_wrap s2 [] (WaitForReceipt E (env_runtime N) (env_rpc N) (txHash E tx) tmo poll)) (\<lambda>receipt.
      if rc_Status receipt \<noteq> 1 then fail (e tx)
      else ret (res\<lparr>fr_Funded := True, fr_TxHash := hashHex E (txHash E tx), fr_FundedWei := tu\<rparr>))))
      (fundingDone E f agent chainID w) v"
    if bal: "rpc_BalanceAt (env_rpc N) (gf_address f) u = Some (Ok fb, v)" and fb: "gf_topUpWei f < fb"
    for fb v s1 s2 tmo poll e tu
    unfolding wp_bind [of "io_wrap s1 [] _"] wp_wrap [of s1]
  proof (rule wpI)
    fix q x
    assume build: "buildAndSend E f agent chainID v = Some (q, x)"
    let ?rest = "\<lambda>tx. io_bind (io_wrap s2 [] (WaitForReceipt E (env_runtime N) (env_rpc N) (txHash E tx) tmo poll))
        (\<lambda>receipt. if rc_Status receipt \<noteq> 1 then fail (e tx)
          else ret (res\<lparr>fr_Funded := True, fr_TxHash := hashHex E (txHash E tx), fr_FundedWei := tu\<rparr>))"
    show "case res_wrap s1 [] q of
        Ok tx \<Rightarrow> wp (?rest tx) (fundingDone E f agent chainID w) x
      | Err e \<Rightarrow> fundingDone E f agent chainID w (Err e) x
      | Panic \<Rightarrow> fundingDone E f agent chainID w Panic x"
    proof (cases q)
      case (Ok tx)
      with build top_up_awaited [OF law rpc from_w bal fb] show ?thesis by simp
    qed (auto intro!: fundingDone_built [OF law rpc from_w bal fb build])
  qed
  show ?thesis
    unfolding fundAgent_def rpc
    by (rule wp_silent_bind [of _ w], intro moves_intros, rule from_w)
      (auto simp: io_ok wp_if wp_fail fundingDone_failed intro!: go)
qed

lemma env_Balance_done:
  assumes "calm w u" and "rpc_BalanceAt (env_rpc N) agent u = Some (Ok b, w')" and "silent w w'"
    and "gf_minBalanceWei f \<le> b" and "\<not> fr_Funded res" and "fr_BalanceWei res = showInt b"
  shows "fundingDone E f agent chainID w (Ok res) w'"
  using assms balance_in_news [OF assms(1,2) calm_refl]
  by (auto simp: fundingDone_def silent_sent silent_news)

lemma ensureLocked_wp:
  assumes law: "sign_tx_law E" and rpc: "gf_rpc f = env_rpc N" and from_w: "silent w u"
    and res: "\<not> fr_Funded res"
  shows "wp (ensureLocked E (env_runtime N) f agent chainID res) (fundingDone E f agent chainID w) u"
  unfolding ensureLocked_def rpc
proof (rule wp_silent_bind [OF _ from_w], goal_cases)
  case (2 b2 v)
  show ?case
  proof (cases b2)
    case (Inl e)
    then show ?thesis using fundAgent_wp [OF law rpc 2(2)] by simp
  next
    case (Inr bal2)
    with 2(1) have "rpc_BalanceAt (env_rpc N) agent u = Some (Ok bal2, v)" by (simp add: io_ok)
    then have "fundingDone E f agent chainID w (Ok (res\<lparr>fr_BalanceWei := showInt bal2\<rparr>)) v"
      if "gf_minBalanceWei f \<le> bal2"
      using that 2(2) res silent_calm [OF from_w] by (intro env_Balance_done) simp_all
    then show ?thesis using Inr fundAgent_wp [OF law rpc 2(2)] by (simp add: wp_simps)
  qed
qed (intro moves_intros, simp_all add: fundingDone_failed)

lemma EnsureGas_wp:
  assumes law: "sign_tx_law E" and rpc: "gf_rpc f = env_rpc N"
    and addr: "isHexAddress E agentAddress" and chain: "chainID = Some c"
  shows "wp (EnsureGas E (env_runtime N) (Some f) agentAddress chainID)
    (fundingDone E f (hexToAddress E agentAddress) c w) w"
proof -
  let ?agent = "hexToAddress E agentAddress"
  have "wp (io_bind (io_wrap s [] (rpc_BalanceAt (env_rpc N) ?agent)) (\<lambda>bal.
      if bal \<ge> gf_minBalanceWei f then ret (res bal)
      else ensureLocked E (env_runtime N) f ?agent c (res bal))) (fundingDone E f ?agent c w) w"
    if res: "\<And>b. \<not> fr_Funded (res b) \<and> fr_BalanceWei (res b) = showInt b" for s res
  proof (rule wp_silent_bind [of _ w], goal_cases)
    case (3 bal v)
    then have "rpc_BalanceAt (env_rpc N) ?agent w = Some (Ok bal, v)" by (simp add: io_ok)
    then show ?case
      using 3(2) res ensureLocked_wp [OF law rpc 3(2)] env_Balance_done [OF calm_refl]
      by (simp add: wp_simps)
  qed (intro moves_intros, simp_all add: fundingDone_failed)
  from this [of "\<lambda>b. \<lparr>fr_Funded = False, fr_TxHash = [], fr_FundedWei = [], fr_BalanceWei = showInt b\<rparr>"]
  show ?thesis
    unfolding EnsureGas_def addr chain rpc Let_def option.sel option.case wp_if wp_fail
    by (simp add: addr fundingDone_failed)
qed

section \<open>The port\<close>

text \<open>The \<open>GasFunder\<close> interface; the funder may answer with a nil result.\<close>

type_synonym 'w gas_port = "string \<Rightarrow> int option \<Rightarrow> ('w, fund_result option) io"

definition gas_port_of :: "eth_lib \<Rightarrow> 'w runtime \<Rightarrow> 'w gas_funder \<Rightarrow> 'w gas_port" where
  "gas_port_of E rt f a c = io_bind (EnsureGas E rt (Some f) a c) (\<lambda>r. ret (Some r))"

text \<open>
  What a client relies on: a call broadcasts at most one transaction, a top-up for the agent it was
  asked for, and says so exactly when the top-up is confirmed. \<open>ready\<close> is what the provider needs.
\<close>

locale gas_source =
  fixes E :: eth_lib
    and ready :: "'f \<Rightarrow> bool"
    and gas :: "'f \<Rightarrow> world gas_port"
    and topUp :: "'f \<Rightarrow> string \<Rightarrow> int option \<Rightarrow> transaction \<Rightarrow> bool"
  assumes gas_sent: "ready f \<Longrightarrow> gas f a c w = Some (r, w') \<Longrightarrow> sent (topUp f a c) 1 w w'"
    and gas_funded: "ready f \<Longrightarrow> gas f a c w = Some (Ok (Some fr), w') \<Longrightarrow> fr_Funded fr \<Longrightarrow>
      \<exists>t. sends (news w w') = [t] \<and> confirmed E t (news w w') \<and> fr_TxHash fr = hashHex E (txHash E t)"
    and gas_unfunded: "ready f \<Longrightarrow> gas f a c w = Some (Ok x, w') \<Longrightarrow>
      (\<And>fr. x = Some fr \<Longrightarrow> \<not> fr_Funded fr) \<Longrightarrow> sends (news w w') = []"
begin

lemma broadcasts_in: "ready f \<Longrightarrow> (\<And>t. topUp f a c t \<Longrightarrow> G t) \<Longrightarrow> moves (sent G 1) (gas f a c)"
  using gas_sent unfolding moves_def sent_def by blast

lemma calm_call: "ready f \<Longrightarrow> moves calm (gas f a c)"
  using broadcasts_in [of f a c "\<lambda>_. True"] by (auto simp: moves_def sent_def)

text \<open>A top-up that is sent is reported, with its hash, by a call that succeeds.\<close>

lemma reported_iff:
  assumes "ready f" and run: "gas f a c w = Some (Ok x, w')"
  shows "(\<exists>t. sends (news w w') = [t] \<and> topUp f a c t) \<longleftrightarrow> (\<exists>fr. x = Some fr \<and> fr_Funded fr)"
proof -
  have sent: "\<forall>t\<in>set (sends (news w w')). topUp f a c t"
    using sent_news [OF gas_sent [OF assms]] by blast
  show ?thesis
  proof (cases "\<exists>fr. x = Some fr \<and> fr_Funded fr")
    case True
    with gas_funded [OF assms(1)] run sent show ?thesis by fastforce
  next
    case False
    with gas_unfunded [OF assms] show ?thesis by auto
  qed
qed

end

text \<open>\<open>RealGasFunder\<close> on a node provides it.\<close>

lemma EnsureGas_done:
  assumes "sign_tx_law E" and "gf_rpc f = env_rpc N"
    and run: "EnsureGas E (env_runtime N) (Some f) a c w = Some (r, w')"
  shows "(silent w w' \<and> \<not> isOk r) \<or>
    (\<exists>i. c = Some i \<and> isHexAddress E a \<and> fundingDone E f (hexToAddress E a) i w r w')"
proof (cases "isHexAddress E a \<and> \<not> notPositive c")
  case True
  then obtain i where "c = Some i" "isHexAddress E a" by (auto simp: notPositive_iff)
  with wpD [OF EnsureGas_wp [OF assms(1,2)] run] show ?thesis by blast
next
  case False
  with run show ?thesis by (auto simp: EnsureGas_def split: if_splits)
qed

lemma gas_port_done:
  assumes "sign_tx_law E" and "gf_rpc f = env_rpc N"
    and run: "gas_port_of E (env_runtime N) f a c w = Some (r, w')"
  shows "(silent w w' \<and> \<not> isOk r) \<or>
    (\<exists>i q. c = Some i \<and> isHexAddress E a \<and> fundingDone E f (hexToAddress E a) i w q w' \<and>
       (\<forall>x. r = Ok x \<longrightarrow> (\<exists>fr. q = Ok fr \<and> x = Some fr)))"
proof -
  from run obtain q where ens: "EnsureGas E (env_runtime N) (Some f) a c w = Some (q, w')"
    and r: "\<forall>x. r = Ok x \<longrightarrow> (\<exists>fr. q = Ok fr \<and> x = Some fr)" and bad: "isOk q \<longleftrightarrow> isOk r"
    by (auto simp: gas_port_of_def io_bind_Some_iff)
  from EnsureGas_done [OF assms(1,2) ens] r bad show ?thesis by blast
qed

interpretation funder: gas_source E "\<lambda>f. sign_tx_law E \<and> gf_rpc f = env_rpc N" "gas_port_of E (env_runtime N)"
  "\<lambda>f a c t. \<exists>i. c = Some i \<and> isHexAddress E a \<and> topUpTx f (hexToAddress E a) i t" for E N
proof (unfold_locales, goal_cases)
  case (1 f a c w r w')
  then have "sign_tx_law E" "gf_rpc f = env_rpc N" by simp_all
  from gas_port_done [OF this 1(2)] show ?case
    by (auto simp: fundingDone_def silent_def sent_def)
next
  case (2 f a c w fr w')
  then have "sign_tx_law E" "gf_rpc f = env_rpc N" by simp_all
  from gas_port_done [OF this 2(2)] 2(3) show ?case
    by (auto simp: fundingDone_def)
next
  case (3 f a c w x w')
  then have "sign_tx_law E" "gf_rpc f = env_rpc N" by simp_all
  from gas_port_done [OF this 3(2)] 3(3) show ?case
    by (auto simp: fundingDone_def split: if_splits)
qed

text \<open>What the constructor guarantees of a funder.\<close>

lemma NewGasFunder_ready:
  "NewGasFunder E rpc hexKey m t = Ok f \<Longrightarrow>
     rpc = Some (gf_rpc f) \<and> 0 < gf_topUpWei f \<and> 0 < gf_minBalanceWei f \<and>
     gf_address f = pubkeyToAddress E (ek_PublicKey (gf_privateKey f))"
  by (auto simp: NewGasFunder_def Let_def io_ok notPositive_iff split: option.splits if_splits)

section \<open>Properties\<close>

text \<open>
  C24: \<open>EnsureGas\<close> of a funder that \<open>NewGasFunder\<close> built broadcasts at most one transaction per
  call, whatever the node answers; that transaction is a plain transfer of exactly the top-up
  amount, which is positive, to the agent on the given chain, with a positive tip that the fee cap
  covers, and it is broadcast only for a well-formed agent address and only after the funder's
  balance was read to be greater than the top-up. It reports \<open>Funded\<close> only when that transaction
  was accepted and a receipt with status 1 was read for its hash, and it reports success without
  funding only when nothing was broadcast and the agent's balance was read to be at least the
  minimum, the balance it returns.
\<close>

theorem ensure_gas_single_confirmed_top_up:
  assumes "sign_tx_law E" and "NewGasFunder E (Some (env_rpc N)) hexKey minBalanceWei topUpWei = Ok f"
    and "EnsureGas E (env_runtime N) (Some f) agentAddress chainID w = Some (r, w')"
  shows "calm w w' \<and> length (sends (news w w')) \<le> 1 \<and>
    (\<forall>t\<in>set (sends (news w w')). \<exists>c. chainID = Some c \<and> isHexAddress E agentAddress \<and>
       topUpTx f (hexToAddress E agentAddress) c t \<and> 0 < tx_Value (tx_payload t) \<and>
       (\<exists>fb. EvBalance (gf_address f) (Ok fb) \<in> set (news w w') \<and> tx_Value (tx_payload t) < fb)) \<and>
    (\<forall>res. r = Ok res \<longrightarrow>
       (if fr_Funded res then
          (\<exists>t. sends (news w w') = [t] \<and> confirmed E t (news w w') \<and>
               fr_TxHash res = hashHex E (txHash E t))
        else sends (news w w') = [] \<and>
          (\<exists>b. EvBalance (hexToAddress E agentAddress) (Ok b) \<in> set (news w w') \<and>
               gf_minBalanceWei f \<le> b \<and> fr_BalanceWei res = showInt b)))"
proof -
  from NewGasFunder_ready [OF assms(2)] have f: "gf_rpc f = env_rpc N" "0 < gf_topUpWei f" by simp_all
  from EnsureGas_done [OF assms(1) f(1) assms(3)] show ?thesis
  proof (elim disjE exE conjE)
    assume "silent w w'" "\<not> isOk r"
    then show ?thesis by (simp add: silent_news silent_calm isOk_iff)
  next
    fix c
    assume c: "chainID = Some c" "isHexAddress E agentAddress"
      and d: "fundingDone E f (hexToAddress E agentAddress) c w r w'"
    from d sent_news have "\<forall>t\<in>set (sends (news w w')). topUpTx f (hexToAddress E agentAddress) c t"
      "length (sends (news w w')) \<le> 1" unfolding fundingDone_def by blast+
    with c d f(2) show ?thesis unfolding fundingDone_def sent_def topUpTx_def by fastforce
  qed
qed

text \<open>A funder with a minimum of 100 and a top-up of 50 wei, on the demo node.\<close>

definition demo_funder :: "world gas_funder" where
  "demo_funder =
    \<lparr>gf_rpc = env_rpc demo_env, gf_privateKey = \<lparr>ek_PublicKey = (5, 0), ek_D = 5\<rparr>, gf_address = 5,
     gf_minBalanceWei = 100, gf_topUpWei = 50, gf_receiptTimeout = 60 * second, gf_pollInterval = 2 * second\<rparr>"

definition demo_hex_key :: string where
  "demo_hex_key = ''0x'' @ hexEncode (beBytes 32 5)"

lemma demo_funder_built: "NewGasFunder demo_lib (Some (env_rpc demo_env)) demo_hex_key (Some 100) (Some 50) = Ok demo_funder"
proof -
  have "trimSpace demo_hex_key = demo_hex_key"
    unfolding demo_hex_key_def using hexEncode_hex isHexChar_plain
    by (intro trimSpace_all_plain) (auto simp: plain_def code_def)
  moreover have "trimPrefix demo_hex_key ''0x'' = hexEncode (beBytes 32 5)"
    unfolding demo_hex_key_def by (rule trimPrefix_append)
  moreover have "hexEncode (beBytes 32 5) \<noteq> []" by (simp flip: length_0_conv)
  ultimately show ?thesis
    by (simp add: NewGasFunder_def Let_def demo_simps demo_key_def demo_funder_def notPositive_def beNat_beBytes)
qed

lemma demo_buildAndSend:
  "\<exists>t w'. buildAndSend demo_lib demo_funder a c w = Some (Ok t, w')"
  by (simp add: buildAndSend_def Let_def demo_calls demo_funder_def io_bind_def io_try_def io_wrap_def
      io_both_def ret_def lift_def gasPriceOf_def notPositive_def demo_simps)

lemma demo_ensure_gas:
  "\<exists>res w'. EnsureGas demo_lib (env_runtime demo_env) (Some demo_funder) (demo_address_text 2) (Some 8453)
     demo_world = Some (Ok res, w') \<and> fr_Funded res"
proof -
  obtain t w' where b: "\<And>w. buildAndSend demo_lib demo_funder 2 8453 w = Some (Ok (t w), w' w)"
    using demo_buildAndSend by metis
  have f: "gf_rpc demo_funder = env_rpc demo_env" "gf_address demo_funder = 5"
    "gf_minBalanceWei demo_funder = 100" "gf_topUpWei demo_funder = 50" by (simp_all add: demo_funder_def)
  show ?thesis
    by (simp add: EnsureGas_def ensureLocked_def fundAgent_def Let_def io_bind_def io_try_def
      io_wrap_def io_both_def ret_def fail_def demo_wait demo_calls b f notPositive_def)
qed

theorem ensure_gas_single_confirmed_top_up_witness:
  "\<exists>res w' t. EnsureGas demo_lib (env_runtime demo_env) (Some demo_funder) (demo_address_text 2) (Some 8453)
     demo_world = Some (Ok res, w') \<and> sends (news demo_world w') = [t] \<and> confirmed demo_lib t (news demo_world w')"
proof -
  obtain res w' where run: "EnsureGas demo_lib (env_runtime demo_env) (Some demo_funder) (demo_address_text 2)
      (Some 8453) demo_world = Some (Ok res, w')" and f: "fr_Funded res"
    using demo_ensure_gas by blast
  from ensure_gas_single_confirmed_top_up [OF demo_sign_tx_law demo_funder_built run] run f show ?thesis
    by fastforce
qed

end
