(* ===== verification/Authorize.thy ===== *)
theory Authorize
  imports TypedData World
begin

text \<open>
  \<open>src/authorize.go\<close>: verification and caching of a user's signed Permit2 authorization. The lemmas
  say what is known of an authorization that was accepted, in terms of the rows of the store, and
  that the text of the signature that is cached decodes to the signature that was verified.
\<close>

section \<open>Model\<close>

definition normalizeSigHex :: "string \<Rightarrow> string" where
  "normalizeSigHex s =
     (let t = trimPrefix (trimPrefix (trimSpace s) ''0x'') ''0X'' in
      if length t \<noteq> 130 then []
      else if \<exists>c\<in>set t. \<not> isHexChar c then []
      else ''0x'' @ toLower t)"

text \<open>The row that is cached.\<close>

definition cachedRow :: "permit2_params \<Rightarrow> string \<Rightarrow> string \<Rightarrow> i64 \<Rightarrow> authorization" where
  "cachedRow params sig claimedOwner now =
    \<lparr>au_Owner = claimedOwner, au_Agent = pp_Spender params, au_Token = pp_Token params,
     au_AmountAtoms = pp_Amount params, au_Expiration = pp_Deadline params, au_Nonce = pp_Nonce params,
     au_SignatureHex = sig, au_SpentAtoms = [], au_Revoked = False, au_OnchainLocked = False,
     au_CreatedAtUnix = now\<rparr>"

definition VerifyAndCache ::
  "eth_lib \<Rightarrow> 'w auth_store option \<Rightarrow> permit2_params \<Rightarrow> string \<Rightarrow> string \<Rightarrow> string \<Rightarrow> i64 \<Rightarrow> ('w, unit) io"
where
  "VerifyAndCache E store params signatureHex claimedOwner expectedAgent now =
     (case store of
        None \<Rightarrow> fail (Errorf ''agentwallet authorizer: not configured'' [])
      | Some st \<Rightarrow>
          if pp_Amount params = [] \<or> pp_Amount params = ''0'' then
            fail (Errorf ''agentwallet authorize: amount must be > 0'' [])
          else if sint (pp_Deadline params) \<le> sint now then
            fail (Errorf ''agentwallet authorize: deadline already passed'' [])
          else if \<not> looksLikeAddress claimedOwner then
            fail (Errorf ''agentwallet authorize: invalid owner address'' [])
          else if \<not> equalFold expectedAgent (pp_Spender params) then
            fail (Errorf ''agentwallet authorize: spender %s != expected agent %s'' [pp_Spender params, expectedAgent])
          else
          io_bind (io_wrap ''agentwallet authorize: rebuild typed data: %w'' []
            (lift (BuildPermit2TypedData params))) (\<lambda>td.
          io_bind (io_wrap ''agentwallet authorize: %w'' []
            (lift (RecoverTypedDataSigner E td signatureHex))) (\<lambda>recovered.
          if \<not> equalFold recovered claimedOwner then
            fail (Errorf ''agentwallet authorize: signature recovers to %s, expected owner %s'' [recovered, claimedOwner])
          else
            let sig = normalizeSigHex signatureHex in
            if sig = [] then fail (Errorf ''agentwallet authorize: malformed signature'' [])
            else
            io_bind (io_wrap ''agentwallet authorize: upsert: %w'' []
              (st_Upsert st (cachedRow params sig claimedOwner now))) (\<lambda>_.
            ret ()))))"

section \<open>Lemmas\<close>

text \<open>A text that \<open>decodeSig65\<close> accepts is normalised to the lower-case text of the same bytes.\<close>

lemma normalizeSigHex_decoded:
  assumes "decodeSig65 s = Ok b"
  obtains raw where "normalizeSigHex s = ''0x'' @ toLower (trimPrefix (trimSpace s) ''0x'')"
    and "hexDecode (trimPrefix (trimSpace s) ''0x'') = Ok raw" and "length raw = 65"
    and "b = (if raw ! 64 \<ge> 27 then raw[64 := raw ! 64 - 27] else raw)"
proof -
  let ?t = "trimPrefix (trimSpace s) ''0x''"
  from decodeSig65_Ok [OF assms] obtain raw where raw: "hexDecode ?t = Ok raw" "length raw = 65"
    "length ?t = 130" "b = (if raw ! 64 \<ge> 27 then raw[64 := raw ! 64 - 27] else raw)" by blast
  have hex: "\<forall>c\<in>set ?t. isHexChar c" by (rule hexDecode_hex [OF raw(1)])
  have "\<not> hasPrefix ?t ''0X''"
  proof
    assume "hasPrefix ?t ''0X''"
    then have "CHR ''X'' \<in> set ?t" by (elim hasPrefixE) simp
    with hex show False by (auto simp: isHexChar_iff code_def)
  qed
  then have "normalizeSigHex s = ''0x'' @ toLower ?t"
    using raw hex by (simp add: normalizeSigHex_def trimPrefix_def [of _ "''0X''"])
  with raw show thesis by (intro that)
qed

lemma RecoverTypedDataSigner_decodes:
  "RecoverTypedDataSigner E td s = Ok a \<Longrightarrow> \<exists>b. decodeSig65 s = Ok b"
  by (auto simp: RecoverTypedDataSigner_def io_ok)

lemma VerifyAndCache_Ok:
  assumes "VerifyAndCache E (Some st) params sigHex owner agent now w = Some (Ok u, w')"
  shows "pp_Amount params \<noteq> [] \<and> pp_Amount params \<noteq> ''0'' \<and> sint now < sint (pp_Deadline params) \<and>
    looksLikeAddress owner \<and> equalFold agent (pp_Spender params) \<and>
    (\<exists>td a. BuildPermit2TypedData params = Ok td \<and> RecoverTypedDataSigner E td sigHex = Ok a \<and>
       equalFold a owner) \<and>
    (\<exists>e. st_Upsert st (cachedRow params (normalizeSigHex sigHex) owner now) w = Some (Ok e, w'))"
  using assms
  by (auto simp: VerifyAndCache_def io_ok Let_def dest!: sym [of "Ok _"] split: if_splits)

text \<open>The checks of the pipeline, and that nothing else can refuse.\<close>

definition acceptable :: "eth_lib \<Rightarrow> permit2_params \<Rightarrow> string \<Rightarrow> string \<Rightarrow> string \<Rightarrow> i64 \<Rightarrow> bool" where
  "acceptable E params sigHex owner agent now \<longleftrightarrow>
     pp_Amount params \<noteq> [] \<and> pp_Amount params \<noteq> ''0'' \<and> sint now < sint (pp_Deadline params) \<and>
     looksLikeAddress owner \<and> equalFold agent (pp_Spender params) \<and>
     (\<exists>td a. BuildPermit2TypedData params = Ok td \<and> RecoverTypedDataSigner E td sigHex = Ok a \<and>
        equalFold a owner)"

lemma VerifyAndCache_accepts:
  assumes "acceptable E params sigHex owner agent now"
  shows "VerifyAndCache E (Some memory_store) params sigHex owner agent now w =
    Some (Ok (), w\<lparr>w_rows := snd (ms_Upsert (cachedRow params (normalizeSigHex sigHex) owner now) (w_rows w))\<rparr>)"
proof -
  from assms obtain td a where td: "BuildPermit2TypedData params = Ok td"
    and rec: "RecoverTypedDataSigner E td sigHex = Ok a" "equalFold a owner" unfolding acceptable_def by blast
  from RecoverTypedDataSigner_decodes [OF rec(1)] obtain b where "decodeSig65 sigHex = Ok b" ..
  then obtain raw where "normalizeSigHex sigHex = ''0x'' @ toLower (trimPrefix (trimSpace sigHex) ''0x'')"
    by (rule normalizeSigHex_decoded)
  with assms td rec show ?thesis
    by (simp add: acceptable_def VerifyAndCache_def Let_def io_bind_def io_try_def io_wrap_def lift_def ret_def
        memory_store_def not_le split: prod.split)
qed

lemma VerifyAndCache_Ok_iff:
  assumes "VerifyAndCache E (Some memory_store) params sigHex owner agent now w = Some (r, w')"
  shows "isOk r \<longleftrightarrow> acceptable E params sigHex owner agent now"
proof
  assume "isOk r"
  with assms show "acceptable E params sigHex owner agent now"
    unfolding acceptable_def isOk_iff by (auto dest: VerifyAndCache_Ok)
next
  assume "acceptable E params sigHex owner agent now"
  from VerifyAndCache_accepts [OF this, of w] assms show "isOk r" by simp
qed

lemma VerifyAndCache_not_Ok:
  assumes "VerifyAndCache E (Some memory_store) params sigHex owner agent now w = Some (r, w')"
    and "\<not> isOk r"
  shows "w' = w"
  using assms
  by (auto simp: VerifyAndCache_def Let_def io_bind_Some_iff io_wrap_def io_try_Some_iff memory_store_eval
      split: if_splits)

lemma cachedRow_readable [simp]: "readable (cachedRow params sig owner now)"
  by (simp add: readable_def cachedRow_def orZero_Nil)

lemma cachedRow_usable:
  "usable t (cachedRow params sig owner now) \<longleftrightarrow> sint t < sint (pp_Deadline params)"
  by (simp add: usable_def cachedRow_def)

lemma hasSignature_hex:
  assumes "\<forall>c\<in>set t. plain c" and "t \<noteq> []" and "au_SignatureHex r = t"
  shows "hasSignature r"
  using trimSpace_all_plain [OF assms(1)] assms(2,3) by (simp add: hasSignature_def)

lemma cachedRow_signed:
  assumes "decodeSig65 s = Ok b"
  shows "hasSignature (cachedRow params (normalizeSigHex s) owner now)"
proof -
  from assms obtain raw where n: "normalizeSigHex s = ''0x'' @ toLower (trimPrefix (trimSpace s) ''0x'')"
    and raw: "hexDecode (trimPrefix (trimSpace s) ''0x'') = Ok raw" by (rule normalizeSigHex_decoded)
  let ?t = "toLower (trimPrefix (trimSpace s) ''0x'')"
  have "hexDecode ?t = Ok raw" using raw by simp
  then have t: "\<forall>c\<in>set ?t. plain c" using hexDecode_hex isHexChar_plain by blast
  have "\<forall>c\<in>set ''0x''. plain c" by (simp add: plain_def code_def)
  with t have "\<forall>c\<in>set (normalizeSigHex s). plain c" unfolding n set_append by blast
  then show ?thesis by (rule hasSignature_hex) (simp_all add: n cachedRow_def)
qed

text \<open>The row that is cached.\<close>

lemma VerifyAndCache_cached:
  assumes wf: "store_wf (w_rows w)"
    and run: "VerifyAndCache E (Some memory_store) params sigHex owner agent now w = Some (Ok u, w')"
  defines "i \<equiv> mkId owner (pp_Spender params) (pp_Token params) (pp_Nonce params)"
  shows "\<exists>q. store_wf (w_rows w') \<and> lookupRow (w_rows w') = (lookupRow (w_rows w))(i \<mapsto> q) \<and>
    au_AmountAtoms q = pp_Amount params \<and> au_Expiration q = pp_Deadline params \<and>
    au_SignatureHex q = normalizeSigHex sigHex \<and> hasSignature q \<and>
    spent q = (case lookupRow (w_rows w) i of None \<Rightarrow> 0 | Some old \<Rightarrow> spent old)"
proof -
  let ?row = "cachedRow params (normalizeSigHex sigHex) owner now"
  from VerifyAndCache_Ok [OF run] obtain td a e where rec: "RecoverTypedDataSigner E td sigHex = Ok a"
    and up: "st_Upsert memory_store ?row w = Some (Ok e, w')" by blast
  then have "ms_Upsert ?row (w_rows w) = (e, w_rows w')" by (auto simp: memory_store_eval)
  from ms.upsert_law [OF wf cachedRow_readable this]
  have s: "store_wf (w_rows w')"
    "lookupRow (w_rows w') = (lookupRow (w_rows w))(rowId ?row \<mapsto> upserted (lookupRow (w_rows w) (rowId ?row)) ?row)"
    by auto
  have i: "rowId ?row = i" by (simp add: i_def rowId_def cachedRow_def)
  let ?q = "upserted (lookupRow (w_rows w) i) ?row"
  from RecoverTypedDataSigner_decodes [OF rec] obtain b where "decodeSig65 sigHex = Ok b" ..
  then have "hasSignature ?row" by (rule cachedRow_signed)
  then have "au_AmountAtoms ?q = pp_Amount params \<and> au_Expiration ?q = pp_Deadline params \<and>
      au_SignatureHex ?q = normalizeSigHex sigHex \<and> hasSignature ?q \<and>
      spent ?q = (case lookupRow (w_rows w) i of None \<Rightarrow> 0 | Some old \<Rightarrow> spent old)"
    by (auto simp: upserted_def refreshed_def cachedRow_def hasSignature_def spent_def orZero_zero
        split: option.split)
  with s show ?thesis unfolding i by auto
qed

text \<open>
  What the store selects then: the row just cached, or another one of the agent that was there before
  and is not older.
\<close>

lemma accepted_row_selected:
  assumes wf: "store_wf (w_rows w)"
    and run: "VerifyAndCache E (Some memory_store) params sigHex owner agent now w = Some (Ok u, v)"
    and now: "sint now \<noteq> 0" and before: "sint t < sint (pp_Deadline params)" and g: "equalFold g agent"
  defines "i \<equiv> mkId owner (pp_Spender params) (pp_Token params) (pp_Nonce params)"
  defines "q \<equiv> upserted (lookupRow (w_rows w) i) (cachedRow params (normalizeSigHex sigHex) owner now)"
  shows "\<exists>p. ms_ActiveForAgent g t (w_rows v) = Ok p \<and>
    (p = q \<or> rowId p \<noteq> i \<and> lookupRow (w_rows w) (rowId p) = Some p \<and> usable t p \<and> hasSignature p \<and>
       equalFold (au_Agent p) g \<and> sint now \<le> sint (au_CreatedAtUnix p))"
    and "store_wf (w_rows v)" and "rowId q = i" and "au_CreatedAtUnix q = now"
proof -
  let ?row = "cachedRow params (normalizeSigHex sigHex) owner now"
  have i: "rowId ?row = i" by (simp add: i_def rowId_def cachedRow_def)
  from VerifyAndCache_Ok [OF run] obtain td a e where ag: "equalFold agent (pp_Spender params)"
    and rec: "RecoverTypedDataSigner E td sigHex = Ok a"
    and "st_Upsert memory_store ?row w = Some (Ok e, v)" by blast
  then have up: "ms_Upsert ?row (w_rows w) = (e, w_rows v)" by (auto simp: memory_store_eval)
  from ms.upsert_law [OF wf cachedRow_readable up] show wfv: "store_wf (w_rows v)" by simp
  from ms.upsert_law [OF wf cachedRow_readable up] have rows: "lookupRow (w_rows v) = (lookupRow (w_rows w))(i \<mapsto> q)"
    by (simp add: i q_def)
  from RecoverTypedDataSigner_decodes [OF rec] obtain b where "decodeSig65 sigHex = Ok b" ..
  then have "hasSignature ?row" by (rule cachedRow_signed)
  then have sg: "hasSignature q" and us: "usable t q" and "au_Agent q = pp_Spender params"
    and cr: "au_CreatedAtUnix q = now"
    using before now
    by (auto simp: q_def upserted_def refreshed_def cachedRow_def hasSignature_def usable_def split: option.split)
  show "au_CreatedAtUnix q = now" by (rule cr)
  have agq: "equalFold (au_Agent q) g"
    unfolding \<open>au_Agent q = pp_Spender params\<close> using equalFold_sym [OF equalFold_trans [OF g ag]] .
  show "rowId q = i" by (simp add: q_def i)
  have at: "lookupRow (w_rows v) i = Some q" by (simp add: rows)
  from ms.active_complete [OF wfv at agq us sg] obtain p where p: "ms_ActiveForAgent g t (w_rows v) = Ok p" ..
  note sound = ms.active_sound [OF wfv p] and new = ms.active_recent [OF wfv p at agq us sg]
  show "\<exists>p. ms_ActiveForAgent g t (w_rows v) = Ok p \<and>
    (p = q \<or> rowId p \<noteq> i \<and> lookupRow (w_rows w) (rowId p) = Some p \<and> usable t p \<and> hasSignature p \<and>
       equalFold (au_Agent p) g \<and> sint now \<le> sint (au_CreatedAtUnix p))"
    using p sound new by (cases "rowId p = i") (auto simp: rows cr)
qed

section \<open>Properties\<close>

text \<open>
  C10: \<open>VerifyAndCache\<close> caches exactly what the owner signed for this agent. It returns nil if and only
  if the amount text is neither empty nor \<open>0\<close>, the deadline is in the future, the owner has the form
  of an address, the spender of the authorization is the expected agent, the typed data can be
  rebuilt from the submitted parameters and they recover, under the submitted signature, to the
  claimed owner. Then exactly one row of the store changed: the row of (owner, agent, token, nonce),
  which now carries the submitted amount, deadline and the normalised signature, and still the spend
  recorded before. Otherwise the store is unchanged.
\<close>

theorem verify_and_cache_exact:
  assumes wf: "store_wf (w_rows w)"
    and run: "VerifyAndCache E (Some memory_store) params sigHex owner agent now w = Some (r, w')"
  shows "(isOk r \<longleftrightarrow>
      pp_Amount params \<noteq> [] \<and> pp_Amount params \<noteq> ''0'' \<and> sint now < sint (pp_Deadline params) \<and>
      looksLikeAddress owner \<and> equalFold agent (pp_Spender params) \<and>
      (\<exists>td a. BuildPermit2TypedData params = Ok td \<and> RecoverTypedDataSigner E td sigHex = Ok a \<and>
         equalFold a owner)) \<and>
    (if isOk r then
      (let i = mkId owner (pp_Spender params) (pp_Token params) (pp_Nonce params) in
       \<exists>q. store_wf (w_rows w') \<and> lookupRow (w_rows w') = (lookupRow (w_rows w))(i \<mapsto> q) \<and>
           au_AmountAtoms q = pp_Amount params \<and> au_Expiration q = pp_Deadline params \<and>
           au_SignatureHex q = normalizeSigHex sigHex \<and> hasSignature q \<and>
           spent q = (case lookupRow (w_rows w) i of None \<Rightarrow> 0 | Some old \<Rightarrow> spent old))
     else w' = w)"
proof (cases "isOk r")
  case True
  then obtain u where ok: "r = Ok u" by (auto simp: isOk_iff)
  from VerifyAndCache_cached [OF wf run [unfolded ok]] True VerifyAndCache_Ok_iff [OF run]
  show ?thesis unfolding acceptable_def Let_def by simp
next
  case False
  with VerifyAndCache_not_Ok [OF run] VerifyAndCache_Ok_iff [OF run] show ?thesis
    unfolding acceptable_def by simp
qed

text \<open>An owner with a key of the demo library, and its signature over typed data.\<close>

definition demo_owner_key :: bytes where
  "demo_owner_key = replicate 32 5"

definition demo_owner :: string where
  "demo_owner = demo_address_text (word_of_nat (beNat demo_owner_key))"

lemma demo_owner_signs:
  assumes "BuildPermit2TypedData p = Ok td"
  shows "\<exists>sig. RecoverTypedDataSigner demo_lib td sig = Ok demo_owner"
proof -
  have k: "toECDSA demo_lib demo_owner_key =
      Ok \<lparr>ek_PublicKey = (beNat demo_owner_key, 0), ek_D = beNat demo_owner_key\<rparr>"
    by (simp add: demo_simps demo_key_def demo_owner_key_def)
  have "\<exists>sp. SignTypedData demo_lib demo_owner_key td = Ok sp"
    unfolding SignTypedData_def k by (simp add: demo_simps Let_def)
  then obtain sp where sp: "SignTypedData demo_lib demo_owner_key td = Ok sp" ..
  from SignTypedData_recovers [OF demo_sign_recover_law sp k]
  show ?thesis by (auto simp: demo_simps demo_owner_def)
qed

lemma demo_verify_runs:
  assumes td: "BuildPermit2TypedData p = Ok td" and sig: "RecoverTypedDataSigner demo_lib td sig = Ok demo_owner"
    and "pp_Amount p \<noteq> []" "pp_Amount p \<noteq> ''0''" "sint now < sint (pp_Deadline p)"
  shows "VerifyAndCache demo_lib (Some memory_store) p sig demo_owner (pp_Spender p) now w =
    Some (Ok (), w\<lparr>w_rows := snd (ms_Upsert (cachedRow p (normalizeSigHex sig) demo_owner now) (w_rows w))\<rparr>)"
proof (rule VerifyAndCache_accepts)
  have "looksLikeAddress demo_owner" by (simp add: demo_owner_def)
  with assms show "acceptable demo_lib p sig demo_owner (pp_Spender p) now" by (simp add: acceptable_def)
qed

theorem verify_and_cache_exact_witness:
  "\<exists>sig w'. VerifyAndCache demo_lib (Some memory_store) demo_params sig demo_owner (demo_address_text 2) 1000
       \<lparr>w_rows = demo_store, w_mark = 0, w_hist = []\<rparr> = Some (Ok (), w') \<and>
     (\<exists>q. lookupRow (w_rows w') (mkId demo_owner (demo_address_text 2) (demo_address_text 1) 5) = Some q \<and>
          au_AmountAtoms q = ''100'')"
proof -
  let ?w = "\<lparr>w_rows = demo_store, w_mark = 0, w_hist = []\<rparr> :: world"
  obtain td where td: "BuildPermit2TypedData demo_params = Ok td" using demo_params_build by blast
  obtain sig where sig: "RecoverTypedDataSigner demo_lib td sig = Ok demo_owner"
    using demo_owner_signs [OF td] by blast
  have s2: "pp_Spender demo_params = demo_address_text 2" by (simp add: demo_params_def)
  with demo_verify_runs [OF td sig, of 1000 ?w] obtain w' where
    run: "VerifyAndCache demo_lib (Some memory_store) demo_params sig demo_owner
      (demo_address_text 2) 1000 ?w = Some (Ok (), w')"
    by (auto simp: demo_params_def)
  have wf: "store_wf (w_rows ?w)" using demo_store_wf by simp
  have "pp_Token demo_params = demo_address_text 1" "pp_Nonce demo_params = 5"
    "pp_Amount demo_params = ''100''" by (simp_all add: demo_params_def)
  with verify_and_cache_exact [OF wf run] run s2 show ?thesis
    by (intro exI [of _ sig] exI [of _ w']) (auto simp: Let_def)
qed

text \<open>
  C11: what was accepted is what will be spent. After \<open>VerifyAndCache\<close> returned nil, at every time
  before the deadline, \<open>ActiveForAgent\<close> for the agent (in any letter case) selects the very
  authorization that was verified, with its amount, deadline and signature, also when an older one
  with the same identity was cached, revoked or locked before; or it selects another authorization
  that is not older: one of the agent, usable and signed, that was in the store before and whose
  creation time is the time of the call or later.
\<close>

theorem verified_authorization_is_active:
  assumes "store_wf (w_rows w)"
    and "VerifyAndCache E (Some memory_store) params sigHex owner agent now w = Some (Ok u, w')"
    and "sint now \<noteq> 0" and "sint t < sint (pp_Deadline params)" and "equalFold g agent"
    and "i = mkId owner (pp_Spender params) (pp_Token params) (pp_Nonce params)"
  shows "\<exists>q. ms_ActiveForAgent g t (w_rows w') = Ok q \<and>
    (rowId q = i \<and> au_AmountAtoms q = pp_Amount params \<and> au_Expiration q = pp_Deadline params \<and>
       au_SignatureHex q = normalizeSigHex sigHex \<and> au_CreatedAtUnix q = now \<or>
     rowId q \<noteq> i \<and> lookupRow (w_rows w) (rowId q) = Some q \<and> usable t q \<and> hasSignature q \<and>
       equalFold (au_Agent q) g \<and> sint now \<le> sint (au_CreatedAtUnix q))"
proof -
  note selected = accepted_row_selected [OF assms(1-5)]
  let ?q = "upserted (lookupRow (w_rows w) i) (cachedRow params (normalizeSigHex sigHex) owner now)"
  have "au_AmountAtoms ?q = pp_Amount params \<and> au_Expiration ?q = pp_Deadline params \<and>
      au_SignatureHex ?q = normalizeSigHex sigHex"
    by (simp add: upserted_def refreshed_def cachedRow_def split: option.split)
  with selected(1,3,4) show ?thesis unfolding assms(6) by fast
qed

theorem verified_authorization_is_active_witness:
  "\<exists>sig w' q. VerifyAndCache demo_lib (Some memory_store) demo_params sig demo_owner (demo_address_text 2) 1000
       \<lparr>w_rows = demo_store, w_mark = 0, w_hist = []\<rparr> = Some (Ok (), w') \<and>
     ms_ActiveForAgent (demo_address_text 2) 1001 (w_rows w') = Ok q \<and>
     rowId q = mkId demo_owner (demo_address_text 2) (demo_address_text 1) 5 \<and>
     au_SignatureHex q = normalizeSigHex sig"
proof -
  let ?w = "\<lparr>w_rows = demo_store, w_mark = 0, w_hist = []\<rparr> :: world"
  obtain td where td: "BuildPermit2TypedData demo_params = Ok td" using demo_params_build by blast
  obtain sig where sig: "RecoverTypedDataSigner demo_lib td sig = Ok demo_owner"
    using demo_owner_signs [OF td] by blast
  have p: "pp_Spender demo_params = demo_address_text 2" "pp_Token demo_params = demo_address_text 1"
    "pp_Nonce demo_params = 5" by (simp_all add: demo_params_def)
  with demo_verify_runs [OF td sig, of 1000 ?w] obtain w' where
    run: "VerifyAndCache demo_lib (Some memory_store) demo_params sig demo_owner
      (demo_address_text 2) 1000 ?w = Some (Ok (), w')"
    by (auto simp: demo_params_def)
  have wf: "store_wf (w_rows ?w)" using demo_store_wf by simp
  have t: "sint (1000 :: i64) \<noteq> 0" "sint (1001 :: i64) < sint (pp_Deadline demo_params)"
    by (simp_all add: demo_params_def)
  have old: "sint (au_CreatedAtUnix q) < 1000" if "lookupRow (w_rows ?w) j = Some q" for j q
    using that by (auto simp: demo_store_rows demo_row_def split: if_splits)
  from verified_authorization_is_active [OF wf run t equalFold_refl refl] obtain q where
    "ms_ActiveForAgent (demo_address_text 2) 1001 (w_rows w') = Ok q" and
    "rowId q = mkId demo_owner (pp_Spender demo_params) (pp_Token demo_params) (pp_Nonce demo_params) \<and>
       au_SignatureHex q = normalizeSigHex sig \<or>
     lookupRow (w_rows ?w) (rowId q) = Some q \<and> sint (1000 :: i64) \<le> sint (au_CreatedAtUnix q)" by blast
  with run old show ?thesis unfolding p by fastforce
qed

text \<open>
  The amount check compares texts: \<open>00\<close> is neither empty nor \<open>0\<close>, so an authorization over zero
  atoms, which the comment on \<open>VerifyAndCache\<close> excludes, is verified and cached.
\<close>

lemma zero_amount_authorized:
  "\<exists>p sig w'. decimalToBigInt (pp_Amount p) = Ok 0 \<and>
     VerifyAndCache demo_lib (Some memory_store) p sig demo_owner (pp_Spender p) 1000 w =
       Some (Ok (), w')"
proof -
  let ?p = "demo_params\<lparr>pp_Amount := ''00''\<rparr>"
  have "trimSpace ''00'' = ''00''" by (rule trimSpace_all_plain) (simp add: plain_def code_def)
  then have z: "setString 10 (trimSpace ''00'') = Some 0" by (simp add: setString_def digitVal_def code_def)
  then have "\<exists>td. BuildPermit2TypedData ?p = Ok td"
    using demo_params_build unfolding build_permit2_ok_iff by (simp add: demo_params_def)
  then obtain td where td: "BuildPermit2TypedData ?p = Ok td" ..
  obtain sig where sig: "RecoverTypedDataSigner demo_lib td sig = Ok demo_owner"
    using demo_owner_signs [OF td] by blast
  from demo_verify_runs [OF td sig, of 1000 w] z show ?thesis
    by (intro exI [of _ ?p] exI [of _ sig]) (simp add: demo_params_def decimalToBigInt_Ok_iff)
qed

end
