(* ===== verification/Spend.thy ===== *)
theory Spend
  imports GasFunder Signer Permit2 Authorize
begin

text \<open>
  \<open>src/spend.go\<close>: a Permit2 spend, from the allowance check over the broadcast of \<open>permit\<close> (when
  the chain does not already grant enough) and \<open>transferFrom\<close> to the booking of the spent amount.
  \<open>Spend\<close> is composed of three consecutive pieces of the function's body: \<open>spendCheck\<close> (agent,
  active row, remaining allowance), \<open>spendPay\<close> (everything up to the confirmed transfer) and
  \<open>spendBook\<close> (\<open>BumpSpent\<close> and the optional crediter).

  The lemmas follow the pieces: what each broadcasts, that nothing before \<open>spendBook\<close> touches the
  store, and what the booking changes.
\<close>

section \<open>Data\<close>

record spend_result =
  sr_PermitTxHash :: string
  sr_TransferTxHash :: string
  sr_AmountAtoms :: string
  sr_Agent :: string
  sr_Owner :: string
  sr_Token :: string
  sr_Seller :: string
  sr_GasFundedTxHash :: string
  sr_CreditedAtoms :: string
  sr_BalanceAfterAtoms :: string
  sr_CreditReplayed :: bool
  sr_CreditError :: "error option" \<comment> \<open>the error whose text the code stores\<close>

record 'w spender =
  sd_Store :: "'w auth_store option"
  sd_RPC :: "'w base_rpc option"
  sd_Signer :: "'w signer option"
  sd_SellerAddressFn :: "('w, string) io option"
  sd_GasFunder :: "'w gas_port option"
  sd_Crediter :: "'w crediter option"
  sd_Permit2Addr :: string
  sd_ReceiptTimeout :: int
  sd_PollInterval :: int

definition sd_timeout :: "'w spender \<Rightarrow> int" where
  "sd_timeout s = (if sd_ReceiptTimeout s > 0 then sd_ReceiptTimeout s else 30 * second)"

definition sd_poll :: "'w spender \<Rightarrow> int" where
  "sd_poll s = (if sd_PollInterval s > 0 then sd_PollInterval s else 2 * second)"

definition sd_permit2 :: "'w spender \<Rightarrow> string" where
  "sd_permit2 s = (if sd_Permit2Addr s \<noteq> [] then sd_Permit2Addr s else CanonicalPermit2Address)"

section \<open>Building, signing and sending a transaction\<close>

definition decodeSigOnchain :: "string \<Rightarrow> bytes res" where
  "decodeSigOnchain s0 =
     (let s = trimPrefix (trimSpace s0) ''0x'' in
      if length s \<noteq> 130 then
        Err (Errorf ''expected 65-byte signature, got %d hex'' [showNat (length s)])
      else
        res_bind (hexDecode s) (\<lambda>b.
        Ok (if b ! 64 < 27 then b[64 := b ! 64 + 27] else b)))"

definition buildSignSend ::
  "eth_lib \<Rightarrow> 'w spender \<Rightarrow> int option \<Rightarrow> address \<Rightarrow> bytes \<Rightarrow> ('w, transaction) io" where
  "buildSignSend E s chainID to calldata =
     (let rpc = the (sd_RPC s); sg = the (sd_Signer s) in
      io_bind (io_wrap ''agent address: %w'' [] (sg_Address sg)) (\<lambda>addrStr.
      let sender = hexToAddress E addrStr in
      io_bind (io_wrap ''pending nonce: %w'' [] (rpc_PendingNonceAt rpc sender)) (\<lambda>nonce.
      io_bind (io_both (rpc_SuggestGasTipCap rpc)) (\<lambda>tipr.
      let tip = tipOrDefault tipr in
      io_bind (io_both (rpc_SuggestGasPrice rpc)) (\<lambda>gpr.
      io_bind (lift (gasPriceOf gpr)) (\<lambda>gasPrice.
      let maxFee = maxFeeOf gasPrice tip in
      io_bind (io_wrap ''estimate gas: %w'' [] (rpc_EstimateGas rpc
         \<lparr>cm_From = Some sender, cm_To = Some to, cm_Value = None, cm_Data = calldata,
          cm_GasFeeCap = Some maxFee, cm_GasTipCap = Some tip\<rparr>)) (\<lambda>est.
      let gasLimit = (est * 120) div 100;
          tx = NewTx \<lparr>tx_ChainID = (case chainID of None \<Rightarrow> 0 | Some c \<Rightarrow> c), tx_Nonce = nonce,
                 tx_GasTipCap = tip, tx_GasFeeCap = maxFee, tx_Gas = gasLimit, tx_To = to,
                 tx_Value = 0, tx_Data = calldata\<rparr> in
      io_bind (io_wrap ''sign: %w'' [] (sg_SignTx sg (Some tx) chainID)) (\<lambda>sgn.
      io_bind (io_wrap ''send: %w'' [] (rpc_SendTransaction rpc sgn)) (\<lambda>_.
      ret sgn)))))))))"

text \<open>The arguments of the on-chain \<open>permit\<close> of a cached row, given its decoded signature.\<close>

definition permitArgsOf :: "authorization \<Rightarrow> int \<Rightarrow> bytes \<Rightarrow> permit_args" where
  "permitArgsOf row amount sig =
    \<lparr>pa_Owner = au_Owner row, pa_Token = au_Token row, pa_Spender = au_Agent row,
     pa_Amount = Some amount, pa_Expiration = au_Expiration row, pa_Nonce = au_Nonce row,
     pa_SigDeadline = Some (sint (au_Expiration row)), pa_Signature = sig\<rparr>"

definition sendPermit ::
  "eth_lib \<Rightarrow> 'w spender \<Rightarrow> int option \<Rightarrow> authorization \<Rightarrow> ('w, transaction) io" where
  "sendPermit E s chainID row =
     io_bind (io_wrap ''decode cached sig: %w'' [] (lift (decodeSigOnchain (au_SignatureHex row)))) (\<lambda>sig.
     case setString 10 (au_AmountAtoms row) of
       None \<Rightarrow> fail (Errorf ''malformed amount %q'' [au_AmountAtoms row])
     | Some amount \<Rightarrow>
         io_bind (lift (EncodePermitCall E (permitArgsOf row amount sig))) (\<lambda>calldata.
         buildSignSend E s chainID (hexToAddress E (sd_permit2 s)) calldata))"

definition transferArgsOf :: "string \<Rightarrow> string \<Rightarrow> string \<Rightarrow> int \<Rightarrow> transfer_args" where
  "transferArgsOf owner seller token amount =
    \<lparr>ta_From = owner, ta_To = seller, ta_Amount = Some amount, ta_Token = token\<rparr>"

definition sendTransferFrom ::
  "eth_lib \<Rightarrow> 'w spender \<Rightarrow> int option \<Rightarrow> string \<Rightarrow> string \<Rightarrow> string \<Rightarrow> int \<Rightarrow> ('w, transaction) io" where
  "sendTransferFrom E s chainID owner seller token amount =
     io_bind (lift (EncodeTransferFromCall E (transferArgsOf owner seller token amount))) (\<lambda>calldata.
     buildSignSend E s chainID (hexToAddress E (sd_permit2 s)) calldata)"

text \<open>
  The \<open>allowance\<close> read: 96 bytes of answer, of which the first word is the amount and the second
  the expiration, read as a signed 64-bit number.
\<close>

definition allowanceCall :: "eth_lib \<Rightarrow> string \<Rightarrow> string \<Rightarrow> string \<Rightarrow> string \<Rightarrow> call_msg" where
  "allowanceCall E permit2 owner token spndr =
    \<lparr>cm_From = None, cm_To = Some (hexToAddress E permit2), cm_Value = None,
     cm_Data = funcSelector E ''allowance(address,address,address)'' @
       leftPadBytes E (addressBytes (hexToAddress E owner)) 32 @
       leftPadBytes E (addressBytes (hexToAddress E token)) 32 @
       leftPadBytes E (addressBytes (hexToAddress E spndr)) 32,
     cm_GasFeeCap = None, cm_GasTipCap = None\<rparr>"

definition coversAnswer :: "bytes \<Rightarrow> int \<Rightarrow> i64 \<Rightarrow> bool" where
  "coversAnswer out need now \<longleftrightarrow>
     (if length out < 96 then False
      else
        let amount = int (beNat (take 32 out));
            expiration = bigInt64 (int (beNat (take 32 (drop 32 out)))) in
        sint expiration > sint now \<and> amount \<ge> need)"

definition allowanceCovers ::
  "eth_lib \<Rightarrow> 'w spender \<Rightarrow> string \<Rightarrow> string \<Rightarrow> string \<Rightarrow> int \<Rightarrow> i64 \<Rightarrow> ('w, bool) io" where
  "allowanceCovers E s owner token spndr need now =
     (if \<not> isHexAddress E owner \<or> \<not> isHexAddress E token \<or> \<not> isHexAddress E spndr then ret False
      else
        io_bind (io_both (rpc_CallContract (the (sd_RPC s))
           (allowanceCall E (sd_permit2 s) owner token spndr) None)) (\<lambda>r.
        ret (case r of Inl _ \<Rightarrow> False | Inr out \<Rightarrow> coversAnswer out need now)))"

section \<open>Spend\<close>

definition spendCheck ::
  "'w spender \<Rightarrow> int \<Rightarrow> i64 \<Rightarrow> ('w, string \<times> authorization) io" where
  "spendCheck s amountAtoms now =
     io_bind (io_wrap ''agentwallet spend: agent address: %w'' [] (sg_Address (the (sd_Signer s)))) (\<lambda>agentAddr.
     io_bind (st_ActiveForAgent (the (sd_Store s)) agentAddr now) (\<lambda>row.
     case setString 10 (au_AmountAtoms row) of
       None \<Rightarrow> fail (Errorf ''agentwallet spend: malformed allowance %q'' [au_AmountAtoms row])
     | Some allowance \<Rightarrow>
         let remaining = allowance - spent row in
         if remaining - amountAtoms < 0 then
           fail (Wrap ''%w: requested %s, remaining %s'' [showInt amountAtoms, showInt remaining] ErrAllowanceExceeded)
         else ret (agentAddr, row)))"

definition ensureGasStep ::
  "'w spender \<Rightarrow> string \<Rightarrow> int option \<Rightarrow> spend_result \<Rightarrow> ('w, spend_result) io" where
  "ensureGasStep s agentAddr chainID result =
     (case sd_GasFunder s of
        None \<Rightarrow> ret result
      | Some gf \<Rightarrow>
          io_bind (io_wrap ''agentwallet spend: ensure gas: %w'' [] (gf agentAddr chainID)) (\<lambda>fund.
          ret (case fund of
             None \<Rightarrow> result
           | Some fr \<Rightarrow> if fr_Funded fr then result\<lparr>sr_GasFundedTxHash := fr_TxHash fr\<rparr> else result)))"

definition permitStep ::
  "eth_lib \<Rightarrow> 'w runtime \<Rightarrow> 'w spender \<Rightarrow> int option \<Rightarrow> authorization \<Rightarrow> spend_result \<Rightarrow> ('w, spend_result) io"
where
  "permitStep E rt s chainID row result =
     io_bind (io_wrap ''agentwallet spend: permit: %w'' [] (sendPermit E s chainID row)) (\<lambda>ptx.
     io_bind (io_wrap ''agentwallet spend: permit receipt: %w'' []
       (WaitForReceipt E rt (the (sd_RPC s)) (txHash E ptx) (sd_timeout s) (sd_poll s))) (\<lambda>rc.
     if rc_Status rc \<noteq> 1 then
       fail (Errorf ''agentwallet spend: permit reverted (%s)'' [hashHex E (txHash E ptx)])
     else ret (result\<lparr>sr_PermitTxHash := hashHex E (txHash E ptx)\<rparr>)))"

definition transferStep ::
  "eth_lib \<Rightarrow> 'w runtime \<Rightarrow> 'w spender \<Rightarrow> int option \<Rightarrow> authorization \<Rightarrow> string \<Rightarrow> int \<Rightarrow> spend_result \<Rightarrow>
     ('w, spend_result) io" where
  "transferStep E rt s chainID row seller amount result =
     io_bind (io_wrap ''agentwallet spend: transferFrom: %w'' []
       (sendTransferFrom E s chainID (au_Owner row) seller (au_Token row) amount)) (\<lambda>ttx.
     io_bind (io_wrap ''agentwallet spend: transfer receipt: %w'' []
       (WaitForReceipt E rt (the (sd_RPC s)) (txHash E ttx) (sd_timeout s) (sd_poll s))) (\<lambda>rc.
     if rc_Status rc \<noteq> 1 then
       fail (Errorf ''agentwallet spend: transferFrom reverted (%s)'' [hashHex E (txHash E ttx)])
     else ret (result\<lparr>sr_TransferTxHash := hashHex E (txHash E ttx)\<rparr>)))"

definition spendPay ::
  "eth_lib \<Rightarrow> 'w runtime \<Rightarrow> 'w spender \<Rightarrow> int \<Rightarrow> i64 \<Rightarrow> string \<Rightarrow> authorization \<Rightarrow> ('w, spend_result) io" where
  "spendPay E rt s amount now agentAddr row =
     io_bind (io_wrap ''agentwallet spend: seller: %w'' [] (the (sd_SellerAddressFn s))) (\<lambda>seller.
     if \<not> isHexAddress E seller then fail (Errorf ''agentwallet spend: seller %q malformed'' [seller])
     else
     io_bind (io_wrap ''agentwallet spend: chain id: %w'' [] (rpc_ChainID (the (sd_RPC s)))) (\<lambda>chainID.
     let result = \<lparr>sr_PermitTxHash = [], sr_TransferTxHash = [], sr_AmountAtoms = showInt amount,
           sr_Agent = agentAddr, sr_Owner = au_Owner row, sr_Token = au_Token row, sr_Seller = seller,
           sr_GasFundedTxHash = [], sr_CreditedAtoms = [], sr_BalanceAfterAtoms = [],
           sr_CreditReplayed = False, sr_CreditError = None\<rparr> in
     io_bind (ensureGasStep s agentAddr chainID result) (\<lambda>result.
     io_bind (allowanceCovers E s (au_Owner row) (au_Token row) agentAddr amount now) (\<lambda>skipPermit.
     io_bind (if skipPermit then ret result else permitStep E rt s chainID row result) (\<lambda>result.
     transferStep E rt s chainID row seller amount result)))))"

definition credited :: "spend_result \<Rightarrow> error + (string \<times> string \<times> bool) \<Rightarrow> spend_result" where
  "credited result c =
     (case c of
        Inl cerr \<Rightarrow> result\<lparr>sr_CreditError := Some cerr\<rparr>
      | Inr (ca, ba, replayed) \<Rightarrow>
          result\<lparr>sr_CreditedAtoms := ca, sr_BalanceAfterAtoms := ba, sr_CreditReplayed := replayed\<rparr>)"

lemma credited_simps [simp]:
  "sr_TransferTxHash (credited r c) = sr_TransferTxHash r" "sr_PermitTxHash (credited r c) = sr_PermitTxHash r"
  "sr_Seller (credited r c) = sr_Seller r"
  by (auto simp: credited_def split: sum.split)

definition spendBook ::
  "'w spender \<Rightarrow> int \<Rightarrow> string \<Rightarrow> authorization \<Rightarrow> spend_result \<Rightarrow> ('w, spend_result) io" where
  "spendBook s amount agentAddr row result =
     io_bind (io_wrap ''agentwallet spend: bump spent: %w'' []
       (st_BumpSpent (the (sd_Store s)) (au_Owner row) agentAddr (au_Token row) (au_Nonce row)
          (showInt amount))) (\<lambda>_.
     case sd_Crediter s of
       None \<Rightarrow> ret result
     | Some cr \<Rightarrow>
         io_bind (io_both (cr (au_Owner row) (au_Token row) (showInt amount) (sr_TransferTxHash result))) (\<lambda>c.
         ret (credited result c)))"

definition Spend ::
  "eth_lib \<Rightarrow> 'w runtime \<Rightarrow> 'w spender option \<Rightarrow> int option \<Rightarrow> i64 \<Rightarrow> ('w, spend_result) io" where
  "Spend E rt spndr amountAtoms now =
     (case spndr of
        None \<Rightarrow> fail (Errorf ''agentwallet spender: not configured'' [])
      | Some s \<Rightarrow>
          if sd_Store s = None \<or> sd_RPC s = None \<or> sd_Signer s = None \<or> sd_SellerAddressFn s = None then
            fail (Errorf ''agentwallet spender: not configured'' [])
          else if notPositive amountAtoms then
            fail (Errorf ''agentwallet spend: amount must be > 0'' [])
          else
            let amount = the amountAtoms in
            io_bind (spendCheck s amount now) (\<lambda>(agentAddr, row).
            io_bind (spendPay E rt s amount now agentAddr row) (\<lambda>result.
            spendBook s amount agentAddr row result)))"

section \<open>Before the booking\<close>

text \<open>
  The ports of the properties: \<open>MemoryStore\<close>, the node of an environment, and a signer, seller
  lookup, gas funder and crediter about which only their frame is known: none of them writes the
  rows, and of them only the gas funder broadcasts.
\<close>

definition spend_ports :: "env \<Rightarrow> world spender \<Rightarrow> bool" where
  "spend_ports N s \<longleftrightarrow>
     sd_Store s = Some memory_store \<and> sd_RPC s = Some (env_rpc N) \<and>
     (\<exists>sg. sd_Signer s = Some sg \<and> moves silent (sg_Address sg) \<and> (\<forall>t c. moves silent (sg_SignTx sg t c))) \<and>
     (\<exists>f. sd_SellerAddressFn s = Some f \<and> moves silent f) \<and>
     (\<forall>gf a c. sd_GasFunder s = Some gf \<longrightarrow> moves calm (gf a c)) \<and>
     (\<forall>cr ow tk at tx. sd_Crediter s = Some cr \<longrightarrow> moves silent (cr ow tk at tx))"

text \<open>The signer gives back the transaction it was asked to sign.\<close>

definition honest_signer :: "world spender \<Rightarrow> bool" where
  "honest_signer s \<longleftrightarrow>
     (\<forall>sg t c w t' w'. sd_Signer s = Some sg \<longrightarrow> sg_SignTx sg (Some t) c w = Some (Ok t', w') \<longrightarrow>
        tx_payload t' = tx_payload t)"

lemma spend_portsD:
  assumes "spend_ports N s"
  shows "the (sd_Store s) = memory_store" "the (sd_RPC s) = env_rpc N"
    "moves silent (sg_Address (the (sd_Signer s)))" "moves silent (sg_SignTx (the (sd_Signer s)) t c)"
    "moves silent (the (sd_SellerAddressFn s))"
    "sd_Store s \<noteq> None" "sd_RPC s \<noteq> None" "sd_Signer s \<noteq> None" "sd_SellerAddressFn s \<noteq> None"
    "sd_GasFunder s = Some gf \<Longrightarrow> moves calm (gf a c')"
    "sd_Crediter s = Some cr \<Longrightarrow> moves silent (cr ow tk at tx)"
  using assms unfolding spend_ports_def by auto

lemma moves_silent_calm: "moves silent m \<Longrightarrow> moves calm m"
  by (auto simp: moves_def silent_def)

text \<open>What \<open>buildSignSend\<close> may broadcast.\<close>

definition callTx :: "address \<Rightarrow> bytes \<Rightarrow> transaction \<Rightarrow> bool" where
  "callTx to calldata t \<longleftrightarrow>
     tx_To (tx_payload t) = to \<and> tx_Data (tx_payload t) = calldata \<and> tx_Value (tx_payload t) = 0 \<and>
     0 < tx_GasTipCap (tx_payload t) \<and> tx_GasTipCap (tx_payload t) \<le> tx_GasFeeCap (tx_payload t)"

text \<open>
  \<open>broadcastOne P w r w'\<close>: at most one broadcast, of a transaction in \<open>P\<close>; when the call returned a
  transaction, that one, accepted as the last event.
\<close>

definition broadcastOne :: "(transaction \<Rightarrow> bool) \<Rightarrow> world \<Rightarrow> transaction res \<Rightarrow> world \<Rightarrow> bool" where
  "broadcastOne P w r w' \<longleftrightarrow> sent P 1 w w' \<and>
     (\<forall>t. r = Ok t \<longrightarrow> P t \<and> (\<exists>es. w_hist w' = w_hist w @ es @ [EvSend t (Ok ())]) \<and>
        sends (w_hist w') = sends (w_hist w) @ [t])"

lemma broadcastOne_failed: "silent w w' \<Longrightarrow> \<not> isOk r \<Longrightarrow> broadcastOne P w r w'"
  by (auto simp: broadcastOne_def silent_sent)

lemma broadcastOne_from: "silent w u \<Longrightarrow> broadcastOne P u r w' \<Longrightarrow> broadcastOne P w r w'"
  using silent_sent_trans [of w u P 1 w']
  by (fastforce simp: broadcastOne_def silent_def dest: calm_hist)

lemma broadcastOne_mono: "broadcastOne P w r w' \<Longrightarrow> (\<And>t. P t \<Longrightarrow> Q t) \<Longrightarrow> broadcastOne Q w r w'"
  unfolding broadcastOne_def sent_def by blast

lemma buildSignSend_wp:
  assumes ports: "spend_ports N s" and honest: "honest_signer s"
  shows "wp (buildSignSend E s chainID to calldata) (broadcastOne (callTx to calldata) w) w"
    (is "wp _ (?Q w) w")
proof -
  note P = spend_portsD [OF ports]
  have err: "?Q w (Err e) w'" "?Q w Panic w'" if "silent w w'" for e w'
    using that by (simp_all add: broadcastOne_failed)
  have send: "wp (io_bind (io_wrap m as (rpc_SendTransaction (env_rpc N) t)) (\<lambda>_. ret t)) (?Q w) u"
    if u: "silent w u" and t: "callTx to calldata t" for m as t u
  proof -
    have "wp (rpc_SendTransaction (env_rpc N) t)
      (\<lambda>r w'. case res_wrap m as r of Ok _ \<Rightarrow> ?Q w (Ok t) w' | Err e \<Rightarrow> ?Q w (Err e) w' | Panic \<Rightarrow> ?Q w Panic w') u"
      using send_topUp [where P = "callTx to calldata", OF u t] t
      by (intro wpI) (auto simp: broadcastOne_def split: res.split)
    then show ?thesis unfolding wp_bind wp_wrap wp_ret .
  qed
  have signs: "tx_payload t' = tx_payload t"
    if "sg_SignTx (the (sd_Signer s)) (Some t) c u = Some (Ok t', v)" for t t' c u v
    using that honest P(8) unfolding honest_signer_def by (metis option.collapse)
  show ?thesis
    unfolding buildSignSend_def P(2) Let_def
    apply (rule wp_silent_bind [of _ w], intro moves_intros, rule P(3), rule silent_refl)
      defer apply (erule err)+
    apply (rule wp_silent_bind [of _ w], intro moves_intros, assumption)
      defer apply (erule err)+
    apply (rule wp_silent_bind [of _ w], intro moves_intros, assumption)
      defer apply (erule err)+
    apply (rule wp_silent_bind [of _ w], intro moves_intros, assumption)
      defer apply (erule err)+
    apply (rule wp_silent_lift [of w], assumption)
      defer apply (erule err)+
    apply (rule wp_silent_bind [of _ w], intro moves_intros, assumption)
      defer apply (erule err)+
    apply (rule wp_silent_bind [of _ w], intro moves_intros, rule P(4), assumption)
      defer apply (erule err)+
    by (intro send)
      (auto simp: io_ok callTx_def NewTx_def maxFeeOf_ge tipOrDefault_pos dest!: signs)
qed

lemma allowanceCovers_silent:
  assumes "spend_ports N s"
  shows "moves silent (allowanceCovers E s owner token sp need now)"
  unfolding allowanceCovers_def spend_portsD [OF assms] by (intro moves_intros)

text \<open>The calldata the two senders may broadcast, always to the Permit2 contract.\<close>

definition permitTx :: "eth_lib \<Rightarrow> world spender \<Rightarrow> authorization \<Rightarrow> transaction \<Rightarrow> bool" where
  "permitTx E s row t \<longleftrightarrow>
     (\<exists>sig amount data. decodeSigOnchain (au_SignatureHex row) = Ok sig \<and>
        setString 10 (au_AmountAtoms row) = Some amount \<and>
        EncodePermitCall E (permitArgsOf row amount sig) = Ok data \<and>
        callTx (hexToAddress E (sd_permit2 s)) data t)"

definition transferTx ::
  "eth_lib \<Rightarrow> world spender \<Rightarrow> authorization \<Rightarrow> string \<Rightarrow> int \<Rightarrow> transaction \<Rightarrow> bool" where
  "transferTx E s row seller amount t \<longleftrightarrow>
     (\<exists>data. EncodeTransferFromCall E (transferArgsOf (au_Owner row) seller (au_Token row) amount) = Ok data \<and>
        callTx (hexToAddress E (sd_permit2 s)) data t)"

lemma sendPermit_wp:
  assumes "spend_ports N s" and "honest_signer s"
  shows "wp (sendPermit E s chainID row) (broadcastOne (permitTx E s row) w) w"
proof -
  have b: "wp (buildSignSend E s chainID (hexToAddress E (sd_permit2 s)) data)
      (broadcastOne (permitTx E s row) w) w"
    if "decodeSigOnchain (au_SignatureHex row) = Ok sig" "setString 10 (au_AmountAtoms row) = Some amount"
      "EncodePermitCall E (permitArgsOf row amount sig) = Ok data" for sig amount data
    using buildSignSend_wp [OF assms]
    by (rule wp_mono) (rule broadcastOne_mono, use that in \<open>auto simp: permitTx_def\<close>)
  show ?thesis
    using b
    by (cases "decodeSigOnchain (au_SignatureHex row)")
      (auto simp: sendPermit_def wp_bind wp_wrap wp_lift wp_fail broadcastOne_failed
        split: option.split res.split)
qed

lemma sendTransferFrom_wp:
  assumes "spend_ports N s" and "honest_signer s"
  shows "wp (sendTransferFrom E s chainID (au_Owner row) seller (au_Token row) amount)
    (broadcastOne (transferTx E s row seller amount) w) w"
proof -
  have b: "wp (buildSignSend E s chainID (hexToAddress E (sd_permit2 s)) data)
      (broadcastOne (transferTx E s row seller amount) w) w"
    if "EncodeTransferFromCall E (transferArgsOf (au_Owner row) seller (au_Token row) amount) = Ok data" for data
    using buildSignSend_wp [OF assms]
    by (rule wp_mono) (rule broadcastOne_mono, use that in \<open>auto simp: transferTx_def\<close>)
  show ?thesis
    using b by (auto simp: sendTransferFrom_def wp_bind wp_lift broadcastOne_failed split: res.split)
qed

text \<open>A broadcast whose receipt is then awaited, as \<open>permit\<close> and \<open>transferFrom\<close> both do.\<close>

definition awaited :: "eth_lib \<Rightarrow> (transaction \<Rightarrow> bool) \<Rightarrow> (transaction \<Rightarrow> 'a) \<Rightarrow> world \<Rightarrow> 'a res \<Rightarrow> world \<Rightarrow> bool" where
  "awaited E P g w r w' \<longleftrightarrow> sent P 1 w w' \<and>
     (\<forall>x. r = Ok x \<longrightarrow> (\<exists>t. x = g t \<and> P t \<and> confirmed E t (news w w') \<and> sends (news w w') = [t]))"

lemma awaited_wp:
  assumes send: "wp m (broadcastOne P w) w"
  shows "wp (io_bind (io_wrap m1 [] m) (\<lambda>tx.
      io_bind (io_wrap m2 [] (WaitForReceipt E (env_runtime N) (env_rpc N) (txHash E tx) tmo poll)) (\<lambda>rc.
      if rc_Status rc \<noteq> 1 then fail (e tx) else ret (g tx)))) (awaited E P g w) w"
  unfolding wp_bind wp_wrap
proof (rule wp_mono [OF send])
  fix q x
  assume b: "broadcastOne P w q x"
  have fail: "awaited E P g w r w'" if "silent x w'" "\<not> isOk r" for r w'
    using b that sent_silent by (auto simp: awaited_def broadcastOne_def)
  show "case res_wrap m1 [] q of
      Ok tx \<Rightarrow> wp (WaitForReceipt E (env_runtime N) (env_rpc N) (txHash E tx) tmo poll)
        (\<lambda>r w'. case res_wrap m2 [] r of
           Ok rc \<Rightarrow> wp (if rc_Status rc \<noteq> 1 then fail (e tx) else ret (g tx)) (awaited E P g w) w'
         | Err e \<Rightarrow> awaited E P g w (Err e) w' | Panic \<Rightarrow> awaited E P g w Panic w') x
    | Err e \<Rightarrow> awaited E P g w (Err e) x | Panic \<Rightarrow> awaited E P g w Panic x"
  proof (cases q)
    case (Ok tx)
    from b Ok obtain es where es: "w_hist x = w_hist w @ es @ [EvSend tx (Ok ())]" and wx: "calm w x"
      and p: "P tx" and s: "sent P 1 w x" and tx: "sends (w_hist x) = sends (w_hist w) @ [tx]"
      by (auto simp: broadcastOne_def sent_def)
    show ?thesis
      unfolding Ok res_wrap.simps res.case
    proof (rule wp_call [OF WaitForReceipt_silent], goal_cases)
      case (1 rc w')
      have conf: "confirmed E tx (news w w')" if "rc_Status rc = 1"
        using WaitForReceipt_confirmed [OF 1(2) es that] .
      have "calm w w'" using wx silent_calm [OF 1(1)] by (rule calm_trans)
      then have "sends (news w w') = [tx]"
        using sends_news [of w w'] tx 1(1) by (simp add: silent_def)
      then have "awaited E P g w (Ok (g tx)) w'" if "rc_Status rc = 1"
        using sent_silent [OF s 1(1)] conf [OF that] p by (auto simp: awaited_def)
      then show ?case
        unfolding res_wrap.simps res.case wp_if wp_fail wp_ret using fail [OF 1(1)] by simp
    qed (auto intro!: fail)
  qed (auto intro!: fail)
qed

lemma permitStep_wp:
  assumes "spend_ports N s" and "honest_signer s"
  shows "wp (permitStep E (env_runtime N) s chainID row result)
    (awaited E (permitTx E s row) (\<lambda>t. result\<lparr>sr_PermitTxHash := hashHex E (txHash E t)\<rparr>) w) w"
  unfolding permitStep_def spend_portsD [OF assms(1)]
  by (rule awaited_wp [OF sendPermit_wp [OF assms]])

lemma transferStep_wp:
  assumes "spend_ports N s" and "honest_signer s"
  shows "wp (transferStep E (env_runtime N) s chainID row seller amount result)
    (awaited E (transferTx E s row seller amount) (\<lambda>t. result\<lparr>sr_TransferTxHash := hashHex E (txHash E t)\<rparr>) w) w"
  unfolding transferStep_def spend_portsD [OF assms(1)]
  by (rule awaited_wp [OF sendTransferFrom_wp [OF assms]])

text \<open>The chain said that its allowance covers the spend.\<close>

definition chainCovers ::
  "eth_lib \<Rightarrow> world spender \<Rightarrow> authorization \<Rightarrow> string \<Rightarrow> int \<Rightarrow> i64 \<Rightarrow> event list \<Rightarrow> bool" where
  "chainCovers E s row agent amount now es \<longleftrightarrow>
     (\<exists>out. EvCall (allowanceCall E (sd_permit2 s) (au_Owner row) (au_Token row) agent) (Ok out) \<in> set es \<and>
        coversAnswer out amount now)"

lemma allowanceCovers_wp:
  assumes ports: "spend_ports N s"
  shows "wp (allowanceCovers E s (au_Owner row) (au_Token row) agent amount now)
    (\<lambda>r w'. silent w w' \<and> (r = Ok True \<longrightarrow> chainCovers E s row agent amount now (news w w'))) w"
proof (rule wpI)
  fix r w'
  assume run: "allowanceCovers E s (au_Owner row) (au_Token row) agent amount now w = Some (r, w')"
  have "silent w w'" using allowanceCovers_silent [OF ports] run by (rule movesD)
  moreover have "chainCovers E s row agent amount now (news w w')" if "r = Ok True"
  proof -
    let ?m = "rpc_CallContract (env_rpc N) (allowanceCall E (sd_permit2 s) (au_Owner row) (au_Token row) agent) None"
    from run that obtain c where c: "io_both ?m w = Some (Ok c, w')"
      and cov: "case c of Inl _ \<Rightarrow> False | Inr out \<Rightarrow> coversAnswer out amount now"
      unfolding allowanceCovers_def spend_portsD [OF ports] by (auto simp: io_bind_Ok_iff split: if_splits)
    then obtain out where "c = Inr out" and cov: "coversAnswer out amount now" by (cases c) simp_all
    with c have "?m w = Some (Ok out, w')" by (simp add: io_both_Inr_iff)
    then have "news w w' = [EvCall (allowanceCall E (sd_permit2 s) (au_Owner row) (au_Token row) agent) (Ok out)]"
      by (intro news_append) (simp add: env_rpc_simps ask_Some_iff)
    with cov show ?thesis by (auto simp: chainCovers_def)
  qed
  ultimately show "silent w w' \<and> (r = Ok True \<longrightarrow> chainCovers E s row agent amount now (news w w'))" by simp
qed

text \<open>What \<open>spendPay\<close> guarantees.\<close>

definition spendTx :: "eth_lib \<Rightarrow> world spender \<Rightarrow> authorization \<Rightarrow> int \<Rightarrow> transaction \<Rightarrow> bool" where
  "spendTx E s row amount t \<longleftrightarrow> permitTx E s row t \<or> (\<exists>seller. transferTx E s row seller amount t)"

text \<open>
  What the gas funder may broadcast for an agent is a parameter \<open>G\<close> of the bookkeeping:
  \<open>gasBound s agent G\<close> says that one call of the funder, if there is one, broadcasts at most one
  transaction, and one in \<open>G\<close>; \<open>broadcasts\<close> says what was sent in all, the funder's transaction first.
\<close>

definition gasBound :: "world spender \<Rightarrow> string \<Rightarrow> (transaction \<Rightarrow> bool) \<Rightarrow> bool" where
  "gasBound s agent G \<longleftrightarrow> (\<forall>gf c. sd_GasFunder s = Some gf \<longrightarrow> moves (sent G 1) (gf agent c))"

definition broadcasts ::
  "world spender \<Rightarrow> (transaction \<Rightarrow> bool) \<Rightarrow> (transaction \<Rightarrow> bool) \<Rightarrow> nat \<Rightarrow> world \<Rightarrow> world \<Rightarrow> bool" where
  "broadcasts s G P n w w' \<longleftrightarrow>
     (\<exists>gs ts. sends (w_hist w') = sends (w_hist w) @ gs @ ts \<and>
        length gs \<le> (if sd_GasFunder s = None then 0 else 1) \<and> (\<forall>t\<in>set gs. G t) \<and>
        length ts \<le> n \<and> (\<forall>t\<in>set ts. P t))"

lemma broadcasts_silent: "silent w w' \<Longrightarrow> broadcasts s G P n w w'"
  by (simp add: broadcasts_def silent_def)

lemma broadcasts_gas:
  assumes "sent G 1 w w'" and "sd_GasFunder s \<noteq> None"
  shows "broadcasts s G P n w w'"
proof -
  from assms(1) obtain gs where "sends (w_hist w') = sends (w_hist w) @ gs" "length gs \<le> 1" "\<forall>t\<in>set gs. G t"
    by (auto simp: sent_def)
  with assms(2) show ?thesis
    unfolding broadcasts_def by (intro exI [of _ gs] exI [of _ "[]"]) auto
qed

lemma broadcasts_sent:
  assumes "broadcasts s G P n w v" and "sent P m v w'" and "n + m \<le> k"
  shows "broadcasts s G P k w w'"
proof -
  from assms(1) obtain gs ts where g: "sends (w_hist v) = sends (w_hist w) @ gs @ ts"
    "length gs \<le> (if sd_GasFunder s = None then 0 else 1)" "\<forall>t\<in>set gs. G t" "length ts \<le> n" "\<forall>t\<in>set ts. P t"
    unfolding broadcasts_def by blast
  from assms(2) obtain us where u: "sends (w_hist w') = sends (w_hist v) @ us" "length us \<le> m" "\<forall>t\<in>set us. P t"
    by (auto simp: sent_def)
  have "sends (w_hist w') = sends (w_hist w) @ gs @ (ts @ us)" "length (ts @ us) \<le> k" "\<forall>t\<in>set (ts @ us). P t"
    using g u assms(3) by auto
  with g(2,3) show ?thesis unfolding broadcasts_def by blast
qed

lemma broadcasts_mono:
  "broadcasts s G P n w w' \<Longrightarrow> (\<And>t. P t \<Longrightarrow> Q t) \<Longrightarrow> n \<le> m \<Longrightarrow> broadcasts s G Q m w w'"
  unfolding broadcasts_def by (meson order_trans)

lemma broadcasts_from: "silent w v \<Longrightarrow> broadcasts s G P n v w' \<Longrightarrow> broadcasts s G P n w w'"
  by (simp add: broadcasts_def silent_def)

definition underway ::
  "eth_lib \<Rightarrow> world spender \<Rightarrow> authorization \<Rightarrow> string \<Rightarrow> int \<Rightarrow> nat \<Rightarrow> world \<Rightarrow> world \<Rightarrow> bool" where
  "underway E s row agent amount n w w' \<longleftrightarrow>
     calm w w' \<and> (\<forall>G. gasBound s agent G \<longrightarrow> broadcasts s G (spendTx E s row amount) n w w')"

definition paidOk ::
  "eth_lib \<Rightarrow> world spender \<Rightarrow> authorization \<Rightarrow> string \<Rightarrow> int \<Rightarrow> i64 \<Rightarrow> world \<Rightarrow> spend_result \<Rightarrow> world \<Rightarrow> bool" where
  "paidOk E s row agent amount now w res w' \<longleftrightarrow>
     (\<exists>v t. calm w v \<and> calm v w' \<and> isHexAddress E (sr_Seller res) \<and>
        transferTx E s row (sr_Seller res) amount t \<and> sends (news v w') = [t] \<and>
        confirmed E t (news v w') \<and> sr_TransferTxHash res = hashHex E (txHash E t) \<and>
        ((\<exists>p. permitTx E s row p \<and> confirmed E p (news w v) \<and> sr_PermitTxHash res = hashHex E (txHash E p)) \<or>
         chainCovers E s row agent amount now (news w v)))"

definition paid ::
  "eth_lib \<Rightarrow> world spender \<Rightarrow> authorization \<Rightarrow> string \<Rightarrow> int \<Rightarrow> i64 \<Rightarrow> world \<Rightarrow>
     spend_result res \<Rightarrow> world \<Rightarrow> bool" where
  "paid E s row agent amount now w r w' \<longleftrightarrow>
     underway E s row agent amount 2 w w' \<and> (\<forall>res. r = Ok res \<longrightarrow> paidOk E s row agent amount now w res w')"

lemma silent_underway: "silent w w' \<Longrightarrow> underway E s row agent amount n w w'"
  by (simp add: underway_def silent_calm broadcasts_silent)

lemma underway_calm: "underway E s row agent amount n w w' \<Longrightarrow> calm w w'"
  by (simp add: underway_def)

lemma underway_sent:
  assumes "underway E s row agent amount n w v" and "sent P m v w'" and "\<And>t. P t \<Longrightarrow> spendTx E s row amount t"
    and "n + m \<le> k"
  shows "underway E s row agent amount k w w'"
proof -
  have s: "sent (spendTx E s row amount) m v w'" using assms(2,3) unfolding sent_def by blast
  then have "calm v w'" by (simp add: sent_def)
  moreover have "broadcasts s G (spendTx E s row amount) k w w'" if "gasBound s agent G" for G
    using assms(1) that s by (intro broadcasts_sent [OF _ s assms(4)]) (simp add: underway_def)
  ultimately show ?thesis using assms(1) by (auto simp: underway_def intro: calm_trans)
qed

lemma underway_silent:
  "underway E s row agent amount n w v \<Longrightarrow> silent v w' \<Longrightarrow> underway E s row agent amount n w w'"
  using underway_sent [of E s row agent amount n w v "spendTx E s row amount" 0 w' n] silent_sent by simp

lemma underway_mono:
  "underway E s row agent amount n w v \<Longrightarrow> n \<le> m \<Longrightarrow> underway E s row agent amount m w v"
  unfolding underway_def by (blast intro: broadcasts_mono)

lemma underway_from: "silent w v \<Longrightarrow> underway E s row agent amount n v w' \<Longrightarrow> underway E s row agent amount n w w'"
  unfolding underway_def by (blast intro: broadcasts_from calm_trans silent_calm)

lemma paid_failed: "underway E s row agent amount n w w' \<Longrightarrow> n \<le> 2 \<Longrightarrow> \<not> isOk r \<Longrightarrow> paid E s row agent amount now w r w'"
  by (auto simp: paid_def intro: underway_mono)

text \<open>The transfer at the end, in a world \<open>v\<close> where the allowance is in place.\<close>

lemma transferStep_paid:
  assumes ports: "spend_ports N s" and honest: "honest_signer s"
    and way: "underway E s row agent amount 1 w v" and seller: "isHexAddress E seller" "sr_Seller result = seller"
    and allowed: "(\<exists>p. permitTx E s row p \<and> confirmed E p (news w v) \<and>
        sr_PermitTxHash result = hashHex E (txHash E p)) \<or> chainCovers E s row agent amount now (news w v)"
  shows "wp (transferStep E (env_runtime N) s chainID row seller amount result)
    (paid E s row agent amount now w) v"
proof (rule wp_mono [OF transferStep_wp [OF ports honest]])
  fix r w'
  assume a: "awaited E (transferTx E s row seller amount)
    (\<lambda>t. result\<lparr>sr_TransferTxHash := hashHex E (txHash E t)\<rparr>) v r w'"
  then have sent: "sent (transferTx E s row seller amount) 1 v w'" by (simp add: awaited_def)
  have "underway E s row agent amount 2 w w'"
    using underway_sent [OF way sent, of 2] by (auto simp: spendTx_def)
  moreover have "paidOk E s row agent amount now w res w'" if "r = Ok res" for res
  proof -
    from a that obtain t where t: "res = result\<lparr>sr_TransferTxHash := hashHex E (txHash E t)\<rparr>"
      "transferTx E s row seller amount t" "confirmed E t (news v w')" "sends (news v w') = [t]"
      by (auto simp: awaited_def)
    have "calm w v" "calm v w'" using way sent by (simp_all add: underway_def sent_def)
    then show ?thesis
      unfolding paidOk_def using t seller allowed by (intro exI [of _ v] exI [of _ t]) simp
  qed
  ultimately show "paid E s row agent amount now w r w'" by (simp add: paid_def)
qed

lemma chainCovers_extend:
  assumes "chainCovers E s row agent amount now (news u v)" and "calm w u" and "calm u v"
  shows "chainCovers E s row agent amount now (news w v)"
  using assms news_trans [OF assms(2,3)] by (auto simp: chainCovers_def)

text \<open>A payment that needs the \<open>permit\<close> transaction first.\<close>

lemma permit_then_transfer_paid:
  assumes ports: "spend_ports N s" and honest: "honest_signer s"
    and way: "underway E s row agent amount 0 w v" and seller: "isHexAddress E seller" "sr_Seller result = seller"
  shows "wp (io_bind (permitStep E (env_runtime N) s chainID row result) (\<lambda>result.
     transferStep E (env_runtime N) s chainID row seller amount result)) (paid E s row agent amount now w) v"
  unfolding wp_bind
proof (rule wp_mono [OF permitStep_wp [OF ports honest]])
  fix r w'
  assume a: "awaited E (permitTx E s row) (\<lambda>t. result\<lparr>sr_PermitTxHash := hashHex E (txHash E t)\<rparr>) v r w'"
  have one: "underway E s row agent amount 1 w w'"
    using underway_sent [OF way, of "permitTx E s row" 1 w' 1] a by (auto simp: awaited_def spendTx_def)
  have cwv: "calm w v" and cvw: "calm v w'" using way a by (simp_all add: underway_def awaited_def sent_def)
  show "case r of Ok res \<Rightarrow> wp (transferStep E (env_runtime N) s chainID row seller amount res)
      (paid E s row agent amount now w) w'
    | Err e \<Rightarrow> paid E s row agent amount now w (Err e) w'
    | Panic \<Rightarrow> paid E s row agent amount now w Panic w'"
  proof (cases r)
    case (Ok res)
    with a obtain p where p: "res = result\<lparr>sr_PermitTxHash := hashHex E (txHash E p)\<rparr>"
      "permitTx E s row p" "confirmed E p (news v w')" by (auto simp: awaited_def)
    have "confirmed E p (news w w')" using confirmed_news [OF p(3) cwv cvw calm_refl] .
    with p show ?thesis
      using transferStep_paid [OF ports honest one seller(1), of res] seller(2) by (auto simp: Ok)
  qed (use paid_failed [OF one] in simp_all)
qed

text \<open>The decision about \<open>permit\<close>, in a world \<open>u\<close> reached without a broadcast of the spender.\<close>

lemma allowance_paid:
  assumes ports: "spend_ports N s" and honest: "honest_signer s"
    and way: "underway E s row agent amount 0 w u" and seller: "isHexAddress E seller" "sr_Seller result = seller"
  shows "wp (io_bind (allowanceCovers E s (au_Owner row) (au_Token row) agent amount now) (\<lambda>skipPermit.
     io_bind (if skipPermit then ret result else permitStep E (env_runtime N) s chainID row result) (\<lambda>result.
     transferStep E (env_runtime N) s chainID row seller amount result))) (paid E s row agent amount now w) u"
  unfolding wp_bind [of "allowanceCovers E s _ _ _ _ _"]
proof (rule wp_mono [OF allowanceCovers_wp [OF ports]])
  fix q v
  assume q: "silent u v \<and> (q = Ok True \<longrightarrow> chainCovers E s row agent amount now (news u v))"
  have wayv: "underway E s row agent amount 0 w v" using underway_silent [OF way] q by blast
  have cwu: "calm w u" using way by (simp add: underway_def)
  let ?rest = "\<lambda>skip. io_bind (if skip then ret result else permitStep E (env_runtime N) s chainID row result)
    (\<lambda>result. transferStep E (env_runtime N) s chainID row seller amount result)"
  have "wp (?rest skip) (paid E s row agent amount now w) v" if "q = Ok skip" for skip
  proof (cases skip)
    case True
    have "chainCovers E s row agent amount now (news w v)"
      using q that True cwu silent_calm chainCovers_extend by blast
    then show ?thesis
      using transferStep_paid [OF ports honest underway_mono [OF wayv] seller] by (simp add: True)
  next
    case False
    then show ?thesis using permit_then_transfer_paid [OF ports honest wayv seller] by simp
  qed
  then show "case q of Ok skip \<Rightarrow> wp (?rest skip) (paid E s row agent amount now w) v
    | Err e \<Rightarrow> paid E s row agent amount now w (Err e) v
    | Panic \<Rightarrow> paid E s row agent amount now w Panic v"
    using paid_failed [OF wayv] by (cases q) simp_all
qed

lemma ensureGasStep_calm: "spend_ports N s \<Longrightarrow> moves calm (ensureGasStep s agent chainID result)"
  unfolding ensureGasStep_def by (intro moves_intros) (auto dest: spend_portsD(10))

lemma ensureGasStep_wp:
  assumes ports: "spend_ports N s" and way: "silent w u"
  shows "wp (ensureGasStep s agent chainID result)
    (\<lambda>r u'. underway E s row agent amount 0 w u' \<and> (\<forall>res. r = Ok res \<longrightarrow> sr_Seller res = sr_Seller result)) u"
proof (rule wpI)
  fix r u'
  assume run: "ensureGasStep s agent chainID result u = Some (r, u')"
  have "underway E s row agent amount 0 u u'"
  proof (cases "sd_GasFunder s")
    case None
    with run show ?thesis by (simp add: ensureGasStep_def silent_underway)
  next
    case (Some gf)
    with run obtain q where "gf agent chainID u = Some (q, u')"
      by (auto simp: ensureGasStep_def io_bind_Some_iff io_wrap_def io_try_Some_iff)
    then have "broadcasts s G (spendTx E s row amount) 0 u u'" if "gasBound s agent G" for G
      using that Some by (intro broadcasts_gas) (auto simp: gasBound_def dest: movesD)
    then show ?thesis
      using movesD [OF ensureGasStep_calm [OF ports] run] by (simp add: underway_def)
  qed
  with way have "underway E s row agent amount 0 w u'" by (rule underway_from)
  moreover have "\<forall>res. r = Ok res \<longrightarrow> sr_Seller res = sr_Seller result"
    using run by (auto simp: ensureGasStep_def io_ok split: option.splits)
  ultimately show "underway E s row agent amount 0 w u' \<and> (\<forall>res. r = Ok res \<longrightarrow> sr_Seller res = sr_Seller result)"
    by simp
qed

lemma spendPay_wp:
  assumes ports: "spend_ports N s" and honest: "honest_signer s"
  shows "wp (spendPay E (env_runtime N) s amount now agent row) (paid E s row agent amount now w) w"
proof -
  have failed: "paid E s row agent amount now w r w'" if "silent w w'" "\<not> isOk r" for r w'
    using that by (intro paid_failed [of E s row agent amount 0]) (auto simp: silent_underway)
  have rest: "wp (io_bind (ensureGasStep s agent chainID result) (\<lambda>result.
      io_bind (allowanceCovers E s (au_Owner row) (au_Token row) agent amount now) (\<lambda>skipPermit.
      io_bind (if skipPermit then ret result else permitStep E (env_runtime N) s chainID row result) (\<lambda>result.
      transferStep E (env_runtime N) s chainID row seller amount result)))) (paid E s row agent amount now w) u"
    if "silent w u" "isHexAddress E seller" "sr_Seller result = seller" for u chainID result seller
    unfolding wp_bind [of "ensureGasStep s agent chainID result"]
  proof (rule wp_mono [OF ensureGasStep_wp [where E = E and row = row and amount = amount, OF ports that(1)]])
    fix r :: "spend_result res" and u'
    assume g: "underway E s row agent amount 0 w u' \<and> (\<forall>res. r = Ok res \<longrightarrow> sr_Seller res = sr_Seller result)"
    then show "case r of
        Ok result \<Rightarrow> wp (io_bind (allowanceCovers E s (au_Owner row) (au_Token row) agent amount now) (\<lambda>skipPermit.
          io_bind (if skipPermit then ret result else permitStep E (env_runtime N) s chainID row result) (\<lambda>result.
          transferStep E (env_runtime N) s chainID row seller amount result))) (paid E s row agent amount now w) u'
      | Err e \<Rightarrow> paid E s row agent amount now w (Err e) u'
      | Panic \<Rightarrow> paid E s row agent amount now w Panic u'"
      using that allowance_paid [OF ports honest] paid_failed by (cases r) auto
  qed
  show ?thesis
    unfolding spendPay_def spend_portsD(2) [OF ports] Let_def
  proof (rule wp_silent_bind [of _ w], goal_cases)
    case (3 seller u)
    then show ?case
      unfolding wp_if wp_fail
    proof (intro conjI impI, goal_cases)
      case 2
      show ?case
        by (rule wp_silent_bind [of _ w], intro moves_intros, rule \<open>silent w u\<close>)
          (use \<open>\<not> \<not> isHexAddress E seller\<close> in \<open>auto intro!: rest failed\<close>)
    qed (simp add: failed)
  qed (intro moves_intros spend_portsD(5) [OF ports], simp_all add: failed)
qed

lemma spendPay_calm:
  assumes "spend_ports N s" and "honest_signer s"
    and "spendPay E (env_runtime N) s amount now agent row w = Some (r, w')"
  shows "calm w w'"
  using wpD [OF spendPay_wp [OF assms(1,2)] assms(3)] by (simp add: paid_def underway_def)

section \<open>The check and the booking\<close>

lemma spendCheck_wp:
  assumes ports: "spend_ports N s"
  shows "wp (spendCheck s amount now)
    (\<lambda>r w'. silent w w' \<and> (\<forall>agent row. r = Ok (agent, row) \<longrightarrow>
       (\<exists>u. sg_Address (the (sd_Signer s)) w = Some (Ok agent, u)) \<and>
       ms_ActiveForAgent agent now (w_rows w) = Ok row \<and>
       (\<exists>allowance. setString 10 (au_AmountAtoms row) = Some allowance \<and> spent row + amount \<le> allowance))) w"
proof (rule wpI)
  fix r w'
  assume run: "spendCheck s amount now w = Some (r, w')"
  have "moves silent (spendCheck s amount now)"
    unfolding spendCheck_def spend_portsD(1) [OF ports] Let_def
    by (intro moves_intros spend_portsD(3) [OF ports])
  with run have "silent w w'" by (blast dest: movesD)
  moreover have "(\<exists>u. sg_Address (the (sd_Signer s)) w = Some (Ok agent, u)) \<and>
      ms_ActiveForAgent agent now (w_rows w) = Ok row \<and>
      (\<exists>allowance. setString 10 (au_AmountAtoms row) = Some allowance \<and> spent row + amount \<le> allowance)"
    if "r = Ok (agent, row)" for agent row
  proof -
    from run that obtain u allowance where addr: "sg_Address (the (sd_Signer s)) w = Some (Ok agent, u)"
      and row: "Ok row = ms_ActiveForAgent agent now (w_rows u)"
      and a: "setString 10 (au_AmountAtoms row) = Some allowance" "spent row + amount \<le> allowance"
      by (auto simp: spendCheck_def spend_portsD(1) [OF ports] io_ok memory_store_eval Let_def
          split: option.splits if_splits)
    have "silent w u" using spend_portsD(3) [OF ports] addr by (blast dest: movesD)
    with addr row a show ?thesis by (auto simp: silent_def calm_def)
  qed
  ultimately show "silent w w' \<and> (\<forall>agent row. r = Ok (agent, row) \<longrightarrow>
       (\<exists>u. sg_Address (the (sd_Signer s)) w = Some (Ok agent, u)) \<and>
       ms_ActiveForAgent agent now (w_rows w) = Ok row \<and>
       (\<exists>allowance. setString 10 (au_AmountAtoms row) = Some allowance \<and> spent row + amount \<le> allowance))"
    by blast
qed

text \<open>The row of the spend, and the rows after its booking.\<close>

definition booked :: "rows \<Rightarrow> authorization \<Rightarrow> int \<Rightarrow> rows \<Rightarrow> bool" where
  "booked rows row amount rows' \<longleftrightarrow>
     store_wf rows' \<and> lookupRow rows (rowId row) = Some row \<and>
     lookupRow rows' = (lookupRow rows)(rowId row \<mapsto> bumped row amount)"

lemma spendBook_effect:
  assumes ports: "spend_ports N s"
    and b: "ms_BumpSpent (au_Owner row) agent (au_Token row) (au_Nonce row) (showInt amount) (w_rows w) = Ok rows"
    and run: "spendBook s amount agent row result w = Some (r, w')"
  shows "w_rows w' = rows \<and> extends w w' \<and> sends (w_hist w') = sends (w_hist w) \<and> (\<forall>e. r \<noteq> Err e) \<and>
    (\<forall>res. r = Ok res \<longrightarrow> sr_TransferTxHash res = sr_TransferTxHash result \<and>
       sr_PermitTxHash res = sr_PermitTxHash result \<and> sr_Seller res = sr_Seller result)"
proof -
  let ?u = "w\<lparr>w_rows := rows\<rparr>"
  have bump: "st_BumpSpent memory_store (au_Owner row) agent (au_Token row) (au_Nonce row) (showInt amount) w =
      Some (Ok (), ?u)" using b by (simp add: memory_store_def)
  let ?k = "\<lambda>_. case sd_Crediter s of
       None \<Rightarrow> ret result
     | Some cr \<Rightarrow>
         io_bind (io_both (cr (au_Owner row) (au_Token row) (showInt amount) (sr_TransferTxHash result))) (\<lambda>c.
         ret (credited result c))"
  from run bump have k: "?k () ?u = Some (r, w')"
    unfolding spendBook_def spend_portsD(1) [OF ports]
    by (subst (asm) io_bind_eval(1) [where a = "()" and w' = ?u])
      (simp_all add: io_wrap_def io_try_eval ret_def)
  have "moves silent (?k ())"
    by (intro moves_intros) (rule spend_portsD(11) [OF ports])
  with k have sil: "silent ?u w'" by (blast dest: movesD)
  have noerr: "\<forall>e. r \<noteq> Err e"
    using k by (auto simp: io_bind_Some_iff io_both_def io_try_Some_iff split: option.splits)
  have fields: "sr_TransferTxHash res = sr_TransferTxHash result \<and> sr_PermitTxHash res = sr_PermitTxHash result \<and>
      sr_Seller res = sr_Seller result" if "r = Ok res" for res
    using k that by (auto simp: io_bind_Ok_iff split: option.splits)
  have "w_rows w' = rows" "extends w w'" "sends (w_hist w') = sends (w_hist w)"
    using sil by (auto simp: silent_def calm_def extends_def)
  with noerr fields show ?thesis by blast
qed

lemma spendBook_wp:
  assumes ports: "spend_ports N s" and wf: "store_wf (w_rows w)"
    and row: "ms_ActiveForAgent agent now (w_rows w) = Ok row"
  shows "wp (spendBook s amount agent row result)
    (\<lambda>r w'. booked (w_rows w) row amount (w_rows w') \<and> extends w w' \<and> sends (w_hist w') = sends (w_hist w) \<and>
       (\<forall>e. r \<noteq> Err e) \<and>
       (\<forall>res. r = Ok res \<longrightarrow> sr_TransferTxHash res = sr_TransferTxHash result \<and>
          sr_PermitTxHash res = sr_PermitTxHash result \<and> sr_Seller res = sr_Seller result)) w"
proof (rule wpI)
  fix r w'
  assume run: "spendBook s amount agent row result w = Some (r, w')"
  have "setString 10 (trimSpace (showInt amount)) = Some amount" by simp
  from ms.bump_active [OF wf row this] obtain rows where
    b: "ms_BumpSpent (au_Owner row) agent (au_Token row) (au_Nonce row) (showInt amount) (w_rows w) = Ok rows"
    and rows: "store_wf rows" "lookupRow rows = (lookupRow (w_rows w))(rowId row \<mapsto> bumped row amount)" by blast
  have "lookupRow (w_rows w) (rowId row) = Some row" using ms.active_sound [OF wf row] by blast
  with rows have "booked (w_rows w) row amount rows" by (simp add: booked_def)
  with spendBook_effect [OF ports b run]
  show "booked (w_rows w) row amount (w_rows w') \<and> extends w w' \<and> sends (w_hist w') = sends (w_hist w) \<and>
       (\<forall>e. r \<noteq> Err e) \<and>
       (\<forall>res. r = Ok res \<longrightarrow> sr_TransferTxHash res = sr_TransferTxHash result \<and>
          sr_PermitTxHash res = sr_PermitTxHash result \<and> sr_Seller res = sr_Seller result)"
    by blast
qed

section \<open>The whole spend\<close>

lemma paidOk_from:
  assumes "silent w x" and "paidOk E s row agent amount now x res u"
  shows "paidOk E s row agent amount now w res u"
proof -
  have wx: "calm w x" using assms(1) by (rule silent_calm)
  from assms(2) obtain v t where v: "calm x v" "calm v u" "isHexAddress E (sr_Seller res)"
    "transferTx E s row (sr_Seller res) amount t" "sends (news v u) = [t]" "confirmed E t (news v u)"
    "sr_TransferTxHash res = hashHex E (txHash E t)"
    and p: "(\<exists>p. permitTx E s row p \<and> confirmed E p (news x v) \<and> sr_PermitTxHash res = hashHex E (txHash E p)) \<or>
         chainCovers E s row agent amount now (news x v)"
    unfolding paidOk_def by blast
  have "(\<exists>p. permitTx E s row p \<and> confirmed E p (news w v) \<and> sr_PermitTxHash res = hashHex E (txHash E p)) \<or>
      chainCovers E s row agent amount now (news w v)"
    using p confirmed_news [OF _ wx v(1) calm_refl] chainCovers_extend [OF _ wx v(1)] by blast
  then show ?thesis unfolding paidOk_def using v calm_trans [OF wx v(1)] by blast
qed

text \<open>The agent whose address the signer gave in \<open>w\<close>, if it gave one.\<close>

definition agentOf :: "world spender \<Rightarrow> world \<Rightarrow> string \<Rightarrow> bool" where
  "agentOf s w agent \<longleftrightarrow> (\<exists>u. sg_Address (the (sd_Signer s)) w = Some (Ok agent, u))"

text \<open>
  \<open>spent_ok\<close>: the checked row, the world \<open>u\<close> in which the payment is confirmed while the rows are
  still the original ones, and the booking.
\<close>

definition spent_ok ::
  "eth_lib \<Rightarrow> world spender \<Rightarrow> int \<Rightarrow> i64 \<Rightarrow> world \<Rightarrow> spend_result res \<Rightarrow> world \<Rightarrow> bool" where
  "spent_ok E s amount now w r w' \<longleftrightarrow>
     (\<exists>agent row allowance u. agentOf s w agent \<and>
        ms_ActiveForAgent agent now (w_rows w) = Ok row \<and>
        setString 10 (au_AmountAtoms row) = Some allowance \<and> spent row + amount \<le> allowance \<and>
        calm w u \<and> booked (w_rows w) row amount (w_rows w') \<and> extends u w' \<and>
        (\<exists>res. paidOk E s row agent amount now w res u \<and>
           (\<forall>res'. r = Ok res' \<longrightarrow> sr_TransferTxHash res' = sr_TransferTxHash res \<and>
              sr_PermitTxHash res' = sr_PermitTxHash res \<and> sr_Seller res' = sr_Seller res)))"

definition permit2Call :: "eth_lib \<Rightarrow> world spender \<Rightarrow> transaction \<Rightarrow> bool" where
  "permit2Call E s t \<longleftrightarrow>
     tx_To (tx_payload t) = hexToAddress E (sd_permit2 s) \<and> tx_Value (tx_payload t) = 0"

lemma spendTx_permit2: "spendTx E s row amount t \<Longrightarrow> permit2Call E s t"
  by (auto simp: spendTx_def permitTx_def transferTx_def callTx_def permit2Call_def)

definition spend_outcome ::
  "eth_lib \<Rightarrow> world spender \<Rightarrow> int \<Rightarrow> i64 \<Rightarrow> world \<Rightarrow> spend_result res \<Rightarrow> world \<Rightarrow> bool" where
  "spend_outcome E s amount now w r w' \<longleftrightarrow>
     ((\<exists>e. r = Err e) \<longrightarrow> calm w w') \<and>
     (isOk r \<longrightarrow> spent_ok E s amount now w r w') \<and>
     (calm w w' \<or> spent_ok E s amount now w r w') \<and>
     (\<forall>G. (\<forall>agent u. sg_Address (the (sd_Signer s)) w = Some (Ok agent, u) \<longrightarrow> gasBound s agent G) \<longrightarrow>
        broadcasts s G (permit2Call E s) 2 w w')"

lemma underway_permit2:
  assumes "underway E s row agent amount n w w'" and "n \<le> 2" and "agentOf s w agent"
  shows "\<forall>G. (\<forall>agent u. sg_Address (the (sd_Signer s)) w = Some (Ok agent, u) \<longrightarrow> gasBound s agent G) \<longrightarrow>
    broadcasts s G (permit2Call E s) 2 w w'"
proof (intro allI impI)
  fix G
  assume "\<forall>agent u. sg_Address (the (sd_Signer s)) w = Some (Ok agent, u) \<longrightarrow> gasBound s agent G"
  then have "broadcasts s G (spendTx E s row amount) n w w'"
    using assms(1,3) by (auto simp: underway_def agentOf_def)
  then show "broadcasts s G (permit2Call E s) 2 w w'"
    by (rule broadcasts_mono) (use assms(2) spendTx_permit2 in auto)
qed

lemma spend_outcome_silent: "silent w w' \<Longrightarrow> \<not> isOk r \<Longrightarrow> spend_outcome E s amount now w r w'"
  by (auto simp: spend_outcome_def silent_calm broadcasts_silent)

lemma spend_outcome_failed:
  "underway E s row agent amount 2 w w' \<Longrightarrow> agentOf s w agent \<Longrightarrow> \<not> isOk r \<Longrightarrow>
     spend_outcome E s amount now w r w'"
  unfolding spend_outcome_def using underway_permit2 [OF _ order_refl] underway_calm by blast

text \<open>What the check lets through, and the booking and the payment from there on.\<close>

definition allowed :: "authorization \<Rightarrow> string \<Rightarrow> int \<Rightarrow> i64 \<Rightarrow> rows \<Rightarrow> bool" where
  "allowed row agent amount now rows \<longleftrightarrow> ms_ActiveForAgent agent now rows = Ok row \<and>
     (\<exists>allowance. setString 10 (au_AmountAtoms row) = Some allowance \<and> spent row + amount \<le> allowance)"

lemma spendBook_outcome:
  assumes ports: "spend_ports N s" and wf: "store_wf (w_rows w)" and x: "silent w x"
    and chk: "allowed row agent amount now (w_rows w)" and ag: "agentOf s w agent"
    and pay: "paid E s row agent amount now x (Ok result) u"
  shows "wp (spendBook s amount agent row result) (spend_outcome E s amount now w) u"
proof (rule wp_mono [OF spendBook_wp [OF ports]])
  have xu: "calm x u" using pay by (simp add: paid_def underway_def)
  have wu: "calm w u" using silent_calm [OF x] xu by (rule calm_trans)
  then have rows: "w_rows u = w_rows w" by (simp add: calm_def)
  show "store_wf (w_rows u)" "ms_ActiveForAgent agent now (w_rows u) = Ok row"
    using wf chk rows by (simp_all add: allowed_def)
  have ok: "paidOk E s row agent amount now w result u"
    using pay paidOk_from [OF x] by (simp add: paid_def)
  fix r :: "spend_result res" and w'
  assume b: "booked (w_rows u) row amount (w_rows w') \<and> extends u w' \<and>
      sends (w_hist w') = sends (w_hist u) \<and> (\<forall>e. r \<noteq> Err e) \<and>
      (\<forall>res. r = Ok res \<longrightarrow> sr_TransferTxHash res = sr_TransferTxHash result \<and>
        sr_PermitTxHash res = sr_PermitTxHash result \<and> sr_Seller res = sr_Seller result)"
  then have "spent_ok E s amount now w r w'"
    unfolding spent_ok_def rows using chk [unfolded allowed_def] ag wu ok by blast
  moreover have "\<forall>G. (\<forall>agent u. sg_Address (the (sd_Signer s)) w = Some (Ok agent, u) \<longrightarrow> gasBound s agent G) \<longrightarrow>
      broadcasts s G (permit2Call E s) 2 w w'"
    using underway_permit2 [OF underway_from [OF x] order_refl ag] pay b
    unfolding paid_def broadcasts_def by metis
  ultimately show "spend_outcome E s amount now w r w'"
    unfolding spend_outcome_def using b by blast
qed

lemma spendPay_outcome:
  assumes ports: "spend_ports N s" and honest: "honest_signer s" and wf: "store_wf (w_rows w)"
    and x: "silent w x" and chk: "allowed row agent amount now (w_rows w)" and ag: "agentOf s w agent"
  shows "wp (io_bind (spendPay E (env_runtime N) s amount now agent row) (\<lambda>result.
      spendBook s amount agent row result)) (spend_outcome E s amount now w) x"
  unfolding wp_bind
proof (rule wp_mono [OF spendPay_wp [OF ports honest]])
  fix r :: "spend_result res" and u
  assume p: "paid E s row agent amount now x r u"
  have way: "underway E s row agent amount 2 w u"
    using p underway_from [OF x] by (simp add: paid_def)
  show "case r of Ok result \<Rightarrow> wp (spendBook s amount agent row result) (spend_outcome E s amount now w) u
    | Err e \<Rightarrow> spend_outcome E s amount now w (Err e) u
    | Panic \<Rightarrow> spend_outcome E s amount now w Panic u"
    using spendBook_outcome [OF ports wf x chk ag] p spend_outcome_failed [OF way ag] by (cases r) simp_all
qed

lemma Spend_wp:
  assumes ports: "spend_ports N s" and honest: "honest_signer s" and wf: "store_wf (w_rows w)"
    and pos: "0 < amount"
  shows "wp (Spend E (env_runtime N) (Some s) (Some amount) now) (spend_outcome E s amount now w) w"
proof -
  have "wp (io_bind (spendCheck s amount now) (\<lambda>(agent, row).
      io_bind (spendPay E (env_runtime N) s amount now agent row) (\<lambda>result.
      spendBook s amount agent row result))) (spend_outcome E s amount now w) w"
    unfolding wp_bind [of "spendCheck s amount now"]
  proof (rule wp_mono [OF spendCheck_wp [OF ports]])
    fix r :: "(string \<times> authorization) res" and x
    assume c: "silent w x \<and> (\<forall>agent row. r = Ok (agent, row) \<longrightarrow>
       (\<exists>u. sg_Address (the (sd_Signer s)) w = Some (Ok agent, u)) \<and>
       ms_ActiveForAgent agent now (w_rows w) = Ok row \<and>
       (\<exists>allowance. setString 10 (au_AmountAtoms row) = Some allowance \<and> spent row + amount \<le> allowance))"
    then show "case r of Ok p \<Rightarrow> wp (case p of (agent, row) \<Rightarrow>
          io_bind (spendPay E (env_runtime N) s amount now agent row) (\<lambda>result.
          spendBook s amount agent row result)) (spend_outcome E s amount now w) x
      | Err e \<Rightarrow> spend_outcome E s amount now w (Err e) x
      | Panic \<Rightarrow> spend_outcome E s amount now w Panic x"
      using spend_outcome_silent spendPay_outcome [OF ports honest wf]
      by (cases r) (auto simp: allowed_def agentOf_def split: prod.split)
  qed
  then show ?thesis
    using spend_portsD(6-9) [OF ports] pos by (auto simp: Spend_def notPositive_def)
qed

lemma Spend_not_positive:
  "notPositive amt \<Longrightarrow> Spend E rt s amt now w = Some (r, w') \<Longrightarrow> w' = w \<and> (\<exists>e. r = Err e)"
  by (auto simp: Spend_def split: option.splits if_splits)

text \<open>A signature that decodes is not blank.\<close>

lemma hasSignature_decodes: "decodeSigOnchain (au_SignatureHex r) = Ok b \<Longrightarrow> hasSignature r"
  by (auto simp: decodeSigOnchain_def hasSignature_def trimPrefix_def hasPrefix_def)

section \<open>A concrete spend\<close>

text \<open>
  The spender of the demo signer, on the demo node, without gas funder and crediter, and an
  authorization over 100 atoms for its agent.
\<close>

definition demo_spender :: "world spender" where
  "demo_spender =
    \<lparr>sd_Store = Some memory_store, sd_RPC = Some (env_rpc demo_env),
     sd_Signer = Some (bip44_port demo_lib (Some demo_signer)),
     sd_SellerAddressFn = Some (env_seller demo_env), sd_GasFunder = None, sd_Crediter = None,
     sd_Permit2Addr = [], sd_ReceiptTimeout = 0, sd_PollInterval = 0\<rparr>"

definition demo_agent :: string where
  "demo_agent = (case fst (bs_Address demo_lib (Some demo_signer)) of Ok a \<Rightarrow> a | _ \<Rightarrow> [])"

definition demo_grant :: authorization where
  "demo_grant =
    \<lparr>au_Owner = demo_address_text 4, au_Agent = demo_agent, au_Token = demo_address_text 6,
     au_AmountAtoms = showInt 100, au_Expiration = 2000, au_Nonce = 1,
     au_SignatureHex = ''0x'' @ hexEncode (replicate 65 1), au_SpentAtoms = ''0'',
     au_Revoked = False, au_OnchainLocked = False, au_CreatedAtUnix = 7\<rparr>"

definition demo_spend_world :: world where
  "demo_spend_world = \<lparr>w_rows = [demo_grant], w_mark = 0, w_hist = []\<rparr>"

lemma demo_agent: "fst (bs_Address demo_lib (Some demo_signer)) = Ok demo_agent"
  and demo_agent_hex: "isHexAddress demo_lib demo_agent"
proof -
  obtain k where k: "bs_derive demo_lib (Some demo_signer) = Ok k" using demo_signer_key by blast
  then have a: "fst (bs_Address demo_lib (Some demo_signer)) = Ok (ak_Address k)"
    by (simp add: bs_Address_def io_ok)
  then show "fst (bs_Address demo_lib (Some demo_signer)) = Ok demo_agent" by (simp add: demo_agent_def)
  from bs_derive_key [OF k] obtain x where "ak_Address k = addressHex demo_lib x" by blast
  with a demo_address_text_law show "isHexAddress demo_lib demo_agent"
    by (simp add: demo_agent_def address_text_law_def)
qed

lemma demo_signs_tx:
  "fst (bs_SignTx demo_lib (Some demo_signer) (Some t) (Some 8453)) = Ok (t\<lparr>tx_sig := Some [1]\<rparr>)"
proof -
  obtain k where "bs_derive demo_lib (Some demo_signer) = Ok k" "length (ak_PrivateKey k) = 32"
    using demo_signer_key by blast
  then show ?thesis unfolding bs_SignTx_Ok_iff by (simp add: demo_simps demo_key_def)
qed

lemma demo_spend_ports: "spend_ports demo_env demo_spender"
  unfolding spend_ports_def demo_spender_def bip44_port_def
  by (simp add: moves_lift env_ports_silent)

lemma demo_honest: "honest_signer demo_spender"
  by (auto simp: honest_signer_def demo_spender_def bip44_port_def bs_SignTx_Ok_iff demo_simps dest!: sym [of "Ok _"])

lemma demo_buildSignSend:
  "\<exists>t w'. buildSignSend demo_lib demo_spender (Some 8453) to data w = Some (Ok t, w') \<and> calm w w'"
proof -
  have s: "the (sd_RPC demo_spender) = env_rpc demo_env"
    "sg_Address (the (sd_Signer demo_spender)) u = Some (Ok demo_agent, u)"
    "sg_SignTx (the (sd_Signer demo_spender)) (Some t) (Some 8453) u = Some (Ok (t\<lparr>tx_sig := Some [1]\<rparr>), u)" for u t
    by (simp_all add: demo_spender_def bip44_port_def demo_agent demo_signs_tx lift_def)
  have "\<exists>t w'. buildSignSend demo_lib demo_spender (Some 8453) to data w = Some (Ok t, w')"
    by (simp add: buildSignSend_def Let_def s demo_calls io_bind_def io_try_def io_wrap_def io_both_def
        ret_def fail_def lift_def gasPriceOf_def notPositive_def)
  then show ?thesis
    using wpD [OF buildSignSend_wp [OF demo_spend_ports demo_honest]]
    by (auto simp: broadcastOne_def sent_def)
qed

lemma demo_decode: "decodeSigOnchain (au_SignatureHex demo_grant) = Ok ((replicate 65 1)[64 := 28])"
proof -
  have "\<forall>c\<in>set (''0x'' @ hexEncode (replicate 65 1)). plain c"
    using hexEncode_hex [of "replicate 65 1"] isHexChar_plain by (auto simp: plain_def code_def)
  then have "trimSpace (''0x'' @ hexEncode (replicate 65 1)) = ''0x'' @ hexEncode (replicate 65 1)"
    by (rule trimSpace_all_plain)
  moreover have "trimPrefix (''0x'' @ hexEncode (replicate 65 1)) ''0x'' = hexEncode (replicate 65 1)"
    by (rule trimPrefix_append)
  ultimately show ?thesis by (simp add: decodeSigOnchain_def demo_grant_def)
qed

lemma demo_permit_encodes:
  "\<exists>data. EncodePermitCall demo_lib (permitArgsOf demo_grant 100 ((replicate 65 1)[64 := 28])) = Ok data"
  using demo_agent_hex
  by (simp add: EncodePermitCall_def permitArgsOf_def demo_grant_def notPositive_def permit2_init_def
      mustABIType_def) (simp add: demo_simps)

lemma demo_transfer_encodes:
  "0 < d \<Longrightarrow> \<exists>data. EncodeTransferFromCall demo_lib
     (transferArgsOf (demo_address_text 4) (demo_address_text 9) (demo_address_text 6) d) = Ok data"
  by (simp add: EncodeTransferFromCall_def transferArgsOf_def notPositive_def permit2_init_def
      mustABIType_def) (simp add: demo_simps)

text \<open>The payment succeeds from every world.\<close>

lemma demo_pay:
  assumes "0 < d"
  shows "\<exists>res w'. spendPay demo_lib (env_runtime demo_env) demo_spender d now demo_agent
    (demo_grant\<lparr>au_SpentAtoms := sp\<rparr>) w = Some (Ok res, w') \<and> calm w w'"
proof -
  obtain pd where pd: "EncodePermitCall demo_lib (permitArgsOf demo_grant 100 ((replicate 65 1)[64 := 28])) = Ok pd"
    using demo_permit_encodes by blast
  have pd': "EncodePermitCall demo_lib (permitArgsOf (demo_grant\<lparr>au_SpentAtoms := sp\<rparr>) 100 ((replicate 65 1)[64 := 28])) = Ok pd"
    using pd by (simp add: permitArgsOf_def)
  obtain td where td: "EncodeTransferFromCall demo_lib
     (transferArgsOf (demo_address_text 4) (demo_address_text 9) (demo_address_text 6) d) = Ok td"
    using demo_transfer_encodes [OF assms] by blast
  obtain t u where b: "\<And>to data w. buildSignSend demo_lib demo_spender (Some 8453) to data w =
      Some (Ok (t to data w), u to data w)"
    using demo_buildSignSend by metis
  have sd: "the (sd_RPC demo_spender) = env_rpc demo_env" "sd_GasFunder demo_spender = None"
    "the (sd_SellerAddressFn demo_spender) v = Some (Ok (demo_address_text 9), v\<lparr>w_hist := w_hist v @ [EvSeller]\<rparr>)" for v
    by (simp_all add: demo_spender_def env_seller_def demo_env_simps)
  have g: "au_Owner demo_grant = demo_address_text 4" "au_Token demo_grant = demo_address_text 6"
    "au_AmountAtoms demo_grant = showInt 100" by (simp_all add: demo_grant_def)
  have "\<exists>res w'. spendPay demo_lib (env_runtime demo_env) demo_spender d now demo_agent
    (demo_grant\<lparr>au_SpentAtoms := sp\<rparr>) w = Some (Ok res, w')"
    by (simp add: spendPay_def permitStep_def transferStep_def sendPermit_def sendTransferFrom_def ensureGasStep_def
      allowanceCovers_def coversAnswer_def sd b pd' td g demo_decode demo_wait demo_calls demo_agent_hex
      Let_def io_bind_def io_try_def io_wrap_def io_both_def ret_def fail_def lift_def)
  then show ?thesis using spendPay_calm [OF demo_spend_ports demo_honest] by blast
qed

lemma demo_grant_pick:
  assumes "sint now < 2000"
  shows "ms_ActiveForAgent demo_agent now [demo_grant\<lparr>au_SpentAtoms := sp\<rparr>] = Ok (demo_grant\<lparr>au_SpentAtoms := sp\<rparr>)"
proof -
  have sg: "hasSignature (demo_grant\<lparr>au_SpentAtoms := sp\<rparr>)"
    using hasSignature_decodes [of "demo_grant\<lparr>au_SpentAtoms := sp\<rparr>"] demo_decode by simp
  then show ?thesis
    using assms by (simp add: ms_ActiveForAgent_def pickActive_def demo_grant_def)
qed

lemma demo_grant_wf: "store_wf (w_rows demo_spend_world)"
  by (simp add: store_wf_def demo_spend_world_def readable_def demo_grant_def)

lemma demo_spend_rows: "w_rows demo_spend_world = [demo_grant\<lparr>au_SpentAtoms := showInt 0\<rparr>]"
  by (simp add: demo_spend_world_def demo_grant_def showInt_def showNat.simps [of 0] code_def
      flip: code_inj)

lemma demo_check:
  assumes "w_rows w = [demo_grant\<lparr>au_SpentAtoms := showInt x\<rparr>]" and "sint now < 2000" and "x + d \<le> 100"
  shows "spendCheck demo_spender d now w = Some (Ok (demo_agent, demo_grant\<lparr>au_SpentAtoms := showInt x\<rparr>), w)"
  using assms demo_grant_pick [OF assms(2), of "showInt x"]
  by (simp add: spendCheck_def demo_spender_def bip44_port_def demo_agent io_bind_def io_try_def io_wrap_def
      memory_store_def ret_def lift_def fail_def Let_def demo_grant_def spent_def orZero_def)

lemma demo_book:
  assumes "w_rows w = [demo_grant\<lparr>au_SpentAtoms := showInt x\<rparr>]"
  shows "spendBook demo_spender d demo_agent (demo_grant\<lparr>au_SpentAtoms := sp\<rparr>) res w =
    Some (Ok res, w\<lparr>w_rows := [demo_grant\<lparr>au_SpentAtoms := showInt (x + d)\<rparr>]\<rparr>)"
  using assms
  by (simp add: spendBook_def demo_spender_def io_bind_def io_try_def io_wrap_def memory_store_def ret_def fail_def
      ms_BumpSpent_def idMatch_def demo_grant_def orZero_def)

lemma demo_spend:
  assumes "w_rows w = [demo_grant\<lparr>au_SpentAtoms := showInt x\<rparr>]" and "sint now < 2000" and "0 < d" and "x + d \<le> 100"
  shows "\<exists>res w'. Spend demo_lib (env_runtime demo_env) (Some demo_spender) (Some d) now w = Some (Ok res, w') \<and>
    w_rows w' = [demo_grant\<lparr>au_SpentAtoms := showInt (x + d)\<rparr>]"
proof -
  obtain res u where pay: "spendPay demo_lib (env_runtime demo_env) demo_spender d now demo_agent
    (demo_grant\<lparr>au_SpentAtoms := showInt x\<rparr>) w = Some (Ok res, u)" and c: "calm w u"
    using demo_pay [OF assms(3)] by blast
  have "w_rows u = [demo_grant\<lparr>au_SpentAtoms := showInt x\<rparr>]" using c assms(1) by (simp add: calm_def)
  from demo_book [OF this] demo_check [OF assms(1,2,4)] pay assms(3) show ?thesis
    by (simp add: Spend_def notPositive_def io_bind_eval)
      (simp add: demo_spender_def)
qed

section \<open>Sequences of spends\<close>

text \<open>No row has been spent beyond its allowance.\<close>

definition withinAllowance :: "rows \<Rightarrow> bool" where
  "withinAllowance rows \<longleftrightarrow>
     (\<forall>i r a. lookupRow rows i = Some r \<longrightarrow> setString 10 (au_AmountAtoms r) = Some a \<longrightarrow> spent r \<le> a)"

definition totalSpent :: "rows \<Rightarrow> int" where
  "totalSpent rows = (\<Sum>i\<in>dom (lookupRow rows). spent (the (lookupRow rows i)))"

text \<open>
  \<open>spend_run E N w sums w'\<close>: from \<open>w\<close>, spends that each return before the next one starts lead to
  \<open>w'\<close>; \<open>sums i\<close> is the sum of the amounts of those that reported success and for whose agent the
  store selected the authorization \<open>i\<close>. The spends may be of different spenders (agents) over the same
  store and node, at any times; lockdowns may come between.
\<close>

inductive spend_run :: "eth_lib \<Rightarrow> env \<Rightarrow> world \<Rightarrow> (row_id \<Rightarrow> int) \<Rightarrow> world \<Rightarrow> bool" for E N where
  run_none: "spend_run E N w (\<lambda>_. 0) w"
| run_paid: "spend_run E N w sums u \<Longrightarrow> spend_ports N s \<Longrightarrow> honest_signer s \<Longrightarrow>
    agentOf s u agent \<Longrightarrow> ms_ActiveForAgent agent now (w_rows u) = Ok row \<Longrightarrow>
    Spend E (env_runtime N) (Some s) (Some amount) now u = Some (Ok res, w') \<Longrightarrow>
    spend_run E N w (sums(rowId row := sums (rowId row) + amount)) w'"
| run_failed: "spend_run E N w sums u \<Longrightarrow> spend_ports N s \<Longrightarrow> honest_signer s \<Longrightarrow>
    Spend E (env_runtime N) (Some s) amt now u = Some (Err e, w') \<Longrightarrow> spend_run E N w sums w'"
| run_locked: "spend_run E N w sums u \<Longrightarrow>
    w' = u\<lparr>w_rows := ms_MarkLocked owner agent token (w_rows u)\<rparr> \<Longrightarrow> spend_run E N w sums w'"

text \<open>The same authorizations, each one's total grown by what was paid on it.\<close>

definition grown :: "rows \<Rightarrow> (row_id \<Rightarrow> int) \<Rightarrow> rows \<Rightarrow> bool" where
  "grown rows sums rows' \<longleftrightarrow>
     (\<forall>i. case lookupRow rows i of
            None \<Rightarrow> lookupRow rows' i = None \<and> sums i = 0
          | Some r \<Rightarrow> \<exists>r'. lookupRow rows' i = Some r' \<and> spent r' = spent r + sums i)"

lemma grown_refl: "grown rows (\<lambda>_. 0) rows"
  by (simp add: grown_def split: option.split)

lemma finite_dom_lookup: "finite (dom (lookupRow rows))"
proof (rule finite_subset)
  show "dom (lookupRow rows) \<subseteq> rowId ` set rows"
    using lookupRow_None_iff [of rows] by (meson domIff subsetI)
qed simp

lemma Spend_Ok_outcome:
  assumes "spend_ports N s" and "honest_signer s" and "store_wf (w_rows w)"
    and run: "Spend E (env_runtime N) (Some s) amt now w = Some (Ok res, w')"
  obtains amount where "amt = Some amount" "0 < amount" "spent_ok E s amount now w (Ok res) w'"
proof -
  from run have "\<not> notPositive amt" using Spend_not_positive by fastforce
  then obtain amount where a: "amt = Some amount" "0 < amount" by (auto simp: notPositive_iff)
  with wpD [OF Spend_wp [OF assms(1-3) a(2)]] run have "spent_ok E s amount now w (Ok res) w'"
    by (simp add: spend_outcome_def)
  with a that show thesis by blast
qed

lemma Spend_Err_calm:
  assumes "spend_ports N s" and "honest_signer s" and "store_wf (w_rows w)"
    and run: "Spend E (env_runtime N) (Some s) amt now w = Some (Err e, w')"
  shows "calm w w'"
proof (cases "notPositive amt")
  case True
  with Spend_not_positive run show ?thesis by fastforce
next
  case False
  then obtain amount where a: "amt = Some amount" "0 < amount" by (auto simp: notPositive_iff)
  with wpD [OF Spend_wp [OF assms(1-3) a(2)]] run show ?thesis
    by (auto simp: spend_outcome_def)
qed

lemma booked_total:
  assumes "booked rows row amount rows'"
  shows "totalSpent rows' = totalSpent rows + amount"
proof -
  let ?f = "\<lambda>m i. spent (the (m i :: authorization option))"
  let ?i = "rowId row" and ?D = "dom (lookupRow rows)"
  from assms have at: "lookupRow rows ?i = Some row"
    and up: "lookupRow rows' = (lookupRow rows)(?i \<mapsto> bumped row amount)" by (simp_all add: booked_def)
  have i: "?i \<in> ?D" using at by blast
  have d: "dom (lookupRow rows') = ?D" using up i by auto
  have "totalSpent rows' = ?f (lookupRow rows') ?i + (\<Sum>i\<in>?D - {?i}. ?f (lookupRow rows') i)"
    unfolding totalSpent_def d by (rule sum.remove [OF finite_dom_lookup i])
  also have "(\<Sum>i\<in>?D - {?i}. ?f (lookupRow rows') i) = (\<Sum>i\<in>?D - {?i}. ?f (lookupRow rows) i)"
    by (rule sum.cong) (simp_all add: up)
  also have "?f (lookupRow rows') ?i = spent row + amount" by (simp add: up ms.spent_bumped)
  also have "spent row + amount + (\<Sum>i\<in>?D - {?i}. ?f (lookupRow rows) i) = totalSpent rows + amount"
    unfolding totalSpent_def sum.remove [OF finite_dom_lookup i] by (simp add: at)
  finally show ?thesis .
qed

lemma booked_within:
  assumes b: "booked rows row amount rows'" and "withinAllowance rows"
    and "setString 10 (au_AmountAtoms row) = Some allowance" "spent row + amount \<le> allowance"
  shows "withinAllowance rows'"
  unfolding withinAllowance_def
proof (intro allI impI)
  fix i r a
  assume r: "lookupRow rows' i = Some r" and a: "setString 10 (au_AmountAtoms r) = Some a"
  have amt: "au_AmountAtoms (bumped row amount) = au_AmountAtoms row" by (simp add: bumped_def)
  show "spent r \<le> a"
  proof (cases "i = rowId row")
    case True
    then have "r = bumped row amount" using r b by (simp add: booked_def)
    then show ?thesis using a assms(3,4) amt by (simp add: ms.spent_bumped)
  next
    case False
    then have "lookupRow rows i = Some r" using r b by (simp add: booked_def)
    then show ?thesis using a assms(2) unfolding withinAllowance_def by blast
  qed
qed

lemma locked_total_within:
  assumes "store_wf rows"
  shows "totalSpent (ms_MarkLocked ow ag tk rows) = totalSpent rows"
    and "withinAllowance rows \<Longrightarrow> withinAllowance (ms_MarkLocked ow ag tk rows)"
proof -
  have l: "lookupRow (ms_MarkLocked ow ag tk rows) i = map_option (lockedBy ow ag tk) (lookupRow rows i)" for i
    using ms.lock_law [OF assms] by blast
  have f: "spent (lockedBy ow ag tk r) = spent r" "au_AmountAtoms (lockedBy ow ag tk r) = au_AmountAtoms r" for r
    by (simp_all add: lockedBy_def spent_def)
  have "dom (lookupRow (ms_MarkLocked ow ag tk rows)) = dom (lookupRow rows)"
    using l by (auto simp: dom_def)
  then show "totalSpent (ms_MarkLocked ow ag tk rows) = totalSpent rows"
    unfolding totalSpent_def by (intro sum.cong) (auto simp: l f)
  show "withinAllowance rows \<Longrightarrow> withinAllowance (ms_MarkLocked ow ag tk rows)"
    by (auto simp: withinAllowance_def l f)
qed

lemma grown_booked:
  assumes g: "grown rows sums rows'" and b: "booked rows' row amount rows''"
  shows "grown rows (sums(rowId row := sums (rowId row) + amount)) rows''"
  unfolding grown_def
proof
  fix i
  have at: "lookupRow rows' (rowId row) = Some row"
    "lookupRow rows'' = (lookupRow rows')(rowId row \<mapsto> bumped row amount)" using b by (simp_all add: booked_def)
  from g [unfolded grown_def, rule_format, of i] at(1)
  show "case lookupRow rows i of
      None \<Rightarrow> lookupRow rows'' i = None \<and> (sums(rowId row := sums (rowId row) + amount)) i = 0
    | Some r \<Rightarrow> \<exists>r'. lookupRow rows'' i = Some r' \<and>
        spent r' = spent r + (sums(rowId row := sums (rowId row) + amount)) i"
    unfolding at(2) by (auto simp: ms.spent_bumped split: option.splits)
qed

lemma grown_locked:
  assumes "grown rows sums rows'" and "store_wf rows'"
  shows "grown rows sums (ms_MarkLocked ow ag tk rows')"
proof -
  have l: "lookupRow (ms_MarkLocked ow ag tk rows') i = map_option (lockedBy ow ag tk) (lookupRow rows' i)" for i
    using ms.lock_law [OF assms(2)] by blast
  have "spent (lockedBy ow ag tk r) = spent r" for r by (simp add: lockedBy_def spent_def)
  with assms(1) show ?thesis
    unfolding grown_def l by (fastforce split: option.splits)
qed

lemma spend_run_invariant:
  "spend_run E N w sums w' \<Longrightarrow> store_wf (w_rows w) \<Longrightarrow> withinAllowance (w_rows w) \<Longrightarrow>
     store_wf (w_rows w') \<and> withinAllowance (w_rows w') \<and> grown (w_rows w) sums (w_rows w')"
proof (induction rule: spend_run.induct)
  case (run_none w)
  then show ?case by (simp add: grown_refl)
next
  case (run_paid w sums u s agent now row amount res w')
  then have u: "store_wf (w_rows u)" "withinAllowance (w_rows u)" "grown (w_rows w) sums (w_rows u)" by simp_all
  from Spend_Ok_outcome [OF run_paid.hyps(2,3) u(1) run_paid.hyps(6)] obtain
    "spent_ok E s amount now u (Ok res) w'" by auto
  then obtain agent' row' allowance where ag: "agentOf s u agent'" "ms_ActiveForAgent agent' now (w_rows u) = Ok row'"
    and b: "booked (w_rows u) row' amount (w_rows w')"
    and a: "setString 10 (au_AmountAtoms row') = Some allowance" "spent row' + amount \<le> allowance"
    unfolding spent_ok_def by blast
  have "row' = row" using ag run_paid.hyps(4,5) by (auto simp: agentOf_def)
  then have b: "booked (w_rows u) row amount (w_rows w')"
    and a: "setString 10 (au_AmountAtoms row) = Some allowance" "spent row + amount \<le> allowance"
    using a b by simp_all
  have "store_wf (w_rows w')" using b by (simp add: booked_def)
  then show ?case using booked_within [OF b u(2) a] grown_booked [OF u(3) b] by (simp del: fun_upd_apply)
next
  case (run_failed w sums u s amt now e w')
  then have u: "store_wf (w_rows u)" by simp
  from Spend_Err_calm [OF run_failed.hyps(2,3) u run_failed.hyps(4)] have "w_rows w' = w_rows u"
    by (simp add: calm_def)
  then show ?case using run_failed by simp
next
  case (run_locked w sums u w' owner agent token)
  then have u: "store_wf (w_rows u)" "withinAllowance (w_rows u)" "grown (w_rows w) sums (w_rows u)" by simp_all
  then show ?case
    using run_locked locked_total_within [OF u(1)] ms.lock_law [OF u(1)] grown_locked [OF u(3,1)] by simp
qed

text \<open>Summed over the authorizations, the growth is the sum of what was paid.\<close>

lemma grown_total:
  assumes "grown rows sums rows'"
  shows "totalSpent rows' = totalSpent rows + (\<Sum>i\<in>dom (lookupRow rows). sums i)"
proof -
  let ?f = "\<lambda>m i. spent (the (m i :: authorization option))"
  have g: "case lookupRow rows i of
            None \<Rightarrow> lookupRow rows' i = None \<and> sums i = 0
          | Some r \<Rightarrow> \<exists>r'. lookupRow rows' i = Some r' \<and> spent r' = spent r + sums i" for i
    using assms unfolding grown_def by blast
  have d: "dom (lookupRow rows') = dom (lookupRow rows)"
  proof (rule set_eqI)
    fix i
    show "i \<in> dom (lookupRow rows') \<longleftrightarrow> i \<in> dom (lookupRow rows)"
      using g [of i] by (auto simp: dom_def split: option.splits)
  qed
  have "?f (lookupRow rows') i = ?f (lookupRow rows) i + sums i" if "i \<in> dom (lookupRow rows)" for i
    using g [of i] that by (auto split: option.splits)
  then show ?thesis unfolding totalSpent_def d by (simp add: sum.distrib cong: sum.cong)
qed

section \<open>The signature on its way to the chain\<close>

text \<open>The normalised text decodes to the signature that was verified.\<close>

lemma decodeSigOnchain_normalized:
  assumes "decodeSig65 s = Ok b"
  shows "decodeSigOnchain (normalizeSigHex s) = Ok (b[64 := b ! 64 + 27])"
proof -
  from assms obtain raw where n: "normalizeSigHex s = ''0x'' @ toLower (trimPrefix (trimSpace s) ''0x'')"
    and raw: "hexDecode (trimPrefix (trimSpace s) ''0x'') = Ok raw" "length raw = 65"
    and b: "b = (if raw ! 64 \<ge> 27 then raw[64 := raw ! 64 - 27] else raw)" by (rule normalizeSigHex_decoded)
  let ?t = "toLower (trimPrefix (trimSpace s) ''0x'')"
  have t: "hexDecode ?t = Ok raw" using raw by simp
  have "\<forall>c\<in>set ?t. plain c" using hexDecode_hex [OF t] isHexChar_plain by blast
  moreover have "\<forall>c\<in>set ''0x''. plain c" by (simp add: plain_def code_def)
  ultimately have "\<forall>c\<in>set (''0x'' @ ?t). plain c" unfolding set_append by blast
  then have "trimSpace (''0x'' @ ?t) = ''0x'' @ ?t" by (rule trimSpace_all_plain)
  moreover have "trimPrefix (''0x'' @ ?t) ''0x'' = ?t" by (rule trimPrefix_append)
  moreover have "length ?t = 130" using hexDecode_length [OF t] raw(2) by simp
  ultimately have "decodeSigOnchain (normalizeSigHex s) =
      Ok (if raw ! 64 < 27 then raw[64 := raw ! 64 + 27] else raw)"
    using t unfolding n by (simp add: decodeSigOnchain_def)
  also have "(if raw ! 64 < 27 then raw[64 := raw ! 64 + 27] else raw) = b[64 := b ! 64 + 27]"
    using raw(2) unfolding b by (auto simp: not_less)
  finally show ?thesis .
qed

section \<open>Properties\<close>

text \<open>
  C1: a spend never takes an authorization beyond its allowance. When \<open>Spend\<close> succeeds, the amount
  was positive, \<open>ActiveForAgent\<close> picked a row of the signer's address, neither revoked nor locked,
  unexpired and signed, whose allowance covers what was spent before plus this amount, and the only change of the store is that exactly this row's total grew by exactly the
  amount, staying within the allowance. When it returns an error, the rows are untouched. This holds
  for every behaviour of the node, the gas funder, the seller lookup and the crediter.
\<close>

theorem spend_within_allowance:
  assumes "spend_ports N s" and "honest_signer s" and "store_wf (w_rows w)"
    and "Spend E (env_runtime N) (Some s) amt now w = Some (r, w')"
  shows "case r of
    Ok _ \<Rightarrow>
      (\<exists>amount agent row allowance row'. amt = Some amount \<and> 0 < amount \<and> agentOf s w agent \<and>
         ms_ActiveForAgent agent now (w_rows w) = Ok row \<and>
         equalFold (au_Agent row) agent \<and> usable now row \<and> hasSignature row \<and>
         setString 10 (au_AmountAtoms row) = Some allowance \<and>
         lookupRow (w_rows w') = (lookupRow (w_rows w))(rowId row \<mapsto> row') \<and>
         row' = row\<lparr>au_SpentAtoms := showInt (spent row + amount)\<rparr> \<and>
         spent row' = spent row + amount \<and> spent row' \<le> allowance \<and> store_wf (w_rows w'))
  | Err _ \<Rightarrow> w_rows w' = w_rows w
  | Panic \<Rightarrow> True"
proof (cases r)
  case (Ok res)
  from Spend_Ok_outcome [OF assms(1-3) assms(4) [unfolded Ok]] obtain amount
    where a: "amt = Some amount" "0 < amount" "spent_ok E s amount now w (Ok res) w'" .
  then obtain agent row allowance where r: "ms_ActiveForAgent agent now (w_rows w) = Ok row"
    "setString 10 (au_AmountAtoms row) = Some allowance" "spent row + amount \<le> allowance" and ag: "agentOf s w agent"
    and b: "booked (w_rows w) row amount (w_rows w')"
    unfolding spent_ok_def by blast
  have "bumped row amount = row\<lparr>au_SpentAtoms := showInt (spent row + amount)\<rparr>" by (simp add: bumped_def)
  moreover have "spent (bumped row amount) \<le> allowance" using r(3) by (simp add: ms.spent_bumped)
  ultimately show ?thesis
    unfolding Ok res.case using a(1,2) ag r(1,2) b ms.spent_bumped ms.active_sound [OF assms(3) r(1)]
    unfolding booked_def by metis
next
  case (Err e)
  from Spend_Err_calm [OF assms(1-3) assms(4) [unfolded Err]] show ?thesis
    by (simp add: Err calm_def)
qed simp

theorem spend_within_allowance_witness:
  "\<exists>res w' row'. Spend demo_lib (env_runtime demo_env) (Some demo_spender) (Some 30) 1000 demo_spend_world =
       Some (Ok res, w') \<and> row' \<in> ran (lookupRow (w_rows w')) \<and> spent row' \<le> 100"
proof -
  obtain res w' where run: "Spend demo_lib (env_runtime demo_env) (Some demo_spender) (Some 30) 1000 demo_spend_world =
      Some (Ok res, w')" using demo_spend [OF demo_spend_rows, of 1000 30] by auto
  from spend_within_allowance [OF demo_spend_ports demo_honest demo_grant_wf run]
  obtain agent row allowance row' where r: "ms_ActiveForAgent agent 1000 (w_rows demo_spend_world) = Ok row"
    "setString 10 (au_AmountAtoms row) = Some allowance" "spent row' \<le> allowance"
    "lookupRow (w_rows w') = (lookupRow (w_rows demo_spend_world))(rowId row \<mapsto> row')" by auto
  have "row \<in> set (w_rows demo_spend_world)"
    using ms.active_sound [OF demo_grant_wf r(1)] lookupRow_Some by blast
  then have "au_AmountAtoms row = showInt 100" by (simp add: demo_spend_world_def demo_grant_def)
  moreover have "row' \<in> ran (lookupRow (w_rows w'))" unfolding r(4) by (rule ranI [of _ "rowId row"]) simp
  ultimately show ?thesis using r run by auto
qed

text \<open>
  C2: a successful spend was paid on chain, in this order: first either the chain reported an
  allowance that covers the amount and has not expired, or the \<open>permit\<close> calldata of the picked row
  was broadcast to the Permit2 contract and confirmed with status 1; then exactly one transaction
  was broadcast, the \<open>transferFrom\<close> of the amount from the row's owner to the seller in the row's
  token, and confirmed with status 1 under the hash that is reported; up to that point
  the rows of the store were the original ones.
\<close>

theorem spend_paid_before_booked:
  assumes "spend_ports N s" and "honest_signer s" and "store_wf (w_rows w)"
    and "Spend E (env_runtime N) (Some s) amt now w = Some (Ok res, w')"
  shows "\<exists>amount agent row v u t data. amt = Some amount \<and>
    ms_ActiveForAgent agent now (w_rows w) = Ok row \<and>
    calm w v \<and> calm v u \<and> extends u w' \<and> w_rows u = w_rows w \<and>
    (chainCovers E s row agent amount now (news w v) \<or>
     (\<exists>p. permitTx E s row p \<and> confirmed E p (news w v) \<and> sr_PermitTxHash res = hashHex E (txHash E p))) \<and>
    EncodeTransferFromCall E (transferArgsOf (au_Owner row) (sr_Seller res) (au_Token row) amount) = Ok data \<and>
    tx_Data (tx_payload t) = data \<and> permit2Call E s t \<and>
    sends (news v u) = [t] \<and> confirmed E t (news v u) \<and>
    sr_TransferTxHash res = hashHex E (txHash E t)"
proof -
  from Spend_Ok_outcome [OF assms] obtain amount
    where a: "amt = Some amount" "spent_ok E s amount now w (Ok res) w'" .
  then obtain agent row u res0 where r: "ms_ActiveForAgent agent now (w_rows w) = Ok row" "calm w u" "extends u w'"
    "paidOk E s row agent amount now w res0 u" and eq: "sr_TransferTxHash res = sr_TransferTxHash res0"
    "sr_PermitTxHash res = sr_PermitTxHash res0" "sr_Seller res = sr_Seller res0"
    unfolding spent_ok_def by blast
  from r(4) obtain v t where v: "calm w v" "calm v u" "transferTx E s row (sr_Seller res0) amount t"
    "sends (news v u) = [t]" "confirmed E t (news v u)" "sr_TransferTxHash res0 = hashHex E (txHash E t)"
    "(\<exists>p. permitTx E s row p \<and> confirmed E p (news w v) \<and> sr_PermitTxHash res0 = hashHex E (txHash E p)) \<or>
         chainCovers E s row agent amount now (news w v)"
    unfolding paidOk_def by blast
  from v(3) obtain data where d:
    "EncodeTransferFromCall E (transferArgsOf (au_Owner row) (sr_Seller res0) (au_Token row) amount) = Ok data"
    "tx_Data (tx_payload t) = data" "permit2Call E s t"
    by (auto simp: transferTx_def callTx_def permit2Call_def)
  have "w_rows u = w_rows w" using r(2) by (simp add: calm_def)
  then show ?thesis
    using a(1) r v d unfolding eq by blast
qed

theorem spend_paid_before_booked_witness:
  "\<exists>res w' u t. Spend demo_lib (env_runtime demo_env) (Some demo_spender) (Some 30) 1000 demo_spend_world =
       Some (Ok res, w') \<and> extends u w' \<and> w_rows u = w_rows demo_spend_world \<and>
     sr_TransferTxHash res = hashHex demo_lib (txHash demo_lib t)"
proof -
  obtain res w' where run: "Spend demo_lib (env_runtime demo_env) (Some demo_spender) (Some 30) 1000 demo_spend_world =
      Some (Ok res, w')" using demo_spend [OF demo_spend_rows, of 1000 30] by auto
  from spend_paid_before_booked [OF demo_spend_ports demo_honest demo_grant_wf run] run show ?thesis by blast
qed

text \<open>
  C3: whatever happens, a call of \<open>Spend\<close> broadcasts at most one transaction of its gas funder, first,
  and then at most two of its own. The funder's (a \<open>RealGasFunder\<close> on the same node, or none) is a
  plain transfer of exactly its top-up amount to the agent the signer names; each of the spender's own
  is a call of the configured Permit2 contract that moves no native value.
\<close>

theorem spend_broadcasts_only_permit2_calls:
  assumes "spend_ports N s" and "honest_signer s" and "store_wf (w_rows w)" and "sign_tx_law E"
    and "\<forall>gf. sd_GasFunder s = Some gf \<longrightarrow> gf = gas_port_of E (env_runtime N) f \<and> gf_rpc f = env_rpc N"
    and "Spend E (env_runtime N) (Some s) amt now w = Some (r, w')"
  shows "\<exists>gs ts. sends (w_hist w') = sends (w_hist w) @ gs @ ts \<and>
    length gs \<le> (if sd_GasFunder s = None then 0 else 1) \<and> length ts \<le> 2 \<and>
    (\<forall>t\<in>set gs. \<exists>agent c u. sg_Address (the (sd_Signer s)) w = Some (Ok agent, u) \<and>
       topUpTx f (hexToAddress E agent) c t) \<and>
    (\<forall>t\<in>set ts. tx_To (tx_payload t) = hexToAddress E (sd_permit2 s) \<and> tx_Value (tx_payload t) = 0)"
proof (cases "notPositive amt")
  case True
  from Spend_not_positive [OF this assms(6)] have "w' = w" by simp
  then show ?thesis by simp
next
  case False
  then obtain amount where a: "amt = Some amount" "0 < amount" by (auto simp: notPositive_iff)
  let ?G = "\<lambda>t. \<exists>agent c u. sg_Address (the (sd_Signer s)) w = Some (Ok agent, u) \<and>
    topUpTx f (hexToAddress E agent) c t"
  have "gasBound s agent ?G" if "sg_Address (the (sd_Signer s)) w = Some (Ok agent, u)" for agent u
    using assms(4,5) that unfolding gasBound_def by (blast intro: funder.broadcasts_in)
  with wpD [OF Spend_wp [OF assms(1-3) a(2)] assms(6) [unfolded a(1)]]
  have "broadcasts s ?G (permit2Call E s) 2 w w'" unfolding spend_outcome_def by blast
  then show ?thesis unfolding broadcasts_def permit2Call_def by blast
qed

theorem spend_broadcasts_only_permit2_calls_witness:
  "\<exists>res w' ts. Spend demo_lib (env_runtime demo_env) (Some demo_spender) (Some 30) 1000 demo_spend_world =
       Some (Ok res, w') \<and> sends (w_hist w') = ts \<and> length ts \<le> 2"
proof -
  obtain res w' where run: "Spend demo_lib (env_runtime demo_env) (Some demo_spender) (Some 30) 1000 demo_spend_world =
      Some (Ok res, w')" using demo_spend [OF demo_spend_rows, of 1000 30] by auto
  have g: "\<forall>gf. sd_GasFunder demo_spender = Some gf \<longrightarrow>
      gf = gas_port_of demo_lib (env_runtime demo_env) demo_funder \<and> gf_rpc demo_funder = env_rpc demo_env"
    by (simp add: demo_spender_def)
  from spend_broadcasts_only_permit2_calls [OF demo_spend_ports demo_honest demo_grant_wf demo_sign_tx_law g run] run
  obtain gs ts where "sends (w_hist w') = gs @ ts" "gs = []" "length ts \<le> 2"
    by (auto simp: demo_spend_world_def demo_spender_def)
  with run show ?thesis by auto
qed

text \<open>
  C4: over any sequence of spends that run one after the other, of any agents and amounts, at any
  times, with failures and lockdowns in between, the authorizations stay the same ones, each one's
  recorded total grows by exactly the sum of the amounts reported as paid by the spends that it was
  selected for, and it stays within its allowance: no payment is booked twice, on another
  authorization, or lost, and all totals together grow by all that was paid.
\<close>

theorem sequential_spends_respect_allowances:
  assumes "spend_run E N w sums w'" and "store_wf (w_rows w)" and "withinAllowance (w_rows w)"
  shows "store_wf (w_rows w') \<and>
    (\<forall>i. case lookupRow (w_rows w) i of
           None \<Rightarrow> lookupRow (w_rows w') i = None \<and> sums i = 0
         | Some r \<Rightarrow> \<exists>r'. lookupRow (w_rows w') i = Some r' \<and> spent r' = spent r + sums i) \<and>
    (\<forall>i r a. lookupRow (w_rows w') i = Some r \<longrightarrow> setString 10 (au_AmountAtoms r) = Some a \<longrightarrow> spent r \<le> a) \<and>
    totalSpent (w_rows w') = totalSpent (w_rows w) + (\<Sum>i\<in>dom (lookupRow (w_rows w)). sums i)"
  using spend_run_invariant [OF assms] grown_total unfolding withinAllowance_def grown_def by blast

lemma demo_grant_within: "withinAllowance (w_rows demo_spend_world)"
proof -
  have "spent (demo_grant\<lparr>au_SpentAtoms := showInt 0\<rparr>) = 0" by (simp add: spent_def orZero_def)
  then show ?thesis
    by (auto simp: withinAllowance_def demo_spend_rows demo_grant_def split: if_splits)
qed

theorem sequential_spends_respect_allowances_witness:
  "\<exists>sums w' r'. spend_run demo_lib demo_env demo_spend_world sums w' \<and> sums (rowId demo_grant) = 80 \<and>
     lookupRow (w_rows w') (rowId demo_grant) = Some r' \<and> spent r' = 80"
proof -
  let ?g = "\<lambda>k. demo_grant\<lparr>au_SpentAtoms := showInt k\<rparr>"
  have id: "rowId (?g k) = rowId demo_grant" for k by (simp add: rowId_def)
  have ag: "agentOf demo_spender u demo_agent" for u
    by (simp add: agentOf_def demo_spender_def bip44_port_def demo_agent lift_def)
  obtain r1 w1 where 1: "Spend demo_lib (env_runtime demo_env) (Some demo_spender) (Some 30) 1000 demo_spend_world =
      Some (Ok r1, w1)" "w_rows w1 = [?g (0 + 30)]"
    using demo_spend [OF demo_spend_rows, of 1000 30] by auto
  obtain r2 w2 where 2: "Spend demo_lib (env_runtime demo_env) (Some demo_spender) (Some 50) 1001 w1 = Some (Ok r2, w2)"
    using demo_spend [OF 1(2), of 1001 50] by auto
  have a: "ms_ActiveForAgent demo_agent 1000 (w_rows demo_spend_world) = Ok (?g 0)"
    "ms_ActiveForAgent demo_agent 1001 (w_rows w1) = Ok (?g (0 + 30))"
    by (simp_all add: demo_grant_pick demo_spend_rows 1(2))
  note step = run_paid [OF _ demo_spend_ports demo_honest ag]
  obtain sums where run: "spend_run demo_lib demo_env demo_spend_world sums w2" and p: "sums (rowId demo_grant) = 80"
    using step [OF step [OF run_none a(1) 1(1)] a(2) 2] by (auto simp: id)
  have r: "lookupRow (w_rows demo_spend_world) (rowId demo_grant) = Some (?g 0)" "spent (?g 0) = 0"
    by (simp_all add: demo_spend_rows id spent_def orZero_def)
  from sequential_spends_respect_allowances [OF run demo_grant_wf demo_grant_within]
  have "case lookupRow (w_rows demo_spend_world) (rowId demo_grant) of
      None \<Rightarrow> lookupRow (w_rows w2) (rowId demo_grant) = None \<and> sums (rowId demo_grant) = 0
    | Some r \<Rightarrow> \<exists>r'. lookupRow (w_rows w2) (rowId demo_grant) = Some r' \<and>
        spent r' = spent r + sums (rowId demo_grant)" by blast
  with run p r show ?thesis by auto
qed

text \<open>
  C12: the signature that \<open>VerifyAndCache\<close> verified is the one that \<open>Spend\<close> sends on chain: whenever
  the verifier could decode a submitted text, the normalised text it caches decodes for the
  on-chain call, to the same \<open>R\<close> and \<open>S\<close> and a recovery byte that is the verified one plus 27
  (without wrap-around for the recovery ids 0 and 1).
\<close>

theorem verified_signature_is_sent:
  assumes "decodeSig65 s = Ok b"
  shows "\<exists>b'. decodeSigOnchain (normalizeSigHex s) = Ok b' \<and> length b' = 65 \<and>
    take 64 b' = take 64 b \<and> b' ! 64 = b ! 64 + 27 \<and>
    (unat (b ! 64) < 2 \<longrightarrow> unat (b' ! 64) \<in> {27, 28})"
proof -
  have "length b = 65" using decodeSig65_Ok [OF assms] by simp
  moreover have "unat (b ! 64 + 27) \<in> {27, 28}" if "unat (b ! 64) < 2"
    using byte_add_27(4) [of "b ! 64"] that by auto
  ultimately show ?thesis using decodeSigOnchain_normalized [OF assms] by auto
qed

theorem verified_signature_is_sent_witness:
  "\<exists>s b b'. decodeSig65 s = Ok b \<and> decodeSigOnchain (normalizeSigHex s) = Ok b' \<and> b' ! 64 = 28"
proof -
  have d: "decodeSig65 (''0x'' @ hexEncode (replicate 65 1)) = Ok (replicate 65 1)"
    by (subst decodeSig65_hex) (simp_all add: word_le_nat_alt)
  from verified_signature_is_sent [OF d] d show ?thesis by auto
qed

end
