(* ===== verification/Payment.thy ===== *)
theory Payment
  imports Spend
begin

text \<open>
  What the safety properties of \<open>src/spend.go\<close> leave open: that a spend which is allowed is made.
  \<open>serving\<close> is a node that answers and confirms, \<open>willing_signer\<close> a signer that signs,
  \<open>payable_row\<close> an authorization whose calldata can be encoded. On these each piece of \<open>Spend\<close>
  succeeds, and an authorization that \<open>VerifyAndCache\<close> accepted can be spent up to its allowance.
\<close>

section \<open>The outside at its best\<close>

definition serving :: "env \<Rightarrow> int \<Rightarrow> bool" where
  "serving N chain \<longleftrightarrow>
     (\<forall>h. e_ChainID N h = Some (Ok (Some chain)) \<and> (\<forall>a. \<exists>n. e_PendingNonce N a h = Some (Ok n)) \<and>
        (\<exists>r. e_GasTip N h = Some r \<and> r \<noteq> Panic) \<and> (\<exists>p. e_GasPrice N h = Some (Ok p) \<and> \<not> notPositive p) \<and>
        (\<forall>m. \<exists>g. e_Estimate N m h = Some (Ok g)) \<and> (\<forall>t. e_Send N t h = Some (Ok ())) \<and>
        (\<forall>m b. \<exists>r. e_Call N m b h = Some r \<and> r \<noteq> Panic) \<and>
        (\<forall>x. \<exists>rc. e_Receipt N x h = Some (Ok rc) \<and> rc_Status rc = 1) \<and>
        e_Ctx N h = Some (Ok ()) \<and> (\<exists>t. e_Now N h = Some (Ok t)))"

lemma serving_calls:
  assumes "serving N chain"
  shows "yields (rpc_ChainID (env_rpc N)) (\<lambda>c. c = Some chain)"
    "succeeds (rpc_PendingNonceAt (env_rpc N) a)" "settles (rpc_SuggestGasTipCap (env_rpc N))"
    "yields (rpc_SuggestGasPrice (env_rpc N)) (\<lambda>p. \<not> notPositive p)"
    "succeeds (rpc_EstimateGas (env_rpc N) m)" "succeeds (rpc_SendTransaction (env_rpc N) t)"
    "settles (rpc_CallContract (env_rpc N) m b)"
    "yields (rpc_TransactionReceipt (env_rpc N) x) (\<lambda>rc. rc_Status rc = 1)"
    "succeeds (rt_ctx (env_runtime N))" "succeeds (rt_now (env_runtime N))"
  using assms unfolding env_rpc_simps env_rt_simps serving_def
  by (auto intro!: yields_ask succeeds_ask settles_ask)

lemma WaitForReceipt_serves:
  assumes "serving N chain"
  shows "yields (WaitForReceipt E (env_runtime N) (env_rpc N) x tmo poll) (\<lambda>rc. rc_Status rc = 1)"
proof -
  have "yields (waitLoop E (env_runtime N) (env_rpc N) x dl p) (\<lambda>rc. rc_Status rc = 1)" for dl p
    unfolding yields_def
  proof
    fix w
    from succeedsD [OF serving_calls(9) [OF assms]] obtain c u
      where ctx: "rt_ctx (env_runtime N) w = Some (Ok c, u)" by blast
    from yieldsD [OF serving_calls(8) [OF assms]] obtain rc v
      where "rpc_TransactionReceipt (env_rpc N) x u = Some (Ok rc, v)" "rc_Status rc = 1" by blast
    with ctx show "\<exists>rc w'. waitLoop E (env_runtime N) (env_rpc N) x dl p w = Some (Ok rc, w') \<and> rc_Status rc = 1"
      by (simp add: waitLoop.simps [of E "env_runtime N" "env_rpc N" x dl p w] io_eval)
  qed
  then show ?thesis
    unfolding WaitForReceipt_def Let_def
    by (intro yields_bind [OF succeeds_yields [OF serving_calls(10) [OF assms]]])
qed

definition willing_signer :: "world spender \<Rightarrow> string \<Rightarrow> int \<Rightarrow> bool" where
  "willing_signer s agent chain \<longleftrightarrow>
     yields (sg_Address (the (sd_Signer s))) (\<lambda>a. a = agent) \<and>
     (\<forall>t. succeeds (sg_SignTx (the (sd_Signer s)) (Some t) (Some chain)))"

text \<open>
  The ABI packer takes the argument lists of the package, for amounts of a \<open>uint160\<close>, and the text
  of 42 characters that the builders accept as an address is one for the address parser.
\<close>

definition pack_law :: "eth_lib \<Rightarrow> bool" where
  "pack_law E \<longleftrightarrow>
     (\<exists>G. permit2_init E = Ok G \<and>
        (\<forall>ow tk am ex no sp dl sg. 0 < am \<and> am < 2 ^ 160 \<longrightarrow>
           isOk (abiPack E (permit2PermitArgs G)
             [AbiAddress ow,
              AbiTuple [(''details'', AbiTuple [(''token'', AbiAddress tk), (''amount'', AbiBig am),
                  (''expiration'', AbiBig (uint (ex :: u64))), (''nonce'', AbiBig (uint (no :: u64)))]),
                (''spender'', AbiAddress sp), (''sigDeadline'', AbiBig dl)],
              AbiBytes sg])) \<and>
        (\<forall>fr to am tk. 0 < am \<and> am < 2 ^ 160 \<longrightarrow>
           isOk (abiPack E (permit2TransferFromArgs G)
             [AbiAddress fr, AbiAddress to, AbiBig am, AbiAddress tk])))"

definition hex_address_law :: "eth_lib \<Rightarrow> bool" where
  "hex_address_law E \<longleftrightarrow> (\<forall>t. looksLikeAddress t \<longrightarrow> isHexAddress E t)"

lemma EncodePermitCall_encodes:
  assumes "pack_law E" and "isHexAddress E (pa_Owner x)" "isHexAddress E (pa_Token x)" "isHexAddress E (pa_Spender x)"
    and am: "pa_Amount x = Some am" "0 < am" "am < 2 ^ 160" and dl: "pa_SigDeadline x = Some dl" "0 < dl"
    and "length (pa_Signature x) = 65"
  shows "\<exists>data. EncodePermitCall E x = Ok data"
proof -
  from assms(1) am(2,3) obtain G where G: "permit2_init E = Ok G"
    and p: "isOk (abiPack E (permit2PermitArgs G)
      [AbiAddress (hexToAddress E (pa_Owner x)), permitSingleTuple E x, AbiBytes (pa_Signature x)])"
    unfolding pack_law_def permitSingleTuple_def am(1) option.sel by blast
  from p obtain d where "abiPack E (permit2PermitArgs G)
      [AbiAddress (hexToAddress E (pa_Owner x)), permitSingleTuple E x, AbiBytes (pa_Signature x)] = Ok d"
    unfolding isOk_iff ..
  with assms G show ?thesis by (simp add: EncodePermitCall_def notPositive_def)
qed

lemma EncodeTransferFromCall_encodes:
  assumes "pack_law E" and "isHexAddress E (ta_From x)" "isHexAddress E (ta_To x)" "isHexAddress E (ta_Token x)"
    and am: "ta_Amount x = Some am" "0 < am" "am < 2 ^ 160"
  shows "\<exists>data. EncodeTransferFromCall E x = Ok data"
proof -
  let ?v = "[AbiAddress (hexToAddress E (ta_From x)), AbiAddress (hexToAddress E (ta_To x)),
      AbiBig am, AbiAddress (hexToAddress E (ta_Token x))]"
  from assms(1) am(2,3) obtain G where G: "permit2_init E = Ok G"
    and "isOk (abiPack E (permit2TransferFromArgs G) ?v)" unfolding pack_law_def by blast
  then obtain d where "abiPack E (permit2TransferFromArgs G) ?v = Ok d" unfolding isOk_iff by blast
  with assms G show ?thesis by (simp add: EncodeTransferFromCall_def notPositive_def)
qed

section \<open>The pieces of a spend\<close>

text \<open>What a spender needs around it: a seller with an address, and a gas funder that succeeds.\<close>

definition served ::
  "eth_lib \<Rightarrow> env \<Rightarrow> world spender \<Rightarrow> string \<Rightarrow> int \<Rightarrow> bool" where
  "served E N s agent chain \<longleftrightarrow>
     spend_ports N s \<and> honest_signer s \<and> serving N chain \<and> willing_signer s agent chain \<and>
     yields (the (sd_SellerAddressFn s)) (isHexAddress E) \<and>
     (\<forall>gf. sd_GasFunder s = Some gf \<longrightarrow> succeeds (gf agent (Some chain))) \<and>
     (\<forall>cr ow tk at tx. sd_Crediter s = Some cr \<longrightarrow> settles (cr ow tk at tx))"

lemma servedD:
  assumes "served E N s agent chain"
  shows "spend_ports N s" "honest_signer s" "serving N chain" "the (sd_RPC s) = env_rpc N"
    "yields (sg_Address (the (sd_Signer s))) (\<lambda>a. a = agent)"
    "succeeds (sg_SignTx (the (sd_Signer s)) (Some t) (Some chain))"
    "yields (the (sd_SellerAddressFn s)) (isHexAddress E)"
    "sd_GasFunder s = Some gf \<Longrightarrow> succeeds (gf agent (Some chain))"
    "sd_Crediter s = Some cr \<Longrightarrow> settles (cr ow tk at tx)"
  using assms spend_portsD(2) unfolding served_def willing_signer_def by auto

lemma buildSignSend_succeeds:
  assumes "served E N s agent chain"
  shows "succeeds (buildSignSend E s (Some chain) to calldata)"
proof -
  note D = servedD [OF assms] and C = serving_calls [OF servedD(3) [OF assms]]
  have gas: "\<exists>p. gasPriceOf r = Ok p" if "\<exists>a. r = Inr a \<and> \<not> notPositive a" for r
    using that by (auto simp: gasPriceOf_def)
  have rest: "succeeds (io_bind (lift (gasPriceOf r)) k)"
    if "\<exists>a. r = Inr a \<and> \<not> notPositive a" "\<And>p. succeeds (k p)" for r and k :: "int \<Rightarrow> (world, transaction) io"
    using gas [OF that(1)] that(2) by (auto intro: succeeds_bind_lift)
  show ?thesis
    unfolding buildSignSend_def D(4) Let_def
    by (intro succeeds_bind succeeds_wrap succeeds_both succeeds_ret yields_succeeds [OF D(5)] C D(6)
        succeeds_after [OF yields_both [OF C(4)]] rest)
qed

text \<open>A transaction that is sent and awaited; both are confirmed on such a node.\<close>

lemma awaited_succeeds:
  assumes "serving N chain" and "succeeds m"
  shows "succeeds (io_bind (io_wrap m1 [] m) (\<lambda>tx.
      io_bind (io_wrap m2 [] (WaitForReceipt E (env_runtime N) (env_rpc N) (txHash E tx) tmo poll)) (\<lambda>rc.
      if rc_Status rc \<noteq> 1 then fail (e tx) else ret (g tx))))"
  by (intro succeeds_bind [OF succeeds_wrap [OF assms(2)]]
      succeeds_after [OF yields_wrap [OF WaitForReceipt_serves [OF assms(1)]]]) (simp add: succeeds_ret)

definition payable_row :: "eth_lib \<Rightarrow> authorization \<Rightarrow> bool" where
  "payable_row E row \<longleftrightarrow>
     isHexAddress E (au_Owner row) \<and> isHexAddress E (au_Agent row) \<and> isHexAddress E (au_Token row) \<and>
     (\<exists>a. setString 10 (au_AmountAtoms row) = Some a \<and> 0 < a \<and> a < 2 ^ 160) \<and>
     0 < sint (au_Expiration row) \<and> (\<exists>b. decodeSigOnchain (au_SignatureHex row) = Ok b)"

lemma decodeSigOnchain_length: "decodeSigOnchain s = Ok b \<Longrightarrow> length b = 65"
  by (auto simp: decodeSigOnchain_def Let_def io_ok dest!: hexDecode_length split: if_splits)

lemma permitStep_succeeds:
  assumes "served E N s agent chain" and "pack_law E" and "payable_row E row"
  shows "succeeds (permitStep E (env_runtime N) s (Some chain) row result)"
proof -
  note D = servedD [OF assms(1)]
  from assms(3) obtain a b where a: "setString 10 (au_AmountAtoms row) = Some a" "0 < a" "a < 2 ^ 160"
    and b: "decodeSigOnchain (au_SignatureHex row) = Ok b"
    and h: "isHexAddress E (au_Owner row)" "isHexAddress E (au_Agent row)" "isHexAddress E (au_Token row)"
    and e: "0 < sint (au_Expiration row)" unfolding payable_row_def by blast
  from a b h e obtain data where "EncodePermitCall E (permitArgsOf row a b) = Ok data"
    using EncodePermitCall_encodes [OF assms(2), of "permitArgsOf row a b" a "sint (au_Expiration row)"]
      decodeSigOnchain_length [OF b] by (auto simp: permitArgsOf_def)
  then have rest: "succeeds (io_bind (lift (EncodePermitCall E (permitArgsOf row a x)))
      (\<lambda>calldata. buildSignSend E s (Some chain) to calldata))" if "x = b" for x to
    using that buildSignSend_succeeds [OF assms(1)] by (auto intro: succeeds_bind_lift)
  have "yields (io_wrap m as (lift (Ok b))) (\<lambda>x. x = b)" for m as
    by (simp add: yields_def io_wrap_Ok_iff)
  from succeeds_after [OF this rest] have "succeeds (sendPermit E s (Some chain) row)"
    unfolding sendPermit_def b a(1) option.case .
  then show ?thesis
    unfolding permitStep_def D(4) by (rule awaited_succeeds [OF D(3)])
qed

lemma transferStep_succeeds:
  assumes "served E N s agent chain" and "pack_law E" and "payable_row E row"
    and "isHexAddress E seller" and "0 < amount" "amount < 2 ^ 160"
  shows "succeeds (transferStep E (env_runtime N) s (Some chain) row seller amount result)"
proof -
  note D = servedD [OF assms(1)]
  let ?x = "transferArgsOf (au_Owner row) seller (au_Token row) amount"
  obtain data where "EncodeTransferFromCall E ?x = Ok data"
    using EncodeTransferFromCall_encodes [OF assms(2), of ?x amount] assms(3-6)
    by (auto simp: transferArgsOf_def payable_row_def)
  then have "succeeds (sendTransferFrom E s (Some chain) (au_Owner row) seller (au_Token row) amount)"
    using buildSignSend_succeeds [OF assms(1)] unfolding sendTransferFrom_def by (intro succeeds_bind_lift)
  then show ?thesis
    unfolding transferStep_def D(4) by (rule awaited_succeeds [OF D(3)])
qed

lemma spendPay_succeeds:
  assumes served: "served E N s agent chain" and pack: "pack_law E" and row: "payable_row E row"
    and amount: "0 < amount" "amount < 2 ^ 160"
  shows "succeeds (spendPay E (env_runtime N) s amount now agent row)"
proof -
  note D = servedD [OF served] and C = serving_calls [OF servedD(3) [OF served]]
  have gas: "succeeds (ensureGasStep s agent (Some chain) result)" for result
    unfolding ensureGasStep_def by (intro succeeds_intros D(8))
  have covers: "succeeds (allowanceCovers E s (au_Owner row) (au_Token row) agent amount now)"
    unfolding allowanceCovers_def D(4) by (intro succeeds_intros C(7))
  have chain: "yields (io_wrap m as (rpc_ChainID (env_rpc N))) (\<lambda>c. c = Some chain)" for m as
    by (rule yields_wrap [OF C(1)])
  have "succeeds (io_bind (ensureGasStep s agent c result) (\<lambda>result.
      io_bind (allowanceCovers E s (au_Owner row) (au_Token row) agent amount now) (\<lambda>skipPermit.
      io_bind (if skipPermit then ret result else permitStep E (env_runtime N) s c row result) (\<lambda>result.
      transferStep E (env_runtime N) s c row seller amount result))))"
    if "c = Some chain" "isHexAddress E seller" for c seller result
    unfolding that(1)
    by (intro succeeds_bind succeeds_if succeeds_ret gas covers permitStep_succeeds [OF served pack row]
        transferStep_succeeds [OF served pack row that(2) amount])
  then show ?thesis
    unfolding spendPay_def D(4) Let_def
    by (intro succeeds_after [OF yields_wrap [OF D(7)]] succeeds_if succeeds_after [OF chain]) simp_all
qed

text \<open>The check lets through exactly what the allowance still covers.\<close>

lemma spendCheck_decides:
  assumes served: "served E N s agent chain" and act: "ms_ActiveForAgent agent now (w_rows w) = Ok row"
    and a: "setString 10 (au_AmountAtoms row) = Some a"
  shows "\<exists>u. w_rows u = w_rows w \<and> spendCheck s amount now w =
    Some (if spent row + amount \<le> a then Ok (agent, row)
      else Err (Wrap ''%w: requested %s, remaining %s'' [showInt amount, showInt (a - spent row)] ErrAllowanceExceeded), u)"
proof -
  note D = servedD [OF served]
  note P = spend_portsD [OF D(1)]
  from yieldsD [OF D(5), of w] obtain u
    where addr: "sg_Address (the (sd_Signer s)) w = Some (Ok agent, u)" by blast
  have u: "w_rows u = w_rows w" using movesD [OF P(3) addr] by (simp add: silent_def calm_def)
  then show ?thesis
    unfolding spendCheck_def P(1)
    by (intro exI [of _ u])
      (simp add: io_bind_def io_wrap_def io_try_def addr ret_def fail_def memory_store_def lift_def act a Let_def)
qed

text \<open>The booking, from a store that holds the row.\<close>

lemma spendBook_completes:
  assumes served: "served E N s agent chain" and wf: "store_wf (w_rows v)"
    and act: "ms_ActiveForAgent agent now (w_rows v) = Ok row"
  shows "\<exists>res w'. spendBook s amount agent row result v = Some (Ok res, w')"
proof -
  note D = servedD [OF served]
  note P = spend_portsD [OF D(1)]
  have "setString 10 (trimSpace (showInt amount)) = Some amount" by simp
  from ms.bump_active [OF wf act this] obtain rows where
    "ms_BumpSpent (au_Owner row) agent (au_Token row) (au_Nonce row) (showInt amount) (w_rows v) = Ok rows"
    by blast
  then have bump: "io_wrap m as (st_BumpSpent memory_store (au_Owner row) agent (au_Token row) (au_Nonce row)
      (showInt amount)) v = Some (Ok (), v\<lparr>w_rows := rows\<rparr>)" for m as
    by (simp add: memory_store_def io_wrap_def io_try_def ret_def)
  let ?k = "case sd_Crediter s of None \<Rightarrow> ret result
     | Some cr \<Rightarrow> io_bind (io_both (cr (au_Owner row) (au_Token row) (showInt amount) (sr_TransferTxHash result)))
         (\<lambda>c. ret (credited result c))"
  have "spendBook s amount agent row result v = ?k (v\<lparr>w_rows := rows\<rparr>)"
    unfolding spendBook_def P(1) by (rule io_bind_eval(1)) (rule bump)
  moreover have "succeeds ?k" by (intro succeeds_intros D(9))
  then have "\<exists>res w'. ?k (v\<lparr>w_rows := rows\<rparr>) = Some (Ok res, w')" by (rule succeedsD)
  ultimately show ?thesis by simp
qed

text \<open>The whole spend, from a store that holds the row.\<close>

lemma Spend_completes:
  assumes served: "served E N s agent chain" and pack: "pack_law E" and wf: "store_wf (w_rows w)"
    and act: "ms_ActiveForAgent agent now (w_rows w) = Ok row" and row: "payable_row E row"
    and a: "setString 10 (au_AmountAtoms row) = Some a" "spent row + amount \<le> a"
    and amount: "0 < amount" "amount < 2 ^ 160"
  shows "\<exists>res w'. Spend E (env_runtime N) (Some s) (Some amount) now w = Some (Ok res, w')"
proof -
  note D = servedD [OF served]
  note P = spend_portsD [OF D(1)]
  from spendCheck_decides [OF served act a(1), of amount] a(2) obtain u
    where chk: "spendCheck s amount now w = Some (Ok (agent, row), u)" and u: "w_rows u = w_rows w" by auto
  from succeedsD [OF spendPay_succeeds [OF served pack row amount], of now u] obtain result v
    where pay: "spendPay E (env_runtime N) s amount now agent row u = Some (Ok result, v)" by blast
  have v: "w_rows v = w_rows w" using spendPay_calm [OF D(1,2) pay] u by (simp add: calm_def)
  from spendBook_completes [OF served] wf act obtain res w'
    where book: "spendBook s amount agent row result v = Some (Ok res, w')" unfolding v [symmetric] by blast
  have "Spend E (env_runtime N) (Some s) (Some amount) now w =
      io_bind (spendCheck s amount now) (\<lambda>(agent, row).
        io_bind (spendPay E (env_runtime N) s amount now agent row) (\<lambda>result.
        spendBook s amount agent row result)) w"
    using amount P(6-9) by (auto simp: Spend_def notPositive_def)
  also have "\<dots> = io_bind (spendPay E (env_runtime N) s amount now agent row) (\<lambda>result.
        spendBook s amount agent row result) u"
    by (subst io_bind_eval(1), rule chk) simp
  also have "\<dots> = spendBook s amount agent row result v" by (rule io_bind_eval(1)) (rule pay)
  finally show ?thesis using book by simp
qed

text \<open>A spend over what is left is refused, and leaves the rows alone.\<close>

lemma Spend_refuses:
  assumes served: "served E N s agent chain" and act: "ms_ActiveForAgent agent now (w_rows w) = Ok row"
    and a: "setString 10 (au_AmountAtoms row) = Some a" "a < spent row + amount" and amount: "0 < amount"
  shows "\<exists>e w'. Spend E (env_runtime N) (Some s) (Some amount) now w = Some (Err e, w') \<and>
    errIs e ErrAllowanceExceeded \<and> w_rows w' = w_rows w"
proof -
  note P = spend_portsD [OF servedD(1) [OF served]]
  from spendCheck_decides [OF served act a(1), of amount] a(2) obtain u e where
    chk: "spendCheck s amount now w = Some (Err e, u)" and u: "w_rows u = w_rows w"
    and e: "errIs e ErrAllowanceExceeded" by auto
  have "io_bind (spendCheck s amount now) k w = Some (Err e, u)" for k :: "_ \<Rightarrow> (world, spend_result) io"
    by (rule io_bind_eval(2)) (rule chk)
  then have "Spend E (env_runtime N) (Some s) (Some amount) now w = Some (Err e, u)"
    using amount P(6-9) by (auto simp: Spend_def notPositive_def)
  with u e show ?thesis by blast
qed

section \<open>The gas funder at its best\<close>

text \<open>On a serving node that knows the balances, a funder that holds more than its top-up succeeds.\<close>

definition solvent :: "env \<Rightarrow> address \<Rightarrow> int \<Rightarrow> bool" where
  "solvent N a x \<longleftrightarrow> (\<forall>h. \<exists>b. e_Balance N a None h = Some (Ok b) \<and> x < b)"

lemma gas_port_succeeds:
  assumes node: "serving N chain" and rpc: "gf_rpc f = env_rpc N" and chain: "0 < chain"
    and agent: "isHexAddress E agent" "\<exists>x. solvent N (hexToAddress E agent) x"
    and own: "solvent N (gf_address f) (gf_topUpWei f)"
    and signs: "\<And>t. \<exists>t'. signTx E t chain (gf_privateKey f) = Ok t'"
  shows "succeeds (gas_port_of E (env_runtime N) f agent (Some chain))"
proof -
  note C = serving_calls [OF node]
  have bal: "yields (rpc_BalanceAt (env_rpc N) a) (\<lambda>b. x < b)" if "solvent N a x" for a x
    using that unfolding env_rpc_simps solvent_def by (intro yields_ask) simp
  have sign: "succeeds (io_wrap m as (lift (signTx E t chain (gf_privateKey f))))" for m as t
    using signs [of t] by (auto simp: succeeds_def io_wrap_Ok_iff)
  have "\<exists>p. gasPriceOf r = Ok p" if "\<exists>a. r = Inr a \<and> \<not> notPositive a" for r
    using that by (auto simp: gasPriceOf_def)
  then have price: "succeeds (io_bind (lift (gasPriceOf r)) k)"
    if "\<exists>a. r = Inr a \<and> \<not> notPositive a" "\<And>p. succeeds (k p)" for r and k :: "int \<Rightarrow> (world, transaction) io"
    using that by (metis succeeds_bind_lift)
  have build: "succeeds (buildAndSend E f a chain)" for a
    unfolding buildAndSend_def rpc Let_def
    by (intro succeeds_bind succeeds_wrap succeeds_both succeeds_ret C sign price
        succeeds_settles [OF C(5)] succeeds_after [OF yields_both [OF C(4)]])
  have fund: "succeeds (fundAgent E (env_runtime N) f a chain res)" for a res
    unfolding fundAgent_def rpc
    by (intro succeeds_after [OF yields_wrap [OF bal [OF own]]])
      (simp add: awaited_succeeds [OF node build])
  obtain x where x: "solvent N (hexToAddress E agent) x" using agent(2) ..
  have lck: "succeeds (ensureLocked E (env_runtime N) f (hexToAddress E agent) chain res)" for res
    unfolding ensureLocked_def rpc
    by (intro succeeds_after [OF yields_both [OF bal [OF x]]]) (auto intro!: succeeds_if succeeds_ret fund)
  have "\<not> notPositive (Some chain)" using chain by (simp add: notPositive_def)
  with agent(1) have "succeeds (EnsureGas E (env_runtime N) (Some f) agent (Some chain))"
    unfolding EnsureGas_def option.case Let_def rpc option.sel
    by (auto intro!: succeeds_bind succeeds_wrap succeeds_if succeeds_ret yields_succeeds [OF bal [OF x]] lck)
  then show ?thesis unfolding gas_port_of_def by (intro succeeds_intros)
qed

section \<open>From authorization to payment\<close>

lemma accepted_row_payable:
  assumes law: "hex_address_law E"
    and accepted: "acceptable E params sigHex owner agent now" and now: "0 < sint now"
    and a: "setString 10 (pp_Amount params) = Some a" "0 < a"
    and q: "au_Owner q = owner" "au_Agent q = pp_Spender params" "au_Token q = pp_Token params"
      "au_AmountAtoms q = pp_Amount params" "au_Expiration q = pp_Deadline params"
      "au_SignatureHex q = normalizeSigHex sigHex"
  shows "payable_row E q \<and> a < 2 ^ 160"
proof -
  from accepted obtain td b where td: "BuildPermit2TypedData params = Ok td"
    and rec: "RecoverTypedDataSigner E td sigHex = Ok b" and ow: "looksLikeAddress owner"
    and dl: "sint now < sint (pp_Deadline params)" unfolding acceptable_def by blast
  from td have "\<exists>td. BuildPermit2TypedData params = Ok td" ..
  with setString_trim [OF a(1)] a have bounds: "a < 2 ^ 160" and hex: "looksLikeAddress (pp_Token params)" "looksLikeAddress (pp_Spender params)"
    unfolding build_permit2_ok_iff by auto
  from RecoverTypedDataSigner_decodes [OF rec] obtain c where "decodeSig65 sigHex = Ok c" ..
  from decodeSigOnchain_normalized [OF this] have "\<exists>b. decodeSigOnchain (au_SignatureHex q) = Ok b"
    unfolding q by blast
  with law bounds hex ow dl now a show ?thesis
    unfolding payable_row_def hex_address_law_def q by auto
qed

text \<open>The row that was just cached is the one the store picks.\<close>

lemma accepted_row_active:
  assumes wf: "store_wf (w_rows w)"
    and run: "VerifyAndCache E (Some memory_store) params sigHex owner agent now w = Some (Ok u, v)"
    and now: "sint now \<noteq> 0" and before: "sint t < sint (pp_Deadline params)"
    and latest: "\<forall>q\<in>set (w_rows w). equalFold (au_Agent q) agent \<longrightarrow>
      rowId q \<noteq> mkId owner (pp_Spender params) (pp_Token params) (pp_Nonce params) \<longrightarrow>
      sint (au_CreatedAtUnix q) < sint now"
  defines "i \<equiv> mkId owner (pp_Spender params) (pp_Token params) (pp_Nonce params)"
  defines "q \<equiv> upserted (lookupRow (w_rows w) i) (cachedRow params (normalizeSigHex sigHex) owner now)"
  shows "store_wf (w_rows v) \<and> rowId q = i \<and> ms_ActiveForAgent agent t (w_rows v) = Ok q"
proof -
  note selected = accepted_row_selected [OF wf run now before equalFold_refl, folded i_def, folded q_def]
  have "\<not> (rowId p \<noteq> i \<and> lookupRow (w_rows w) (rowId p) = Some p \<and> equalFold (au_Agent p) agent \<and>
      sint now \<le> sint (au_CreatedAtUnix p))" for p
    using latest by (auto simp: i_def dest: lookupRow_Some)
  with selected show ?thesis by blast
qed

text \<open>A spend that succeeds booked on the row that the store picks for the signer's address.\<close>

lemma spend_books_active:
  assumes ports: "spend_ports N s" "honest_signer s" and wf: "store_wf (w_rows v)"
    and run: "Spend E (env_runtime N) (Some s) (Some amount) t v = Some (Ok res, v')"
    and addr: "yields (sg_Address (the (sd_Signer s))) (\<lambda>a. a = agent)"
    and act: "ms_ActiveForAgent agent t (w_rows v) = Ok q"
  shows "lookupRow (w_rows v') (rowId q) = Some (bumped q amount)"
proof -
  from Spend_Ok_outcome [OF ports wf run] have "spent_ok E s amount t v (Ok res) v'" by auto
  then obtain agent' row where ag: "agentOf s v agent'" and row: "ms_ActiveForAgent agent' t (w_rows v) = Ok row"
    and b: "booked (w_rows v) row amount (w_rows v')" unfolding spent_ok_def by blast
  from ag yieldsD [OF addr, of v] have "agent' = agent" by (auto simp: agentOf_def)
  with row act b show ?thesis by (simp add: booked_def)
qed

section \<open>Properties\<close>

text \<open>
  C5: an authorization that \<open>VerifyAndCache\<close> accepted can be spent exactly up to its allowance. With
  a node that answers and confirms, a signer that signs, and no later authorization of the agent in
  the store, a \<open>Spend\<close> of any amount before the deadline returns nil if and only if the amount is
  positive and, with what was spent under the same identity before, at most the allowance; then the
  row's total has grown by the amount. Otherwise it returns an error, for a positive amount the
  exceeded allowance, and the rows are unchanged. (The allowance must be readable as it was
  submitted: \<open>VerifyAndCache\<close> also accepts a text with white space around it, which \<open>Spend\<close> cannot
  read.)
\<close>

theorem accepted_authorization_spends_its_allowance:
  assumes "served E N s agent chain" and "pack_law E" and "hex_address_law E" and "store_wf (w_rows w)"
    and "VerifyAndCache E (Some memory_store) params sigHex owner agent now w = Some (Ok u, v)"
    and "i = mkId owner (pp_Spender params) (pp_Token params) (pp_Nonce params)"
    and "\<forall>q\<in>set (w_rows w). equalFold (au_Agent q) agent \<longrightarrow> rowId q \<noteq> i \<longrightarrow>
      sint (au_CreatedAtUnix q) < sint now"
    and "0 < sint now" and "sint t < sint (pp_Deadline params)"
    and "setString 10 (pp_Amount params) = Some a" and "0 < a"
    and "before = (case lookupRow (w_rows w) i of None \<Rightarrow> 0 | Some old \<Rightarrow> spent old)" and "0 \<le> before"
  shows "if 0 < amount \<and> before + amount \<le> a
    then \<exists>res v' q. Spend E (env_runtime N) (Some s) (Some amount) t v = Some (Ok res, v') \<and>
      lookupRow (w_rows v') i = Some q \<and> spent q = before + amount
    else \<exists>e v'. Spend E (env_runtime N) (Some s) (Some amount) t v = Some (Err e, v') \<and>
      (0 < amount \<longrightarrow> errIs e ErrAllowanceExceeded) \<and> w_rows v' = w_rows v"
proof -
  let ?row = "cachedRow params (normalizeSigHex sigHex) owner now"
  define q where "q = upserted (lookupRow (w_rows w) i) ?row"
  note ports = servedD(1,2) [OF assms(1)]
  have "sint now \<noteq> 0" using assms(8) by simp
  from accepted_row_active [OF assms(4,5) this assms(9)] assms(6,7)
  have wfv: "store_wf (w_rows v)" and id: "rowId q = i" and act: "ms_ActiveForAgent agent t (w_rows v) = Ok q"
    unfolding q_def by auto
  have "acceptable E params sigHex owner agent now" using VerifyAndCache_Ok_iff [OF assms(5)] by simp
  from accepted_row_payable [OF assms(3) this assms(8,10,11), of q]
  have row: "payable_row E q" and bound: "a < 2 ^ 160"
    by (auto simp: q_def upserted_def refreshed_def cachedRow_def split: option.split)
  have am: "setString 10 (au_AmountAtoms q) = Some a"
    using assms(10) by (auto simp: q_def upserted_def refreshed_def cachedRow_def split: option.split)
  have sp: "spent q = before"
    using assms(12)
    by (auto simp: q_def upserted_def refreshed_def cachedRow_def spent_def orZero_zero split: option.split)
  show ?thesis
  proof (cases "0 < amount")
    case False
    with ports(1) show ?thesis by (auto simp: Spend_def notPositive_def dest: spend_portsD(6-9))
  next
    case True
    show ?thesis
    proof (cases "before + amount \<le> a")
      case fits: True
      with assms(13) bound have "amount < 2 ^ 160" by simp
      from Spend_completes [OF assms(1,2) wfv act row am _ True this] sp fits obtain res v'
        where run: "Spend E (env_runtime N) (Some s) (Some amount) t v = Some (Ok res, v')" by blast
      from spend_books_active [OF ports wfv run servedD(5) [OF assms(1)] act] have
        "lookupRow (w_rows v') i = Some (bumped q amount)" by (simp add: id)
      with run fits True sp show ?thesis by (auto simp: ms.spent_bumped)
    next
      case over: False
      with Spend_refuses [OF assms(1) act am] sp True show ?thesis by auto
    qed
  qed
qed

text \<open>The demo node serves, and the demo signer is willing.\<close>

lemma demo_serving: "serving demo_env 8453"
  by (simp add: serving_def demo_env_def notPositive_def)

lemma demo_pack_law: "pack_law demo_lib"
  using permit2_init_total [OF demo_total_law] by (auto simp: pack_law_def demo_simps)

lemma demo_hex_address_law: "hex_address_law demo_lib"
  unfolding hex_address_law_def looksLikeAddress_def
  by (auto simp: demo_simps demo_is_address_def trimPrefix_def isOk_iff numeral_2_eq_2 dest: hexDecode_hex)

text \<open>
  The demo spender with a gas funder for which the agent's 1000 wei are too few, so that a top-up
  comes first; the owner of the demo library authorizes it over 100 atoms.
\<close>

definition demo_generous :: "world gas_funder" where
  "demo_generous = demo_funder\<lparr>gf_minBalanceWei := 2000\<rparr>"

definition demo_funded :: "world spender" where
  "demo_funded = demo_spender\<lparr>sd_GasFunder := Some (gas_port_of demo_lib (env_runtime demo_env) demo_generous)\<rparr>"

definition demo_grant_params :: permit2_params where
  "demo_grant_params = demo_params\<lparr>pp_Spender := demo_agent\<rparr>"

lemma demo_funded_gas:
  "sign_tx_law demo_lib \<and> gf_rpc demo_generous = env_rpc demo_env"
  "succeeds (gas_port_of demo_lib (env_runtime demo_env) demo_generous demo_agent (Some 8453))"
proof -
  show f: "sign_tx_law demo_lib \<and> gf_rpc demo_generous = env_rpc demo_env"
    by (simp add: demo_sign_tx_law demo_generous_def demo_funder_def)
  have "solvent demo_env a (- 1)" for a by (simp add: solvent_def demo_env_def)
  then have "\<exists>x. solvent demo_env a x" for a ..
  then show "succeeds (gas_port_of demo_lib (env_runtime demo_env) demo_generous demo_agent (Some 8453))"
    by (intro gas_port_succeeds [OF demo_serving] demo_agent_hex)
      (simp_all add: f solvent_def demo_env_def demo_generous_def demo_funder_def demo_simps)
qed

lemma demo_served: "served demo_lib demo_env demo_funded demo_agent 8453"
proof -
  have "spend_ports demo_env demo_funded"
    using demo_spend_ports funder.calm_call [OF demo_funded_gas(1)] by (simp add: spend_ports_def demo_funded_def)
  moreover have "honest_signer demo_funded" using demo_honest by (simp add: honest_signer_def demo_funded_def)
  moreover have "willing_signer demo_funded demo_agent 8453"
    by (simp add: willing_signer_def demo_funded_def demo_spender_def bip44_port_def demo_agent demo_signs_tx
        yields_def succeeds_def lift_def)
  moreover have "yields (the (sd_SellerAddressFn demo_funded)) (isHexAddress demo_lib)"
    by (simp add: demo_funded_def demo_spender_def env_seller_def yields_def ask_Some_iff demo_env_def)
  ultimately show ?thesis
    using demo_serving demo_funded_gas(2) by (simp add: served_def demo_funded_def demo_spender_def)
qed

text \<open>The whole allowance can be spent, and not one atom more.\<close>

theorem accepted_authorization_spends_its_allowance_witness:
  "\<exists>sig v. VerifyAndCache demo_lib (Some memory_store) demo_grant_params sig demo_owner demo_agent 1000 demo_world =
       Some (Ok (), v) \<and>
     (\<exists>res v'. Spend demo_lib (env_runtime demo_env) (Some demo_funded) (Some 100) 1001 v = Some (Ok res, v')) \<and>
     (\<exists>e v'. Spend demo_lib (env_runtime demo_env) (Some demo_funded) (Some 101) 1001 v = Some (Err e, v'))"
proof -
  have looks: "looksLikeAddress demo_agent"
  proof -
    obtain k where k: "bs_derive demo_lib (Some demo_signer) = Ok k" using demo_signer_key by blast
    then have "demo_agent = ak_Address k" using demo_agent by (simp add: bs_Address_def io_ok)
    with bs_derive_key [OF k] looksLikeAddress_text [OF demo_address_form_law] show ?thesis by metis
  qed
  then have "\<exists>td. BuildPermit2TypedData demo_grant_params = Ok td"
    using demo_params_build unfolding build_permit2_ok_iff by (simp add: demo_grant_params_def)
  then obtain td where td: "BuildPermit2TypedData demo_grant_params = Ok td" ..
  obtain sig where sig: "RecoverTypedDataSigner demo_lib td sig = Ok demo_owner"
    using demo_owner_signs [OF td] by blast
  have p: "pp_Spender demo_grant_params = demo_agent" "pp_Amount demo_grant_params = ''100''"
    "pp_Deadline demo_grant_params = 1900000000" by (simp_all add: demo_grant_params_def demo_params_def)
  with demo_verify_runs [OF td sig, of 1000 demo_world] obtain v where
    run: "VerifyAndCache demo_lib (Some memory_store) demo_grant_params sig demo_owner demo_agent 1000 demo_world =
      Some (Ok (), v)" by auto
  have w: "w_rows demo_world = []" by (simp add: demo_world_def)
  have "setString 10 ''100'' = Some 100" by (simp add: setString_def digitVal_def code_def)
  note spends = accepted_authorization_spends_its_allowance [OF demo_served demo_pack_law demo_hex_address_law _ run refl]
  have "if 0 < d \<and> 0 + d \<le> 100
      then \<exists>res v' q. Spend demo_lib (env_runtime demo_env) (Some demo_funded) (Some d) 1001 v = Some (Ok res, v') \<and>
        lookupRow (w_rows v') (mkId demo_owner (pp_Spender demo_grant_params) (pp_Token demo_grant_params)
          (pp_Nonce demo_grant_params)) = Some q \<and> spent q = 0 + d
      else \<exists>e v'. Spend demo_lib (env_runtime demo_env) (Some demo_funded) (Some d) 1001 v = Some (Err e, v') \<and>
        (0 < d \<longrightarrow> errIs e ErrAllowanceExceeded) \<and> w_rows v' = w_rows v" for d
    by (rule spends) (simp_all add: w p store_wf_def \<open>setString 10 ''100'' = Some 100\<close>)
  from this [of 100] this [of 101] run show ?thesis by auto
qed

end
