(* ===== verification/Race.thy ===== *)
theory Race
  imports Spend
begin

text \<open>
  Concurrent spends of \<open>src/spend.go\<close>. The store's mutex covers one operation, not the check of the
  allowance together with the booking, so several goroutines may be between the two at once. A step
  starts a spend up to its check, or lets one of the checked spends pay and book, or fail to pay.

  The lemmas carry an invariant over the steps: the recorded total of an authorization together with
  the amounts in flight on it stays within the allowance times the number of spends in flight.
\<close>

section \<open>Interleavings\<close>

record flight =
  fl_Spender :: "world spender"
  fl_Amount :: int
  fl_Now :: i64
  fl_Agent :: string
  fl_Row :: authorization

inductive race_step :: "eth_lib \<Rightarrow> env \<Rightarrow> world \<times> flight list \<Rightarrow> world \<times> flight list \<Rightarrow> bool" for E N where
  race_check: "spend_ports N s \<Longrightarrow> honest_signer s \<Longrightarrow> 0 < d \<Longrightarrow>
    spendCheck s d now w = Some (Ok (agent, row), w') \<Longrightarrow>
    race_step E N (w, cs)
      (w', cs @ [\<lparr>fl_Spender = s, fl_Amount = d, fl_Now = now, fl_Agent = agent, fl_Row = row\<rparr>])"
| race_finish:
    "spendPay E (env_runtime N) (fl_Spender x) (fl_Amount x) (fl_Now x) (fl_Agent x) (fl_Row x) w = Some (Ok res, u) \<Longrightarrow>
     spendBook (fl_Spender x) (fl_Amount x) (fl_Agent x) (fl_Row x) res u = Some (Ok res', w') \<Longrightarrow>
     race_step E N (w, cs @ x # ds) (w', cs @ ds)"
| race_abort:
    "spendPay E (env_runtime N) (fl_Spender x) (fl_Amount x) (fl_Now x) (fl_Agent x) (fl_Row x) w = Some (Err e, u) \<Longrightarrow>
     race_step E N (w, cs @ x # ds) (u, cs @ ds)"

inductive_cases race_stepE: "race_step E N (w, cs) (w', ds)"

text \<open>\<open>race E N k\<close>: any number of steps, with never more than \<open>k\<close> spends in flight.\<close>

inductive race :: "eth_lib \<Rightarrow> env \<Rightarrow> nat \<Rightarrow> world \<times> flight list \<Rightarrow> world \<times> flight list \<Rightarrow> bool" for E N k where
  race_refl: "race E N k c c"
| race_next: "race E N k c d \<Longrightarrow> race_step E N d e \<Longrightarrow> length (snd e) \<le> k \<Longrightarrow> race E N k c e"

section \<open>The amounts in flight\<close>

definition inFlight :: "row_id \<Rightarrow> flight list \<Rightarrow> int" where
  "inFlight i cs = sum_list (map (\<lambda>x. if rowId (fl_Row x) = i then fl_Amount x else 0) cs)"

lemma inFlight_simps [simp]:
  "inFlight i [] = 0"
  "inFlight i (x # cs) = (if rowId (fl_Row x) = i then fl_Amount x else 0) + inFlight i cs"
  "inFlight i (cs @ ds) = inFlight i cs + inFlight i ds"
  by (simp_all add: inFlight_def)

text \<open>A checked spend: its row is still there, with an allowance that covers the amount.\<close>

definition cleared :: "env \<Rightarrow> rows \<Rightarrow> flight \<Rightarrow> bool" where
  "cleared N rows x \<longleftrightarrow> spend_ports N (fl_Spender x) \<and> honest_signer (fl_Spender x) \<and> 0 < fl_Amount x \<and>
     mkId (au_Owner (fl_Row x)) (fl_Agent x) (au_Token (fl_Row x)) (au_Nonce (fl_Row x)) = rowId (fl_Row x) \<and>
     (\<exists>cur a. lookupRow rows (rowId (fl_Row x)) = Some cur \<and> setString 10 (au_AmountAtoms cur) = Some a \<and>
        fl_Amount x \<le> a)"

definition overshoot :: "nat \<Rightarrow> rows \<Rightarrow> flight list \<Rightarrow> bool" where
  "overshoot k rows cs \<longleftrightarrow>
     (\<forall>i r a. lookupRow rows i = Some r \<longrightarrow> setString 10 (au_AmountAtoms r) = Some a \<longrightarrow>
        0 \<le> spent r \<and> spent r + inFlight i cs \<le> int k * a)"

lemma overshootD:
  assumes "overshoot k rows cs" and "lookupRow rows i = Some r" and "setString 10 (au_AmountAtoms r) = Some a"
  shows "0 \<le> spent r" and "spent r + inFlight i cs \<le> int k * a"
  using assms unfolding overshoot_def by blast+

definition airborne :: "env \<Rightarrow> nat \<Rightarrow> world \<times> flight list \<Rightarrow> bool" where
  "airborne N k c \<longleftrightarrow> store_wf (w_rows (fst c)) \<and> (\<forall>x\<in>set (snd c). cleared N (w_rows (fst c)) x) \<and>
     overshoot k (w_rows (fst c)) (snd c)"

lemma inFlight_le:
  assumes "\<forall>x\<in>set cs. rowId (fl_Row x) = i \<longrightarrow> fl_Amount x \<le> a" and "0 \<le> a"
  shows "inFlight i cs \<le> int (length cs) * a"
  using assms by (induction cs) (auto simp: algebra_simps)

lemma inFlight_cleared:
  assumes "\<forall>x\<in>set cs. cleared N rows x" and "lookupRow rows i = Some r"
    and "setString 10 (au_AmountAtoms r) = Some a" and "0 \<le> a"
  shows "inFlight i cs \<le> int (length cs) * a"
  using assms(1-3) by (intro inFlight_le assms(4)) (auto simp: cleared_def)

section \<open>The invariant\<close>

lemma airborne_check:
  assumes inv: "airborne N k (w, cs)" and ports: "spend_ports N s" "honest_signer s" and d: "0 < d"
    and run: "spendCheck s d now w = Some (Ok (agent, row), w')" and k: "length cs < k"
  shows "airborne N k (w', cs @ [\<lparr>fl_Spender = s, fl_Amount = d, fl_Now = now, fl_Agent = agent, fl_Row = row\<rparr>])"
    (is "airborne N k (w', cs @ [?x])")
proof -
  have wf: "store_wf (w_rows w)" and cl: "\<forall>x\<in>set cs. cleared N (w_rows w) x" and ov: "overshoot k (w_rows w) cs"
    using inv by (simp_all add: airborne_def)
  from wpD [OF spendCheck_wp [OF ports(1)] run] obtain a where rows: "w_rows w' = w_rows w"
    and act: "ms_ActiveForAgent agent now (w_rows w) = Ok row"
    and a: "setString 10 (au_AmountAtoms row) = Some a" "spent row + d \<le> a"
    by (auto simp: silent_def calm_def)
  from ms.active_sound [OF wf act] have at: "lookupRow (w_rows w) (rowId row) = Some row"
    and ag: "equalFold (au_Agent row) agent" by auto
  have sp: "0 \<le> spent row" by (rule overshootD(1) [OF ov at a(1)])
  have "mkId (au_Owner row) agent (au_Token row) (au_Nonce row) = rowId row"
    using ag by (simp add: rowId_def mkId_def equalFold_def)
  with at a sp d ports have x: "cleared N (w_rows w) ?x" by (auto simp: cleared_def)
  have "spent row + inFlight (rowId row) cs + d \<le> int k * a"
  proof -
    have "0 \<le> a" using a(2) sp d by linarith
    moreover have "inFlight (rowId row) cs \<le> int (length cs) * a"
      by (rule inFlight_cleared [OF cl at a(1) \<open>0 \<le> a\<close>])
    moreover have "int (length cs) * a + a \<le> int k * a"
      using mult_right_mono [of "int (length cs) + 1" "int k" a] k \<open>0 \<le> a\<close> by (simp add: algebra_simps)
    ultimately show ?thesis using a(2) by linarith
  qed
  then have "overshoot k (w_rows w) (cs @ [?x])"
    using ov at a(1) by (auto simp: overshoot_def add.assoc)
  then show ?thesis using wf cl x rows by (auto simp: airborne_def)
qed

lemma airborne_abort:
  assumes inv: "airborne N k (w, cs @ x # ds)" and rows: "w_rows u = w_rows w"
  shows "airborne N k (u, cs @ ds)"
proof -
  have d: "0 < fl_Amount x" and ov: "overshoot k (w_rows w) (cs @ x # ds)"
    using inv by (auto simp: airborne_def cleared_def)
  have "spent r + inFlight i (cs @ ds) \<le> int k * a"
    if "lookupRow (w_rows w) i = Some r" "setString 10 (au_AmountAtoms r) = Some a" for i r a
    using overshootD(2) [OF ov that] d by (simp split: if_splits)
  then have "overshoot k (w_rows w) (cs @ ds)" using ov by (auto simp: overshoot_def)
  then show ?thesis using inv rows by (auto simp: airborne_def)
qed

lemma airborne_book:
  assumes inv: "airborne N k (u, cs @ x # ds)"
    and run: "spendBook (fl_Spender x) (fl_Amount x) (fl_Agent x) (fl_Row x) res u = Some (r, w')"
  shows "airborne N k (w', cs @ ds)"
proof -
  let ?row = "fl_Row x" and ?d = "fl_Amount x"
  let ?i = "rowId ?row"
  have wf: "store_wf (w_rows u)" and cl: "\<forall>y\<in>set (cs @ ds). cleared N (w_rows u) y"
    and x: "cleared N (w_rows u) x" and ov: "overshoot k (w_rows u) (cs @ x # ds)"
    using inv by (auto simp: airborne_def)
  from x obtain cur a where ports: "spend_ports N (fl_Spender x)" and d: "0 < ?d"
    and id: "mkId (au_Owner ?row) (fl_Agent x) (au_Token ?row) (au_Nonce ?row) = ?i"
    and cur: "lookupRow (w_rows u) ?i = Some cur" "setString 10 (au_AmountAtoms cur) = Some a"
    by (auto simp: cleared_def)
  have "setString 10 (trimSpace (showInt ?d)) = Some ?d" by simp
  from ms.bump_law [OF wf cur(1) [folded id] this] obtain rows where
    b: "ms_BumpSpent (au_Owner ?row) (fl_Agent x) (au_Token ?row) (au_Nonce ?row) (showInt ?d) (w_rows u) = Ok rows"
    and wf': "store_wf rows" and l: "lookupRow rows = (lookupRow (w_rows u))(?i \<mapsto> bumped cur ?d)"
    unfolding id by blast
  from spendBook_effect [OF ports b run] have w': "w_rows w' = rows" by simp
  have amt: "au_AmountAtoms (bumped cur ?d) = au_AmountAtoms cur" by (simp add: bumped_def)
  have "cleared N rows y" if "y \<in> set (cs @ ds)" for y
    using cl that cur amt unfolding cleared_def l by (fastforce split: if_splits)
  moreover have "overshoot k rows (cs @ ds)"
    unfolding overshoot_def
  proof (intro allI impI)
    fix i r b
    assume r: "lookupRow rows i = Some r" and b: "setString 10 (au_AmountAtoms r) = Some b"
    show "0 \<le> spent r \<and> spent r + inFlight i (cs @ ds) \<le> int k * b"
    proof (cases "i = ?i")
      case True
      then have "r = bumped cur ?d" using r l by simp
      then have "spent r = spent cur + ?d" "a = b" using b cur(2) amt by (simp_all add: ms.spent_bumped)
      with overshootD [OF ov cur] d True show ?thesis by simp
    next
      case False
      then have "lookupRow (w_rows u) i = Some r" using r l by simp
      from overshootD [OF ov this b] False show ?thesis by simp
    qed
  qed
  ultimately show ?thesis using wf' w' by (auto simp: airborne_def)
qed

lemma airborne_step:
  assumes step: "race_step E N (w, cs) (w', ds)" and inv: "airborne N k (w, cs)" and k: "length ds \<le> k"
  shows "airborne N k (w', ds)"
proof (rule race_stepE [OF step], goal_cases)
  case (1 s d now agent row)
  then show ?thesis using airborne_check [OF inv] k by simp
next
  case (2 x res u res' as bs)
  then have "cleared N (w_rows w) x" using inv by (auto simp: airborne_def)
  then have "calm w u" using 2 by (auto simp: cleared_def intro: spendPay_calm)
  then have "airborne N k (u, as @ x # bs)" using inv 2 by (simp add: airborne_def calm_def)
  from airborne_book [OF this] 2 show ?thesis by blast
next
  case (3 x e as bs)
  then have "cleared N (w_rows w) x" using inv by (auto simp: airborne_def)
  then have "calm w w'" using 3 by (auto simp: cleared_def intro: spendPay_calm)
  then show ?thesis using airborne_abort [of N k w as x bs w'] inv 3 by (simp add: calm_def)
qed

lemma airborne_race: "race E N k c d \<Longrightarrow> airborne N k c \<Longrightarrow> airborne N k d"
proof (induction rule: race.induct)
  case (race_next c d e)
  then show ?case using airborne_step by (metis prod.collapse)
qed simp

section \<open>Two spends at once\<close>

lemma demo_race:
  "\<exists>w'. race demo_lib demo_env 2 (demo_spend_world, []) (w', []) \<and>
     w_rows w' = [demo_grant\<lparr>au_SpentAtoms := showInt 160\<rparr>]"
proof -
  let ?g = "\<lambda>x. demo_grant\<lparr>au_SpentAtoms := showInt x\<rparr>"
  let ?w = demo_spend_world
  obtain x where x: "x = \<lparr>fl_Spender = demo_spender, fl_Amount = 80, fl_Now = 1000, fl_Agent = demo_agent, fl_Row = ?g 0\<rparr>"
    by simp
  have w0: "w_rows ?w = [?g 0]" by (rule demo_spend_rows)
  have chk: "spendCheck demo_spender 80 1000 ?w = Some (Ok (demo_agent, ?g 0), ?w)"
    by (rule demo_check [OF w0]) simp_all
  have check: "race_step demo_lib demo_env (?w, cs) (?w, cs @ [x])" for cs
    unfolding x by (rule race_check [OF demo_spend_ports demo_honest _ chk]) simp
  have pay: "\<exists>r u. spendPay demo_lib (env_runtime demo_env) demo_spender 80 1000 demo_agent (?g 0) v = Some (Ok r, u) \<and>
      calm v u" for v
    using demo_pay by (metis zero_less_numeral)
  have finish: "\<exists>w'. race_step demo_lib demo_env (v, x # cs) (w', cs) \<and> w_rows w' = [?g (t + 80)]"
    if v: "w_rows v = [?g t]" for v t cs
  proof -
    obtain r u where p: "spendPay demo_lib (env_runtime demo_env) demo_spender 80 1000 demo_agent (?g 0) v = Some (Ok r, u)"
      and "calm v u" using pay by blast
    then have "w_rows u = [?g t]" using v by (simp add: calm_def)
    from demo_book [OF this, of 80 "showInt 0" r] p
    have "race_step demo_lib demo_env (v, [] @ x # cs) (u\<lparr>w_rows := [?g (t + 80)]\<rparr>, [] @ cs)"
      by (intro race_finish) (simp_all add: x)
    then show ?thesis by (intro exI [of _ "u\<lparr>w_rows := [?g (t + 80)]\<rparr>"]) simp
  qed
  obtain w1 where f1: "race_step demo_lib demo_env (?w, [x, x]) (w1, [x])" and w1: "w_rows w1 = [?g 80]"
    using finish [OF w0, of "[x]"] by auto
  obtain w2 where f2: "race_step demo_lib demo_env (w1, [x]) (w2, [])" and w2: "w_rows w2 = [?g 160]"
    using finish [OF w1, of "[]"] by auto
  have "race demo_lib demo_env 2 (?w, []) (?w, [x])"
    using race_next [OF race_refl check [of "[]"]] by simp
  then have "race demo_lib demo_env 2 (?w, []) (?w, [x, x])"
    using race_next [OF _ check [of "[x]"]] by simp
  then have "race demo_lib demo_env 2 (?w, []) (w1, [x])" by (rule race_next [OF _ f1]) simp
  then have "race demo_lib demo_env 2 (?w, []) (w2, [])" by (rule race_next [OF _ f2]) simp
  with w2 show ?thesis by blast
qed

lemma demo_spent: "spent (demo_grant\<lparr>au_SpentAtoms := showInt x\<rparr>) = x"
  by (simp add: spent_def orZero_def)

lemma demo_allowance: "setString 10 (au_AmountAtoms (demo_grant\<lparr>au_SpentAtoms := t\<rparr>)) = Some 100"
  by (simp add: demo_grant_def)

section \<open>Properties\<close>

text \<open>
  C38: the allowance is not protected against concurrent spends. Two spends of 80 atoms against an
  authorization over 100 atoms, both checked before either has booked, both pay and book: the
  recorded total ends at 160. (The store serialises each operation, not the check together with
  the booking.)
\<close>

theorem concurrent_spends_exceed_allowance:
  "\<exists>w' r. race demo_lib demo_env 2 (demo_spend_world, []) (w', []) \<and>
     w_rows w' = [r] \<and> setString 10 (au_AmountAtoms r) = Some 100 \<and> spent r = 160"
  using demo_race demo_spent demo_allowance by blast

text \<open>
  C39: how far concurrent spends can go over the allowance. If every recorded total starts between 0
  and its allowance, then after any interleaving of spends (of any agents, successful or not) with
  never more than \<open>k\<close> between check and booking, every recorded total is between 0 and \<open>k\<close> times its
  allowance. For \<open>k = 1\<close> this is the allowance itself: spends that do not overlap are safe.
\<close>

theorem overspend_bounded_by_flights:
  assumes "race E N k (w, []) (w', cs)" and "store_wf (w_rows w)" and "1 \<le> k"
    and "\<forall>i r a. lookupRow (w_rows w) i = Some r \<longrightarrow> setString 10 (au_AmountAtoms r) = Some a \<longrightarrow>
      0 \<le> spent r \<and> spent r \<le> a"
  shows "store_wf (w_rows w') \<and>
    (\<forall>i r a. lookupRow (w_rows w') i = Some r \<longrightarrow> setString 10 (au_AmountAtoms r) = Some a \<longrightarrow>
      0 \<le> spent r \<and> spent r \<le> int k * a)"
proof -
  have k: "a \<le> int k * a" if "0 \<le> a" for a
    using mult_right_mono [of 1 "int k" a] assms(3) that by simp
  have "0 \<le> spent r \<and> spent r + inFlight i [] \<le> int k * a"
    if "lookupRow (w_rows w) i = Some r" "setString 10 (au_AmountAtoms r) = Some a" for i r a
  proof -
    have "0 \<le> spent r" "spent r \<le> a" using assms(4) that by blast+
    with k [of a] show ?thesis by simp
  qed
  then have "overshoot k (w_rows w) []" unfolding overshoot_def by blast
  then have "airborne N k (w, [])" using assms(2) by (simp add: airborne_def)
  from airborne_race [OF assms(1) this]
  have wf: "store_wf (w_rows w')" and cl: "\<forall>x\<in>set cs. cleared N (w_rows w') x" and ov: "overshoot k (w_rows w') cs"
    by (simp_all add: airborne_def)
  have "0 \<le> inFlight i cs" for i
    using cl by (induction cs) (auto simp: cleared_def)
  then have "spent r \<le> int k * a"
    if "lookupRow (w_rows w') i = Some r" "setString 10 (au_AmountAtoms r) = Some a" for i r a
    using overshootD(2) [OF ov that] by (meson add_increasing2 order_refl order_trans)
  then show ?thesis using wf overshootD(1) [OF ov] by blast
qed

theorem overspend_bounded_by_flights_witness:
  "\<exists>w' r. race demo_lib demo_env 2 (demo_spend_world, []) (w', []) \<and> lookupRow (w_rows w') (rowId r) = Some r \<and>
     100 < spent r \<and> spent r \<le> 2 * 100"
proof -
  obtain w' where run: "race demo_lib demo_env 2 (demo_spend_world, []) (w', [])"
    and w': "w_rows w' = [demo_grant\<lparr>au_SpentAtoms := showInt 160\<rparr>]" using demo_race by blast
  let ?r = "demo_grant\<lparr>au_SpentAtoms := showInt 160\<rparr>"
  have start: "\<forall>i r a. lookupRow (w_rows demo_spend_world) i = Some r \<longrightarrow> setString 10 (au_AmountAtoms r) = Some a \<longrightarrow>
      0 \<le> spent r \<and> spent r \<le> a"
    using demo_spent [of 0] demo_allowance [of "showInt 0"] by (auto simp: demo_spend_rows split: if_splits)
  have l: "lookupRow (w_rows w') (rowId ?r) = Some ?r" by (simp add: w')
  from overspend_bounded_by_flights [OF run demo_grant_wf _ start, THEN conjunct2, rule_format, OF _ l demo_allowance]
  have "spent ?r \<le> 2 * 100" by simp
  with run l demo_spent [of 160] show ?thesis by (intro exI [of _ w'] exI [of _ ?r]) simp
qed

end
