(* ===== verification/Listener.thy ===== *)
theory Listener
  imports World Permit2
begin

text \<open>
  \<open>src/listener.go\<close>: the loop that reads Permit2 and token events and reconciles the authorization
  store. A \<open>Tick\<close> reads the head and the watermark, queries one window of blocks, applies every
  log, and moves the watermark to the end of the window; \<open>Run\<close> ticks until its context is done, so
  it is a partial function.

  The lemmas give the decoders on logs as the contracts emit them, the exact window and watermark
  of a tick, and what an applied event does to the rows.
\<close>

section \<open>Decoding logs\<close>

definition keccak256Sig :: "eth_lib \<Rightarrow> string \<Rightarrow> bytes" where
  "keccak256Sig E s = keccak256 E (stringBytes s)"

definition topicPermit :: "eth_lib \<Rightarrow> hash" where
  "topicPermit E = bytesToHash E (keccak256Sig E ''Permit(address,address,address,uint160,uint48,uint48)'')"

definition topicLockdown :: "eth_lib \<Rightarrow> hash" where
  "topicLockdown E = bytesToHash E (keccak256Sig E ''Lockdown(address,address,address)'')"

definition topicTransfer :: "eth_lib \<Rightarrow> hash" where
  "topicTransfer E = bytesToHash E (keccak256Sig E ''Transfer(address,address,uint256)'')"

record permit_event =
  pe_Owner :: string
  pe_Token :: string
  pe_Spender :: string
  pe_AmountAtoms :: string
  pe_Expiration :: i64
  pe_Nonce :: i64

record lockdown_event =
  le_Owner :: string
  le_Token :: string
  le_Spender :: string

record transfer_event =
  te_Token :: string
  te_From :: string
  te_To :: string
  te_ValueAtoms :: string
  te_TxHash :: string

definition topicAddr :: "eth_lib \<Rightarrow> hash \<Rightarrow> string" where
  "topicAddr E h = addressHex E (bytesToAddress E (take 20 (drop 12 (hashBytes h))))"

definition DecodePermit :: "eth_lib \<Rightarrow> eth_log \<Rightarrow> permit_event res" where
  "DecodePermit E l =
     (if length (lg_Topics l) \<noteq> 4 \<or> lg_Topics l ! 0 \<noteq> topicPermit E then
        Err (Errorf ''not a Permit log'' [])
      else if length (lg_Data l) \<noteq> 96 then
        Err (Errorf ''permit data must be 96 bytes, got %d'' [showNat (length (lg_Data l))])
      else Ok \<lparr>
        pe_Owner = topicAddr E (lg_Topics l ! 1),
        pe_Token = topicAddr E (lg_Topics l ! 2),
        pe_Spender = topicAddr E (lg_Topics l ! 3),
        pe_AmountAtoms = showInt (int (beNat (take 32 (lg_Data l)))),
        pe_Expiration = bigInt64 (int (beNat (take 32 (drop 32 (lg_Data l))))),
        pe_Nonce = bigInt64 (int (beNat (take 32 (drop 64 (lg_Data l)))))\<rparr>)"

definition DecodeLockdown :: "eth_lib \<Rightarrow> eth_log \<Rightarrow> lockdown_event res" where
  "DecodeLockdown E l =
     (if length (lg_Topics l) \<noteq> 4 \<or> lg_Topics l ! 0 \<noteq> topicLockdown E then
        Err (Errorf ''not a Lockdown log'' [])
      else Ok \<lparr>
        le_Owner = topicAddr E (lg_Topics l ! 1),
        le_Token = topicAddr E (lg_Topics l ! 2),
        le_Spender = topicAddr E (lg_Topics l ! 3)\<rparr>)"

definition DecodeTransfer :: "eth_lib \<Rightarrow> eth_log \<Rightarrow> transfer_event res" where
  "DecodeTransfer E l =
     (if length (lg_Topics l) \<noteq> 3 \<or> lg_Topics l ! 0 \<noteq> topicTransfer E then
        Err (Errorf ''not a Transfer log'' [])
      else if length (lg_Data l) \<noteq> 32 then
        Err (Errorf ''transfer data must be 32 bytes, got %d'' [showNat (length (lg_Data l))])
      else Ok \<lparr>
        te_Token = addressHex E (lg_Address l),
        te_From = topicAddr E (lg_Topics l ! 1),
        te_To = topicAddr E (lg_Topics l ! 2),
        te_ValueAtoms = showInt (int (beNat (take 32 (lg_Data l)))),
        te_TxHash = hashHex E (lg_TxHash l)\<rparr>)"

section \<open>The loop\<close>

record 'w event_loop =
  el_RPC :: "'w base_rpc option"
  el_Store :: "'w auth_store option"
  el_Watermark :: "'w watermark_store option"
  el_Permit2Address :: string
  el_AgentFilter :: "(string \<Rightarrow> bool) option"
  el_USDCAddress :: string
  el_TreasuryAddressFn :: "('w, string) io option"
  el_Crediter :: "'w crediter option"
  el_PollInterval :: int
  el_MaxBlocksPerTick :: u64
  el_InitialBackfillBlocks :: u64

definition el_defaults :: "'w event_loop \<Rightarrow> 'w event_loop" where
  "el_defaults l0 =
     (let l1 = (if el_Permit2Address l0 = [] then l0\<lparr>el_Permit2Address := CanonicalPermit2Address\<rparr> else l0);
          l2 = (if el_PollInterval l1 \<le> 0 then l1\<lparr>el_PollInterval := 12 * second\<rparr> else l1) in
      if el_MaxBlocksPerTick l2 = 0 then l2\<lparr>el_MaxBlocksPerTick := 5000\<rparr> else l2)"

definition ignored :: "'w event_loop \<Rightarrow> string \<Rightarrow> bool" where
  "ignored l agent = (case el_AgentFilter l of None \<Rightarrow> False | Some f \<Rightarrow> \<not> f agent)"

definition eventRow :: "permit_event \<Rightarrow> u64 \<Rightarrow> authorization" where
  "eventRow ev block =
    \<lparr>au_Owner = pe_Owner ev, au_Agent = pe_Spender ev, au_Token = pe_Token ev,
     au_AmountAtoms = pe_AmountAtoms ev, au_Expiration = pe_Expiration ev, au_Nonce = pe_Nonce ev,
     au_SignatureHex = [], au_SpentAtoms = [], au_Revoked = False, au_OnchainLocked = False,
     au_CreatedAtUnix = block\<rparr>"

definition applyPermit2 :: "eth_lib \<Rightarrow> 'w event_loop \<Rightarrow> eth_log \<Rightarrow> ('w, unit) io" where
  "applyPermit2 E l lg =
     (if lg_Topics lg \<noteq> [] \<and> lg_Topics lg ! 0 = topicPermit E then
        io_bind (lift (DecodePermit E lg)) (\<lambda>ev.
        if ignored l (pe_Spender ev) then ret ()
        else io_bind (st_Upsert (the (el_Store l)) (eventRow ev (lg_BlockNumber lg))) (\<lambda>_. ret ()))
      else if lg_Topics lg \<noteq> [] \<and> lg_Topics lg ! 0 = topicLockdown E then
        io_bind (lift (DecodeLockdown E lg)) (\<lambda>ev.
        if ignored l (le_Spender ev) then ret ()
        else st_MarkLocked (the (el_Store l)) (le_Owner ev) (le_Spender ev) (le_Token ev))
      else ret ())"

definition maxInt64 :: i64 where
  "maxInt64 = 0x7FFFFFFFFFFFFFFF" \<comment> \<open>\<open>int64(^uint64(0) >> 1)\<close>\<close>

definition applyTransfer :: "eth_lib \<Rightarrow> 'w event_loop \<Rightarrow> eth_log \<Rightarrow> ('w, unit) io" where
  "applyTransfer E l lg =
     io_bind (lift (DecodeTransfer E lg)) (\<lambda>ev.
     io_try (st_ActiveForOwner (the (el_Store l)) (te_From ev) (te_Token ev) maxInt64)
       (\<lambda>_. ret ())
       (\<lambda>row.
          io_bind
            (case el_Crediter l of
               None \<Rightarrow> ret False
             | Some cr \<Rightarrow>
                 io_bind (cr (te_From ev) (te_Token ev) (te_ValueAtoms ev) (te_TxHash ev))
                   (\<lambda>(ca, ba, rep). ret rep))
            (\<lambda>replayed.
              if replayed then ret ()
              else st_BumpSpent (the (el_Store l)) (au_Owner row) (au_Agent row) (au_Token row)
                     (au_Nonce row) (te_ValueAtoms ev))))"

text \<open>\<open>for _, lg := range logs { _ = f(lg) }\<close>.\<close>

fun forEach :: "('a \<Rightarrow> ('w, unit) io) \<Rightarrow> 'a list \<Rightarrow> ('w, unit) io" where
  "forEach f [] = ret ()"
| "forEach f (x # xs) = io_bind (io_both (f x)) (\<lambda>_. forEach f xs)"

text \<open>The end of the window: at most \<open>MaxBlocksPerTick\<close> blocks from \<open>start\<close>, in 64-bit arithmetic.\<close>

definition windowEnd :: "u64 \<Rightarrow> u64 \<Rightarrow> u64 \<Rightarrow> u64" where
  "windowEnd start head maxBlocks =
     (if head > start + maxBlocks - 1 then start + maxBlocks - 1 else head)"

definition seedMark :: "u64 \<Rightarrow> u64 \<Rightarrow> u64" where
  "seedMark head backfill = (if backfill > 0 \<and> head > backfill then head - backfill else head)"

definition permit2Query :: "eth_lib \<Rightarrow> 'w event_loop \<Rightarrow> u64 \<Rightarrow> u64 \<Rightarrow> filter_query" where
  "permit2Query E l start stop =
    \<lparr>fq_FromBlock = uint start, fq_ToBlock = uint stop,
     fq_Addresses = [hexToAddress E (el_Permit2Address l)],
     fq_Topics = [[topicPermit E, topicLockdown E]]\<rparr>"

definition transferQuery :: "eth_lib \<Rightarrow> 'w event_loop \<Rightarrow> string \<Rightarrow> u64 \<Rightarrow> u64 \<Rightarrow> filter_query" where
  "transferQuery E l treasury start stop =
    \<lparr>fq_FromBlock = uint start, fq_ToBlock = uint stop,
     fq_Addresses = [hexToAddress E (el_USDCAddress l)],
     fq_Topics = [[topicTransfer E], [], [bytesToHash E (addressBytes (hexToAddress E treasury))]]\<rparr>"

text \<open>The optional token part of a tick; all its errors are swallowed.\<close>

definition tickTransfers :: "eth_lib \<Rightarrow> 'w event_loop \<Rightarrow> u64 \<Rightarrow> u64 \<Rightarrow> ('w, unit) io" where
  "tickTransfers E l start stop =
     (if el_USDCAddress l = [] then ret ()
      else case el_TreasuryAddressFn l of
        None \<Rightarrow> ret ()
      | Some fn \<Rightarrow>
          io_bind (io_both fn) (\<lambda>t.
          case t of
            Inl _ \<Rightarrow> ret ()
          | Inr treasury \<Rightarrow>
              if \<not> isHexAddress E treasury then ret ()
              else
                io_bind (io_both (rpc_FilterLogs (the (el_RPC l)) (transferQuery E l treasury start stop))) (\<lambda>ls.
                case ls of Inl _ \<Rightarrow> ret () | Inr tlogs \<Rightarrow> forEach (applyTransfer E l) tlogs)))"

definition tickWindow :: "eth_lib \<Rightarrow> 'w event_loop \<Rightarrow> u64 \<Rightarrow> u64 \<Rightarrow> ('w, unit) io" where
  "tickWindow E l head wm =
     (if wm \<ge> head then ret ()
      else
        let start = wm + 1; stop = windowEnd start head (el_MaxBlocksPerTick l) in
        io_bind (io_wrap ''filter permit2 %d-%d: %w'' [showU start, showU stop]
          (rpc_FilterLogs (the (el_RPC l)) (permit2Query E l start stop))) (\<lambda>p2logs.
        io_bind (forEach (applyPermit2 E l) p2logs) (\<lambda>_.
        io_bind (tickTransfers E l start stop) (\<lambda>_.
        wm_Set (the (el_Watermark l)) stop))))"

definition Tick :: "eth_lib \<Rightarrow> 'w event_loop \<Rightarrow> ('w, unit) io" where
  "Tick E l0 =
     (let l = el_defaults l0 in
      io_bind (io_wrap ''head: %w'' [] (rpc_BlockNumber (the (el_RPC l)))) (\<lambda>head.
      io_bind (io_wrap ''watermark: %w'' [] (wm_Get (the (el_Watermark l)))) (\<lambda>wm0.
      io_bind
        (if wm0 = 0 then
           let seed = seedMark head (el_InitialBackfillBlocks l) in
           io_bind (io_wrap ''seed watermark: %w'' [] (wm_Set (the (el_Watermark l)) seed)) (\<lambda>_. ret seed)
         else ret wm0) (\<lambda>wm.
      tickWindow E l head wm))))"

text \<open>A tick whose error goes to the caller's callback, if there is one.\<close>

definition tickReporting ::
  "eth_lib \<Rightarrow> 'w event_loop \<Rightarrow> (error \<Rightarrow> 'w \<Rightarrow> 'w) option \<Rightarrow> ('w, unit) io" where
  "tickReporting E l onError =
     io_try (Tick E l) (\<lambda>err w. ret () (case onError of None \<Rightarrow> w | Some f \<Rightarrow> f err w)) ret"

text \<open>The \<open>for\<close> loop of \<open>Run\<close>: a ticker interval, or the context's error when it is done first.\<close>

partial_function (option) runLoop ::
  "eth_lib \<Rightarrow> 'w runtime \<Rightarrow> 'w event_loop \<Rightarrow> (error \<Rightarrow> 'w \<Rightarrow> 'w) option \<Rightarrow> 'w \<Rightarrow> (unit res \<times> 'w) option"
where
  "runLoop E rt l onError w =
     io_bind (rt_wait rt (el_PollInterval l)) (\<lambda>_.
     io_bind (tickReporting E l onError) (\<lambda>_. runLoop E rt l onError)) w"

definition Run ::
  "eth_lib \<Rightarrow> 'w runtime \<Rightarrow> 'w event_loop option \<Rightarrow> (error \<Rightarrow> 'w \<Rightarrow> 'w) option \<Rightarrow> ('w, unit) io" where
  "Run E rt loop onError =
     (case loop of
        None \<Rightarrow> fail (Errorf ''agentwallet eventloop: missing deps'' [])
      | Some l0 \<Rightarrow>
          if el_RPC l0 = None \<or> el_Store l0 = None \<or> el_Watermark l0 = None then
            fail (Errorf ''agentwallet eventloop: missing deps'' [])
          else
            let l = el_defaults l0 in
            io_bind (tickReporting E l onError) (\<lambda>_. runLoop E rt l onError))"

section \<open>Logs as the contracts emit them\<close>

text \<open>An indexed address is left-padded to the 32 bytes of a topic.\<close>

definition addressTopic :: "address \<Rightarrow> hash" where
  "addressTopic a = word_of_nat (unat a)"

definition permitLog ::
  "eth_lib \<Rightarrow> address \<Rightarrow> u64 \<Rightarrow> hash \<Rightarrow> address \<Rightarrow> address \<Rightarrow> address \<Rightarrow> nat \<Rightarrow> nat \<Rightarrow> nat \<Rightarrow> eth_log" where
  "permitLog E emitter block tx owner token spndr amount expiration nonce =
    \<lparr>lg_Address = emitter,
     lg_Topics = [topicPermit E, addressTopic owner, addressTopic token, addressTopic spndr],
     lg_Data = beBytes 32 amount @ beBytes 32 expiration @ beBytes 32 nonce,
     lg_BlockNumber = block, lg_TxHash = tx\<rparr>"

text \<open>
  Permit2 declares \<open>Lockdown(address indexed owner, address token, address spender)\<close> (the interface
  \<open>IAllowanceTransfer\<close>): of the three addresses only the owner is a topic, the others are the two
  words of the data. The decoder, and the log of the repository's own test (\<open>v1_test.go\<close>), have all
  three as topics.
\<close>

definition addressWord :: "address \<Rightarrow> bytes" where
  "addressWord a = replicate 12 0 @ addressBytes a"

definition lockdownLog ::
  "eth_lib \<Rightarrow> address \<Rightarrow> u64 \<Rightarrow> hash \<Rightarrow> address \<Rightarrow> address \<Rightarrow> address \<Rightarrow> eth_log" where
  "lockdownLog E emitter block tx owner token spndr =
    \<lparr>lg_Address = emitter, lg_Topics = [topicLockdown E, addressTopic owner],
     lg_Data = addressWord token @ addressWord spndr, lg_BlockNumber = block, lg_TxHash = tx\<rparr>"

definition indexedLockdownLog ::
  "eth_lib \<Rightarrow> address \<Rightarrow> u64 \<Rightarrow> hash \<Rightarrow> address \<Rightarrow> address \<Rightarrow> address \<Rightarrow> eth_log" where
  "indexedLockdownLog E emitter block tx owner token spndr =
    \<lparr>lg_Address = emitter,
     lg_Topics = [topicLockdown E, addressTopic owner, addressTopic token, addressTopic spndr],
     lg_Data = [], lg_BlockNumber = block, lg_TxHash = tx\<rparr>"

definition transferLog :: "eth_lib \<Rightarrow> address \<Rightarrow> u64 \<Rightarrow> hash \<Rightarrow> address \<Rightarrow> address \<Rightarrow> nat \<Rightarrow> eth_log" where
  "transferLog E token block tx payer payee atoms =
    \<lparr>lg_Address = token, lg_Topics = [topicTransfer E, addressTopic payer, addressTopic payee],
     lg_Data = beBytes 32 atoms, lg_BlockNumber = block, lg_TxHash = tx\<rparr>"

lemma topicAddr_addressTopic:
  assumes "bytes_address_law E"
  shows "topicAddr E (addressTopic a) = addressHex E a"
proof -
  have a: "unat a < 2 ^ 160" using unsigned_less [of a, where ?'a = nat] by simp
  then have "unat (addressTopic a) = unat a"
    unfolding addressTopic_def unsigned_of_nat by (simp add: take_bit_nat_eq_self)
  then have "hashBytes (addressTopic a) = beBytes (12 + 20) (unat a)" by (simp add: hashBytes_def)
  also have "\<dots> = replicate 12 0 @ addressBytes a"
    unfolding addressBytes_def using a by (intro beBytes_pad) simp
  finally have "take 20 (drop 12 (hashBytes (addressTopic a))) = addressBytes a" by simp
  then show ?thesis using assms by (simp add: topicAddr_def bytes_address_law_def)
qed

lemma DecodePermit_permitLog:
  assumes "bytes_address_law E" and "amount < 2 ^ 256" and "expiration < 2 ^ 63" and "nonce < 2 ^ 63"
  shows "DecodePermit E (permitLog E em bl tx owner token spndr amount expiration nonce) =
    Ok \<lparr>pe_Owner = addressHex E owner, pe_Token = addressHex E token, pe_Spender = addressHex E spndr,
        pe_AmountAtoms = showInt (int amount), pe_Expiration = bigInt64 (int expiration),
        pe_Nonce = bigInt64 (int nonce)\<rparr>"
  using assms topicAddr_addressTopic [OF assms(1)]
  by (simp add: DecodePermit_def permitLog_def)

lemma DecodeLockdown_indexedLockdownLog:
  assumes "bytes_address_law E"
  shows "DecodeLockdown E (indexedLockdownLog E em bl tx owner token spndr) =
    Ok \<lparr>le_Owner = addressHex E owner, le_Token = addressHex E token, le_Spender = addressHex E spndr\<rparr>"
  using topicAddr_addressTopic [OF assms] by (simp add: DecodeLockdown_def indexedLockdownLog_def)

lemma DecodeLockdown_lockdownLog:
  "DecodeLockdown E (lockdownLog E em bl tx owner token spndr) = Err (Errorf ''not a Lockdown log'' [])"
  by (simp add: DecodeLockdown_def lockdownLog_def)

lemma DecodeTransfer_transferLog:
  assumes "bytes_address_law E" and "atoms < 2 ^ 256"
  shows "DecodeTransfer E (transferLog E token bl tx payer payee atoms) =
    Ok \<lparr>te_Token = addressHex E token, te_From = addressHex E payer, te_To = addressHex E payee,
        te_ValueAtoms = showInt (int atoms), te_TxHash = hashHex E tx\<rparr>"
  using assms(2) topicAddr_addressTopic [OF assms(1)] by (simp add: DecodeTransfer_def transferLog_def)

section \<open>What applying a log changes\<close>

lemma expiration_never_beyond_max: "\<not> sint (maxInt64) < sint (e :: i64)"
proof -
  have "sint e < 2 ^ 63" using sint_lt [of e] by simp
  moreover have "sint maxInt64 = 2 ^ 63 - 1" by (simp add: maxInt64_def)
  ultimately show ?thesis by simp
qed

lemma no_row_beyond_max: "ms_ActiveForOwner owner token maxInt64 rows = Err ErrNoAuthorization"
  by (simp add: ms_ActiveForOwner_def pickActive_def expiration_never_beyond_max)

lemma eventRow_readable [simp]: "readable (eventRow ev block)"
  by (simp add: readable_def eventRow_def orZero_Nil)

definition loop_ports :: "env \<Rightarrow> world event_loop \<Rightarrow> bool" where
  "loop_ports N l \<longleftrightarrow>
     el_RPC l = Some (env_rpc N) \<and> el_Store l = Some memory_store \<and> el_Watermark l = Some (env_watermark N) \<and>
     (\<forall>fn. el_TreasuryAddressFn l = Some fn \<longrightarrow> moves silent fn) \<and>
     (\<forall>cr ow tk at tx. el_Crediter l = Some cr \<longrightarrow> moves silent (cr ow tk at tx))"

lemma el_defaults_fields [simp]:
  "el_RPC (el_defaults l) = el_RPC l" "el_Store (el_defaults l) = el_Store l"
  "el_Watermark (el_defaults l) = el_Watermark l" "el_Crediter (el_defaults l) = el_Crediter l"
  "el_TreasuryAddressFn (el_defaults l) = el_TreasuryAddressFn l"
  "el_InitialBackfillBlocks (el_defaults l) = el_InitialBackfillBlocks l"
  "el_AgentFilter (el_defaults l) = el_AgentFilter l"
  by (simp_all add: el_defaults_def Let_def)

lemma el_defaults_idem: "el_defaults (el_defaults l) = el_defaults l"
  by (simp add: el_defaults_def Let_def CanonicalPermit2Address_def second_def)

lemma loop_ports_defaults [simp]: "loop_ports N (el_defaults l) = loop_ports N l"
  by (simp add: loop_ports_def)

text \<open>The watermark is as before and the history only grows.\<close>

definition steady :: "world \<Rightarrow> world \<Rightarrow> bool" where
  "steady w w' \<longleftrightarrow> w_mark w' = w_mark w \<and> extends w w'"

lemma preorder_steady [simp, moves_intros]: "preorder_rel steady"
  by (auto simp: preorder_rel_def steady_def extends_def)

lemma steady_refl [simp]: "steady w w"
  by (simp add: steady_def extends_def)

lemma calm_steady: "moves calm m \<Longrightarrow> moves steady m"
  by (auto simp: moves_def calm_def steady_def)

lemma silent_steady: "moves silent m \<Longrightarrow> moves steady m"
  by (auto simp: moves_def silent_def calm_def steady_def)

lemma memory_store_steady [moves_intros]:
  "moves steady (st_Upsert memory_store a)" "moves steady (st_MarkLocked memory_store ow ag tk)"
  "moves steady (st_BumpSpent memory_store ow ag tk n add)"
  "moves steady (st_ActiveForOwner memory_store ow tk now)"
  by (auto simp: memory_store_def moves_def steady_def extends_def split: res.splits prod.splits)

lemma forEach_moves [moves_intros]:
  "preorder_rel R \<Longrightarrow> (\<And>x. moves R (f x)) \<Longrightarrow> moves R (forEach f xs)"
  by (induction xs) (simp_all add: moves_intros)

lemma applyPermit2_steady [moves_intros]:
  assumes "loop_ports N l"
  shows "moves steady (applyPermit2 E l lg)"
proof -
  have "el_Store l = Some memory_store" using assms by (simp add: loop_ports_def)
  then show ?thesis unfolding applyPermit2_def by (simp only: option.sel) (intro moves_intros)
qed

lemma applyTransfer_still:
  assumes "loop_ports N l"
  shows "moves (same id) (applyTransfer E l lg)"
proof (rule movesI)
  fix w r w'
  assume run: "applyTransfer E l lg w = Some (r, w')"
  have st: "el_Store l = Some memory_store" using assms by (simp add: loop_ports_def)
  have "st_ActiveForOwner memory_store ow tk maxInt64 u = Some (Err ErrNoAuthorization, u)" for ow tk u
    by (simp add: memory_store_def no_row_beyond_max lift_def)
  then show "same id w w'"
    using run
    by (cases "DecodeTransfer E lg")
      (auto simp: applyTransfer_def st io_bind_lift io_try_def ret_def fail_def lift_def same_def)
qed

lemma tickTransfers_calm:
  assumes "loop_ports N l"
  shows "moves calm (tickTransfers E l start stop)"
proof -
  have rpc: "el_RPC l = Some (env_rpc N)" using assms by (simp add: loop_ports_def)
  have tr: "moves calm fn" if "el_TreasuryAddressFn l = Some fn" for fn
    using assms that by (auto simp: loop_ports_def moves_def silent_def)
  have ap: "moves calm (applyTransfer E l lg)" for lg
    by (rule movesI) (use movesD [OF applyTransfer_still [OF assms]] in \<open>fastforce simp: same_def\<close>)
  show ?thesis
    unfolding tickTransfers_def rpc option.sel by (intro moves_intros tr ap)
qed

lemma env_Set_cases:
  "wm_Set (env_watermark N) b w = Some (r, w') \<Longrightarrow>
     extends w w' \<and> (isOk r \<and> w_mark w' = b \<or> \<not> isOk r \<and> w_mark w' = w_mark w)"
  by (auto simp: env_watermark_def io_bind_Some_iff ask_Some_iff extends_def)

lemma extends_news: "extends w w' \<Longrightarrow> w_hist w' = w_hist w @ news w w'"
  by (auto simp: extends_def news_append)

lemma windowEnd_unat:
  assumes "start = wm + 1" and "wm < head" and "unat wm + unat m < 2 ^ 64" and "m \<noteq> 0"
  shows "unat (windowEnd start head m) = min (unat head) (unat wm + unat m)"
proof -
  have e: "start + m - 1 = wm + m" using assms(1) by simp
  have s: "unat (wm + m) = unat wm + unat m"
    using assms(3) by (intro unat_add_lem [THEN iffD1]) simp
  show ?thesis by (simp add: windowEnd_def e s word_less_nat_alt min_def not_less)
qed

section \<open>A tick\<close>

definition tickMark :: "world event_loop \<Rightarrow> u64 \<Rightarrow> u64 \<Rightarrow> u64" where
  "tickMark l head mark = (if mark = 0 then seedMark head (el_InitialBackfillBlocks l) else mark)"

text \<open>Applying the logs of a window does not fail: the errors are dropped and nothing panics.\<close>

lemma memory_store_succeeds [succeeds_intros]:
  "succeeds (st_Upsert memory_store a)" "succeeds (st_MarkLocked memory_store ow ag tk)"
  by (auto simp: memory_store_def succeeds_def split: prod.split)

lemma decoders_no_panic [succeeds_intros]:
  "DecodePermit E lg \<noteq> Panic" "DecodeLockdown E lg \<noteq> Panic" "DecodeTransfer E lg \<noteq> Panic"
  by (simp_all add: DecodePermit_def DecodeLockdown_def DecodeTransfer_def)

lemma forEach_succeeds [succeeds_intros]: "(\<And>x. settles (f x)) \<Longrightarrow> succeeds (forEach f xs)"
  by (induction xs) (simp_all add: succeeds_intros)

lemma applyPermit2_settles:
  assumes "loop_ports N l"
  shows "settles (applyPermit2 E l lg)"
proof -
  have "el_Store l = Some memory_store" using assms by (simp add: loop_ports_def)
  then show ?thesis
    unfolding applyPermit2_def
    by (simp only: option.sel) (intro succeeds_intros succeeds_settles [OF memory_store_succeeds(1)]
        succeeds_settles [OF memory_store_succeeds(2)])
qed

text \<open>\<open>quiet\<close>: neither a query nor a row came in between; the watermark may have been seeded.\<close>

definition quiet :: "world \<Rightarrow> world \<Rightarrow> bool" where
  "quiet w w' \<longleftrightarrow> w_rows w' = w_rows w \<and> extends w w' \<and> (\<forall>q. EvFilterLogs q \<notin> set (news w w'))"

lemma quiet_refl [simp]: "quiet w w"
  by (simp add: quiet_def extends_def news_def)

lemma news_chain: "extends u v \<Longrightarrow> extends v w \<Longrightarrow> news u w = news u v @ news v w"
  by (rule news_append) (metis append.assoc extends_news)

lemma quiet_trans: "quiet u v \<Longrightarrow> quiet v w \<Longrightarrow> quiet u w"
  by (auto simp: quiet_def news_chain intro: extends_trans)

lemma quiet_one: "w_rows v = w_rows u \<Longrightarrow> w_hist v = w_hist u @ [ev] \<Longrightarrow> (\<And>q. ev \<noteq> EvFilterLogs q) \<Longrightarrow> quiet u v"
  by (auto simp: quiet_def extends_def news_append)

text \<open>The calls a tick makes before its window.\<close>

lemma head_call:
  assumes "io_wrap s as (rpc_BlockNumber (env_rpc N)) w = Some (q, u)"
  shows "quiet w u \<and> w_mark u = w_mark w \<and> (\<forall>h. q = Ok h \<longrightarrow> e_BlockNumber N (w_hist w) = Some (Ok h))"
  using assms by (auto simp: io_wrap_def io_try_Some_iff env_rpc_simps ask_Some_iff intro: quiet_one)

lemma mark_call:
  assumes "io_wrap s as (wm_Get (env_watermark N)) w = Some (q, u)"
  shows "quiet w u \<and> w_mark u = w_mark w \<and> (\<forall>m. q = Ok m \<longrightarrow> m = w_mark w)"
  using assms
  by (auto simp: io_wrap_def env_watermark_def io_try_Some_iff io_bind_Some_iff ask_Some_iff intro: quiet_one)

lemma env_Set_quiet: "wm_Set (env_watermark N) b w = Some (r, w') \<Longrightarrow> quiet w w'"
  by (auto simp: env_watermark_def io_bind_Some_iff ask_Some_iff intro!: quiet_one)

lemma seed_call:
  assumes "(if w_mark w = 0 then
         let seed = seedMark head (el_InitialBackfillBlocks l) in
         io_bind (io_wrap s as (wm_Set (env_watermark N) seed)) (\<lambda>_. ret seed)
       else ret (w_mark w)) w = Some (q, u)"
  shows "quiet w u \<and> (\<forall>m. q = Ok m \<longrightarrow> m = tickMark l head (w_mark w) \<and> w_mark u = m) \<and>
    (\<not> isOk q \<longrightarrow> w_mark u = w_mark w)"
proof (cases "w_mark w = 0")
  case True
  with assms obtain r where "wm_Set (env_watermark N) (seedMark head (el_InitialBackfillBlocks l)) w = Some (r, u)"
    and "isOk q = isOk r" and "\<forall>m. q = Ok m \<longrightarrow> m = seedMark head (el_InitialBackfillBlocks l)"
    by (auto simp: Let_def io_bind_Some_iff io_wrap_def io_try_Some_iff)
  with True env_Set_quiet env_Set_cases show ?thesis by (fastforce simp: tickMark_def)
next
  case False
  with assms show ?thesis by (auto simp: tickMark_def)
qed

lemma tickMark_defaults [simp]: "tickMark (el_defaults l) = tickMark l"
  by (intro ext) (simp add: tickMark_def)

text \<open>A tick stops before its window, with an error, or runs the window from the mark it read or seeded.\<close>

lemma Tick_stages [consumes 2, case_names stopped window]:
  assumes "loop_ports N l" and "Tick E l w = Some (r, w')"
  obtains "\<not> isOk r" "quiet w w'" "w_mark w' = w_mark w"
  | head v where "e_BlockNumber N (w_hist w) = Some (Ok head)" "quiet w v"
      "w_mark v = tickMark l head (w_mark w)"
      "tickWindow E (el_defaults l) head (w_mark v) v = Some (r, w')"
proof -
  have ports: "el_RPC (el_defaults l) = Some (env_rpc N)" "el_Watermark (el_defaults l) = Some (env_watermark N)"
    using assms(1) by (simp_all add: loop_ports_def)
  from assms(2) show thesis
    unfolding Tick_def Let_def ports option.sel
  proof (cases rule: io_bind_cases)
    case (failed q)
    with head_call that(1) show thesis by blast
  next
    case (ok head u)
    note h = head_call [OF ok(1)]
    from ok(2) show thesis
    proof (cases rule: io_bind_cases)
      case (failed q)
      with h mark_call [OF failed(1)] that(1) quiet_trans show thesis by metis
    next
      case (ok m v)
      from mark_call [OF ok(1)] h have v: "quiet w v" "m = w_mark v" "w_mark v = w_mark w"
        using quiet_trans by metis+
      from ok(2) show thesis
        unfolding v(2)
      proof (cases rule: io_bind_cases)
        case (failed q)
        from seed_call [where l = "el_defaults l", unfolded Let_def, OF failed(1)] failed v that(1) quiet_trans
        show thesis by metis
      next
        case (ok m x)
        from seed_call [where l = "el_defaults l", unfolded Let_def, OF ok(1)]
        have "quiet v x" "m = tickMark (el_defaults l) head (w_mark v)" "w_mark x = m" by auto
        with ok(2) h v that(2) [of head x] quiet_trans [of w v x] show thesis by simp
      qed
    qed
  qed
qed

text \<open>
  A window is empty, or its query fails, or its logs are applied; then the transfers, and unless they
  panic the watermark.
\<close>

lemma tickWindow_stages [consumes 2, case_names none unanswered applied]:
  assumes "loop_ports N l" and "tickWindow E l head wm w = Some (r, w')"
  obtains "head \<le> wm" "r = Ok ()" "w' = w"
  | stop q u where "wm < head" "stop = windowEnd (wm + 1) head (el_MaxBlocksPerTick l)"
      "q = permit2Query E l (wm + 1) stop" "u = w\<lparr>w_hist := w_hist w @ [EvFilterLogs q]\<rparr>"
      "\<not> isOk r" "w' = u"
  | stop q u logs x y t where "wm < head" "stop = windowEnd (wm + 1) head (el_MaxBlocksPerTick l)"
      "q = permit2Query E l (wm + 1) stop" "u = w\<lparr>w_hist := w_hist w @ [EvFilterLogs q]\<rparr>"
      "e_FilterLogs N q (w_hist w) = Some (Ok logs)" "forEach (applyPermit2 E l) logs u = Some (Ok (), x)"
      "tickTransfers E l (wm + 1) stop x = Some (t, y)"
      "\<not> isOk r \<and> w' = y \<or> isOk t \<and> wm_Set (env_watermark N) stop y = Some (r, w')"
proof -
  have ports: "el_RPC l = Some (env_rpc N)" "el_Watermark l = Some (env_watermark N)"
    using assms(1) by (simp_all add: loop_ports_def)
  show thesis
  proof (cases "head \<le> wm")
    case True
    with assms(2) that(1) show thesis by (simp add: tickWindow_def)
  next
    case False
    define stop where "stop = windowEnd (wm + 1) head (el_MaxBlocksPerTick l)"
    define q where "q = permit2Query E l (wm + 1) stop"
    define u where "u = w\<lparr>w_hist := w_hist w @ [EvFilterLogs q]\<rparr>"
    have call: "v = u \<and> (\<forall>logs. f = Ok logs \<longrightarrow> e_FilterLogs N q (w_hist w) = Some (Ok logs))"
      if "io_wrap s as (rpc_FilterLogs (env_rpc N) q) w = Some (f, v)" for s as f v
      using that by (auto simp: u_def io_wrap_def io_try_Some_iff env_rpc_simps ask_Some_iff)
    from assms(2) have "io_bind (io_wrap ''filter permit2 %d-%d: %w'' [showU (wm + 1), showU stop]
          (rpc_FilterLogs (env_rpc N) q)) (\<lambda>logs. io_bind (forEach (applyPermit2 E l) logs) (\<lambda>_.
        io_bind (tickTransfers E l (wm + 1) stop) (\<lambda>_. wm_Set (env_watermark N) stop))) w = Some (r, w')"
      using False unfolding tickWindow_def Let_def ports option.sel stop_def q_def by simp
    then show thesis
    proof (cases rule: io_bind_cases)
      case (failed f)
      with call [OF failed(1)] False that(2) [OF _ stop_def q_def u_def] show thesis by (simp add: not_le)
    next
      case (ok logs v)
      note v = call [OF ok(1)]
      have "succeeds (forEach (applyPermit2 E l) logs)"
        by (intro forEach_succeeds applyPermit2_settles [OF assms(1)])
      from succeedsD [OF this] obtain x where x: "forEach (applyPermit2 E l) logs u = Some (Ok (), x)" by auto
      from ok(2) v x have "io_bind (tickTransfers E l (wm + 1) stop) (\<lambda>_. wm_Set (env_watermark N) stop) x = Some (r, w')"
        by (simp add: io_bind_eval)
      then obtain t y where "tickTransfers E l (wm + 1) stop x = Some (t, y)"
        "\<not> isOk r \<and> w' = y \<or> isOk t \<and> wm_Set (env_watermark N) stop y = Some (r, w')"
        by (cases rule: io_bind_cases) auto
      with v x False that(3) [OF _ stop_def q_def u_def] show thesis by (simp add: not_le)
    qed
  qed
qed

lemma applied_steady:
  assumes "loop_ports N l" and "forEach (applyPermit2 E l) logs u = Some (a, x)"
    and "tickTransfers E l start stop x = Some (t, y)"
  shows "steady u x" and "calm x y" and "steady u y"
proof -
  have "moves steady (forEach (applyPermit2 E l) logs)"
    by (intro moves_intros applyPermit2_steady [OF assms(1)])
  from movesD [OF this assms(2)] show x: "steady u x" .
  from movesD [OF tickTransfers_calm [OF assms(1)] assms(3)] show "calm x y" .
  then have "steady x y" by (auto simp: calm_def steady_def)
  with x show "steady u y" by (rule preorder_trans [OF preorder_steady])
qed

lemma tickWindow_effect:
  assumes ports: "loop_ports N l" and run: "tickWindow E l head (w_mark w) w = Some (r, w')"
  shows "extends w w' \<and>
    (isOk r \<longrightarrow> (if head \<le> w_mark w then w_mark w' = w_mark w
       else w_mark w' = windowEnd (w_mark w + 1) head (el_MaxBlocksPerTick l) \<and>
            EvFilterLogs (permit2Query E l (w_mark w + 1) (w_mark w')) \<in> set (news w w'))) \<and>
    (\<not> isOk r \<longrightarrow> w_mark w' = w_mark w)"
  using ports run
proof (cases rule: tickWindow_stages)
  case none
  then show ?thesis by (simp add: extends_def)
next
  case (unanswered stop q u)
  then show ?thesis by (auto simp: extends_def)
next
  case (applied stop q u logs x y t)
  note steady = applied_steady(3) [OF ports applied(6,7)]
  have y: "extends u y" "w_mark y = w_mark w" using steady applied(4) by (simp_all add: steady_def)
  have w': "extends u w' \<and> (isOk r \<longrightarrow> w_mark w' = stop) \<and> (\<not> isOk r \<longrightarrow> w_mark w' = w_mark w)"
    using applied(8) env_Set_cases [of N stop y r w'] extends_trans [OF y(1)] y by auto
  then have "w_hist w' = w_hist w @ EvFilterLogs q # news u w'"
    using extends_news [of u w'] applied(4) by simp
  then have "extends w w'" "EvFilterLogs q \<in> set (news w w')"
    using news_append [of w' w] by (auto simp: extends_def)
  with w' applied(1,2,3) show ?thesis by (simp add: not_le [symmetric])
qed

lemma Tick_effect:
  assumes ports: "loop_ports N l0" and head: "e_BlockNumber N (w_hist w) = Some (Ok head)"
    and run: "Tick E l0 w = Some (r, w')"
  shows "let l = el_defaults l0; wm = tickMark l0 head (w_mark w);
             stop = windowEnd (wm + 1) head (el_MaxBlocksPerTick l) in
       extends w w' \<and>
       (isOk r \<longrightarrow> (if head \<le> wm then w_mark w' = wm
          else w_mark w' = stop \<and> EvFilterLogs (permit2Query E l (wm + 1) stop) \<in> set (news w w'))) \<and>
       (\<not> isOk r \<longrightarrow> w_mark w' = w_mark w \<or> w_mark w' = wm)"
  using ports run
proof (cases rule: Tick_stages)
  case stopped
  then show ?thesis by (simp add: Let_def quiet_def)
next
  case (window head' v)
  have h: "head' = head" using window(1) head by simp
  have ports': "loop_ports N (el_defaults l0)" using ports by simp
  note t = tickWindow_effect [OF ports' window(4)]
  have e: "extends w v" "extends v w'" using window(2) t by (simp_all add: quiet_def)
  have "set (news v w') \<subseteq> set (news w w')" using news_chain [OF e] by simp
  with t extends_trans [OF e] show ?thesis
    unfolding h window(3) Let_def by (auto split: if_splits)
qed

section \<open>The endless loop\<close>

lemma tickReporting_no_error: "tickReporting E l onError w = Some (r, w') \<Longrightarrow> r = Ok () \<or> r = Panic"
  by (auto simp: tickReporting_def io_try_Some_iff)

lemma runLoop_ends:
  assumes run: "runLoop E rt l onError w = Some (r, w')"
  shows "r = Panic \<or> (\<exists>e u. r = Err e \<and> rt_wait rt (el_PollInterval l) u = Some (Err e, w'))"
proof -
  have "fst (r, w') = Panic \<or>
      (\<exists>e u. fst (r, w') = Err e \<and> rt_wait rt (el_PollInterval l) u = Some (Err e, snd (r, w')))"
  proof (rule runLoop.raw_induct [where P = "\<lambda>E rt l onError w p. fst p = Panic \<or>
      (\<exists>e u. fst p = Err e \<and> rt_wait rt (el_PollInterval l) u = Some (Err e, snd p))", OF _ run])
    show "fst y = Panic \<or> (\<exists>e u. fst y = Err e \<and> rt_wait rt (el_PollInterval l) u = Some (Err e, snd y))"
      if IH: "\<And>E rt l onError w y. f E rt l onError w = Some y \<Longrightarrow> fst y = Panic \<or>
            (\<exists>e u. fst y = Err e \<and> rt_wait rt (el_PollInterval l) u = Some (Err e, snd y))"
        and body: "io_bind (rt_wait rt (el_PollInterval l)) (\<lambda>_.
            io_bind (tickReporting E l onError) (\<lambda>_. f E rt l onError)) w = Some y"
      for f E and rt :: "'a runtime" and l onError w y
    proof (cases y)
      case (Pair q v)
      show ?thesis
        using body IH [of E rt l onError] unfolding Pair io_bind_Some_iff
        by (fastforce dest: tickReporting_no_error)
    qed
  qed
  then show ?thesis by simp
qed

text \<open>Whatever its ticks return, \<open>Run\<close> ends only with a panic or the error of its context.\<close>

lemma Run_ends:
  assumes "el_RPC l \<noteq> None" and "el_Store l \<noteq> None" and "el_Watermark l \<noteq> None"
    and "Run E rt (Some l) onError w = Some (r, w')"
  shows "r = Panic \<or>
    (\<exists>e u. r = Err e \<and> rt_wait rt (el_PollInterval (el_defaults l)) u = Some (Err e, w'))"
proof -
  from assms have "io_bind (tickReporting E (el_defaults l) onError)
      (\<lambda>_. runLoop E rt (el_defaults l) onError) w = Some (r, w')"
    unfolding Run_def option.case Let_def by (auto split: if_splits)
  then show ?thesis
    by (auto simp: io_bind_Some_iff dest: tickReporting_no_error runLoop_ends)
qed

section \<open>Properties\<close>

text \<open>
  C20: the decoders on the logs that the contracts emit. \<open>DecodePermit\<close> and \<open>DecodeTransfer\<close> read
  back the indexed addresses and, from the data words, the numbers, which for values in the
  contracts' ranges are exactly the emitted ones (amounts as decimal text). \<open>DecodeLockdown\<close> reads
  the three addresses of a log that has them as topics, and refuses the log that Permit2 emits. No
  decoder takes a log of another kind for its own.
\<close>

theorem decoders_on_emitted_logs:
  assumes "bytes_address_law E" and "topicPermit E \<noteq> topicLockdown E"
    and "amount < 2 ^ 160" and "expiration < 2 ^ 48" and "nonce < 2 ^ 48" and "atoms < 2 ^ 256"
    and "p = permitLog E em block tx owner token spndr amount expiration nonce"
    and "k = lockdownLog E em block tx owner token spndr"
    and "g = indexedLockdownLog E em block tx owner token spndr"
    and "t = transferLog E token block tx owner payee atoms"
  shows "(\<exists>ev. DecodePermit E p = Ok ev \<and>
      pe_Owner ev = addressHex E owner \<and> pe_Token ev = addressHex E token \<and>
      pe_Spender ev = addressHex E spndr \<and> setString 10 (pe_AmountAtoms ev) = Some (int amount) \<and>
      sint (pe_Expiration ev) = int expiration \<and> sint (pe_Nonce ev) = int nonce) \<and>
    (\<exists>ev. DecodeTransfer E t = Ok ev \<and> te_Token ev = addressHex E token \<and>
      te_From ev = addressHex E owner \<and> te_To ev = addressHex E payee \<and>
      setString 10 (te_ValueAtoms ev) = Some (int atoms) \<and> te_TxHash ev = hashHex E tx) \<and>
    DecodeLockdown E g = Ok \<lparr>le_Owner = addressHex E owner, le_Token = addressHex E token,
      le_Spender = addressHex E spndr\<rparr> \<and>
    DecodeLockdown E k = Err (Errorf ''not a Lockdown log'' []) \<and>
    (\<forall>x\<in>{k, g, t}. \<not> isOk (DecodePermit E x)) \<and> (\<forall>x\<in>{p, t}. \<not> isOk (DecodeLockdown E x)) \<and>
    (\<forall>x\<in>{p, k, g}. \<not> isOk (DecodeTransfer E x))"
proof -
  have "(2 :: nat) ^ 160 < 2 ^ 256" "(2 :: nat) ^ 48 < 2 ^ 63" by simp_all
  with assms have b: "amount < 2 ^ 256" "expiration < 2 ^ 63" "nonce < 2 ^ 63" by linarith+
  then have i: "int expiration < 2 ^ 63" "int nonce < 2 ^ 63" by simp_all
  have "(\<forall>x\<in>{k, g, t}. \<not> isOk (DecodePermit E x)) \<and> (\<forall>x\<in>{p, t}. \<not> isOk (DecodeLockdown E x)) \<and>
    (\<forall>x\<in>{p, k, g}. \<not> isOk (DecodeTransfer E x))"
    using assms(2,7-10)
    by (auto simp: DecodePermit_def DecodeLockdown_def DecodeTransfer_def permitLog_def lockdownLog_def
        indexedLockdownLog_def transferLog_def)
  with DecodePermit_permitLog [OF assms(1) b] DecodeLockdown_indexedLockdownLog [OF assms(1)]
    DecodeLockdown_lockdownLog DecodeTransfer_transferLog [OF assms(1,6)] i assms(7-10)
  show ?thesis by (simp add: sint_bigInt64)
qed

lemma demo_topics_differ: "topicPermit demo_lib \<noteq> topicLockdown demo_lib"
proof -
  have t: "bytesToHash demo_lib (keccak256Sig demo_lib s) = word_of_nat (beNat (stringBytes s) mod 256 ^ 32)" for s
    by (simp add: keccak256Sig_def demo_simps beNat_beBytes)
  show ?thesis
    unfolding topicPermit_def topicLockdown_def t
    by (simp add: stringBytes_def code_def beNat_def)
qed

theorem decoders_on_emitted_logs_witness:
  "\<exists>ev ev'. DecodePermit demo_lib (permitLog demo_lib 3 7 9 1 2 4 1000 1900000000 5) = Ok ev \<and>
     setString 10 (pe_AmountAtoms ev) = Some 1000 \<and> sint (pe_Expiration ev) = 1900000000 \<and>
     DecodeTransfer demo_lib (transferLog demo_lib 2 7 9 1 8 40) = Ok ev' \<and>
     setString 10 (te_ValueAtoms ev') = Some 40"
  using decoders_on_emitted_logs [OF demo_bytes_address_law demo_topics_differ, of 1000 1900000000 5 40,
      OF _ _ _ _ refl refl refl refl, where em = 3 and block = 7 and tx = 9 and owner = 1 and token = 2 and
      spndr = 4 and payee = 8]
  by auto

text \<open>
  A tick moves the watermark over exactly one window. With the watermark (or, when it is zero,
  its seed) below the head, a tick that succeeds has queried the Permit2 events from the block
  after the watermark and leaves the watermark at the end of that query, which is the head or
  \<open>MaxBlocksPerTick\<close> blocks further, whichever is less, so that it strictly advances and never
  passes the head; a watermark at or past the head is left alone. A tick that fails leaves the
  watermark (or its seed) where it was, so that the window is queried again.
\<close>

lemma tick_moves_watermark_over_one_window:
  assumes "loop_ports N l0" and "e_BlockNumber N (w_hist w) = Some (Ok head)"
    and "Tick E l0 w = Some (r, w')"
    and "unat (tickMark l0 head (w_mark w)) + unat (el_MaxBlocksPerTick (el_defaults l0)) < 2 ^ 64"
  shows "let wm = tickMark l0 head (w_mark w) in
    (isOk r \<longrightarrow> head \<le> wm \<longrightarrow> w_mark w' = wm) \<and>
    (isOk r \<longrightarrow> wm < head \<longrightarrow>
       unat (w_mark w') = min (unat head) (unat wm + unat (el_MaxBlocksPerTick (el_defaults l0))) \<and>
       wm < w_mark w' \<and> w_mark w' \<le> head \<and>
       EvFilterLogs (permit2Query E (el_defaults l0) (wm + 1) (w_mark w')) \<in> set (news w w')) \<and>
    (\<not> isOk r \<longrightarrow> w_mark w' = w_mark w \<or> w_mark w' = wm)"
proof -
  let ?wm = "tickMark l0 head (w_mark w)" and ?m = "el_MaxBlocksPerTick (el_defaults l0)"
  have m: "?m \<noteq> 0" by (simp add: el_defaults_def Let_def)
  from Tick_effect [OF assms(1,2) assms(3)]
  have t: "isOk r \<longrightarrow> (if head \<le> ?wm then w_mark w' = ?wm
          else w_mark w' = windowEnd (?wm + 1) head ?m \<and>
            EvFilterLogs (permit2Query E (el_defaults l0) (?wm + 1) (windowEnd (?wm + 1) head ?m)) \<in> set (news w w'))"
    and f: "\<not> isOk r \<longrightarrow> w_mark w' = w_mark w \<or> w_mark w' = ?wm"
    by (simp_all add: Let_def)
  have "unat (w_mark w') = min (unat head) (unat ?wm + unat ?m) \<and> ?wm < w_mark w' \<and> w_mark w' \<le> head"
    if "isOk r" "?wm < head"
  proof -
    from t that have e: "w_mark w' = windowEnd (?wm + 1) head ?m" by (simp add: not_le)
    have u: "unat (w_mark w') = min (unat head) (unat ?wm + unat ?m)"
      unfolding e by (rule windowEnd_unat [OF refl that(2) assms(4) m])
    have "0 < unat ?m" using m by (simp add: unat_gt_0)
    with u that(2) show ?thesis unfolding word_less_nat_alt word_le_nat_alt by auto
  qed
  with t f show ?thesis unfolding Let_def by (auto simp: not_le)
qed

definition demo_loop :: "world event_loop" where
  "demo_loop =
    \<lparr>el_RPC = Some (env_rpc demo_env), el_Store = Some memory_store, el_Watermark = Some (env_watermark demo_env),
     el_Permit2Address = [], el_AgentFilter = None, el_USDCAddress = [], el_TreasuryAddressFn = None,
     el_Crediter = None, el_PollInterval = 0, el_MaxBlocksPerTick = 20, el_InitialBackfillBlocks = 0\<rparr>"

lemma demo_loop_ports: "loop_ports demo_env (demo_loop\<lparr>el_MaxBlocksPerTick := m\<rparr>)"
  by (simp add: loop_ports_def demo_loop_def)

lemma demo_tick:
  assumes "w_mark w = 50"
  shows "\<exists>w'. Tick demo_lib (demo_loop\<lparr>el_MaxBlocksPerTick := m\<rparr>) w = Some (Ok (), w')"
  using assms
  by (simp add: Tick_def tickWindow_def tickTransfers_def el_defaults_def demo_loop_def Let_def env_watermark_def
      io_bind_def io_try_def io_wrap_def ret_def fail_def demo_env_simps)

lemma tick_moves_watermark_over_one_window_demo:
  "\<exists>w'. Tick demo_lib demo_loop \<lparr>w_rows = [], w_mark = 50, w_hist = []\<rparr> = Some (Ok (), w') \<and> unat (w_mark w') = 70"
proof -
  let ?w = "\<lparr>w_rows = [], w_mark = 50, w_hist = []\<rparr> :: world"
  have l: "demo_loop\<lparr>el_MaxBlocksPerTick := 20\<rparr> = demo_loop" by (simp add: demo_loop_def)
  obtain w' where run: "Tick demo_lib demo_loop ?w = Some (Ok (), w')"
    using demo_tick [of ?w 20] l by auto
  have h: "e_BlockNumber demo_env (w_hist ?w) = Some (Ok 100)" by (simp add: demo_env_def)
  have m: "tickMark demo_loop 100 (w_mark ?w) = 50" "el_MaxBlocksPerTick (el_defaults demo_loop) = 20"
    by (simp_all add: tickMark_def demo_loop_def el_defaults_def Let_def)
  have "loop_ports demo_env demo_loop" using demo_loop_ports [of 20] l by simp
  from tick_moves_watermark_over_one_window [OF this h run] run show ?thesis
    unfolding m by (simp add: Let_def word_less_nat_alt)
qed

text \<open>
  The window is computed in wrapping 64-bit arithmetic. When \<open>MaxBlocksPerTick\<close> is so large
  that its sum with the watermark exceeds \<open>2^64\<close>, a successful tick below the head sets the
  watermark back, to a block before the one it started from, and queries an empty (reversed) range.
\<close>

lemma tick_overflow_rewinds_watermark:
  assumes "loop_ports N l0" and "e_BlockNumber N (w_hist w) = Some (Ok head)"
    and "Tick E l0 w = Some (Ok u, w')" and "tickMark l0 head (w_mark w) < head"
    and "2 ^ 64 \<le> unat (tickMark l0 head (w_mark w)) + unat (el_MaxBlocksPerTick (el_defaults l0))"
  shows "w_mark w' < tickMark l0 head (w_mark w) \<and>
    EvFilterLogs (permit2Query E (el_defaults l0) (tickMark l0 head (w_mark w) + 1) (w_mark w')) \<in> set (news w w')"
proof -
  let ?wm = "tickMark l0 head (w_mark w)" and ?m = "el_MaxBlocksPerTick (el_defaults l0)"
  from Tick_effect [OF assms(1,2) assms(3)] assms(4)
  have e: "w_mark w' = windowEnd (?wm + 1) head ?m"
    and ev: "EvFilterLogs (permit2Query E (el_defaults l0) (?wm + 1) (windowEnd (?wm + 1) head ?m)) \<in> set (news w w')"
    by (simp_all add: Let_def not_le [symmetric])
  have "unat (?wm + ?m) = (unat ?wm + unat ?m) mod 2 ^ 64" by (simp add: unat_word_ariths)
  also have "\<dots> = unat ?wm + unat ?m - 2 ^ 64"
  proof -
    have "unat ?wm < 2 ^ 64" "unat ?m < 2 ^ 64"
      using unsigned_less [of ?wm, where ?'a = nat] unsigned_less [of ?m, where ?'a = nat] by simp_all
    then have "unat ?wm + unat ?m - 2 ^ 64 < 2 ^ 64" by linarith
    moreover have "(unat ?wm + unat ?m) mod 2 ^ 64 = (unat ?wm + unat ?m - 2 ^ 64) mod 2 ^ 64"
      using assms(5) by (rule le_mod_geq)
    ultimately show ?thesis by (metis mod_less)
  qed
  finally have u: "unat (?wm + ?m) = unat ?wm + unat ?m - 2 ^ 64" .
  have "unat ?m < 2 ^ 64" using unsigned_less [of ?m, where ?'a = nat] by simp
  then have less: "?wm + ?m < ?wm" unfolding word_less_nat_alt u using assms(5) by linarith
  then have "?wm + 1 + ?m - 1 < head" using assms(4) by (simp add: less_trans)
  then have "windowEnd (?wm + 1) head ?m = ?wm + ?m" by (simp add: windowEnd_def)
  with e ev less show ?thesis by simp
qed

text \<open>
  C40: the reconciliation of token transfers has no effect. \<open>applyTransfer\<close> asks for an authorization
  whose expiration lies beyond the largest 64-bit time, which no row has, so for every log and every
  store it returns without crediting and without booking anything: the world is left unchanged.
\<close>

theorem transfer_reconciliation_is_dead:
  assumes "loop_ports N l" and "applyTransfer E l lg w = Some (r, w')"
  shows "w' = w \<and> (isOk r \<longleftrightarrow> isOk (DecodeTransfer E lg))"
proof -
  have st: "el_Store l = Some memory_store" using assms by (simp add: loop_ports_def)
  have "st_ActiveForOwner memory_store ow tk maxInt64 u = Some (Err ErrNoAuthorization, u)" for ow tk u
    by (simp add: memory_store_def no_row_beyond_max lift_def)
  then show ?thesis
    using assms(2)
    by (cases "DecodeTransfer E lg")
      (auto simp: applyTransfer_def st io_bind_lift io_try_def ret_def fail_def lift_def)
qed

text \<open>A confirmed transfer of 40 atoms of the token by the owner of the demo row.\<close>

definition demo_transfer_log :: eth_log where
  "demo_transfer_log = transferLog demo_lib 6 9 77 4 8 40"

theorem transfer_reconciliation_is_dead_witness:
  "\<exists>r w'. applyTransfer demo_lib demo_loop demo_transfer_log \<lparr>w_rows = demo_store, w_mark = 0, w_hist = []\<rparr> =
       Some (r, w') \<and> isOk r \<and> w_rows w' = demo_store"
proof -
  let ?w = "\<lparr>w_rows = demo_store, w_mark = 0, w_hist = []\<rparr> :: world"
  have "loop_ports demo_env demo_loop"
    using demo_loop_ports [of 20] by (simp add: demo_loop_def)
  moreover have "isOk (DecodeTransfer demo_lib demo_transfer_log)"
    by (simp add: DecodeTransfer_def demo_transfer_log_def transferLog_def)
  moreover have "\<exists>r w'. applyTransfer demo_lib demo_loop demo_transfer_log ?w = Some (r, w')"
    by (simp add: applyTransfer_def DecodeTransfer_def demo_transfer_log_def transferLog_def demo_loop_def memory_store_def
        no_row_beyond_max io_bind_def io_try_def lift_def ret_def)
  ultimately show ?thesis using transfer_reconciliation_is_dead by fastforce
qed

text \<open>
  Observing the owner's own \<open>Permit\<close> event takes the agent's authorization away. When the loop
  applies a \<open>Permit\<close> log for an identity that is cached, the row keeps its accumulated spend but
  loses its signature, and from then on \<open>ActiveForAgent\<close> never picks it, at any time and for any
  agent text, until it is submitted again.
\<close>

lemma permit_event_erases_signature:
  assumes "loop_ports N l" and "store_wf (w_rows w)"
    and "lg_Topics lg \<noteq> []" and "lg_Topics lg ! 0 = topicPermit E" and "DecodePermit E lg = Ok ev"
    and "\<not> ignored l (pe_Spender ev)"
    and "i = mkId (pe_Owner ev) (pe_Spender ev) (pe_Token ev) (pe_Nonce ev)"
    and "lookupRow (w_rows w) i = Some old"
    and "applyPermit2 E l lg w = Some (r, w')"
  shows "\<exists>row. lookupRow (w_rows w') i = Some row \<and> spent row = spent old \<and> au_SignatureHex row = [] \<and>
    (\<forall>g now q. ms_ActiveForAgent g now (w_rows w') = Ok q \<longrightarrow> rowId q \<noteq> i)"
proof -
  have st: "el_Store l = Some memory_store" using assms(1) by (simp add: loop_ports_def)
  let ?a = "eventRow ev (lg_BlockNumber lg)"
  have id: "rowId ?a = i" by (simp add: rowId_def eventRow_def assms(7))
  obtain e rows where up: "ms_Upsert ?a (w_rows w) = (e, rows)" by (cases "ms_Upsert ?a (w_rows w)")
  have rows: "w_rows w' = rows"
    using assms(3-6,9) up
    by (auto simp: applyPermit2_def st io_bind_def io_try_def lift_def ret_def memory_store_def split: res.splits)
  from ms.upsert_law [OF assms(2) eventRow_readable up]
  have wf: "store_wf rows" and l: "lookupRow rows i = Some (refreshed old ?a)"
    using assms(8) by (simp_all add: id upserted_def)
  have sig: "au_SignatureHex (refreshed old ?a) = []" by (simp add: refreshed_def eventRow_def)
  from ms.upsert_keeps_spent [OF assms(2) eventRow_readable up, of old] assms(8) l
  have sp: "spent (refreshed old ?a) = spent old" by (simp add: id)
  have "rowId q \<noteq> i" if "ms_ActiveForAgent g now rows = Ok q" for g now q
  proof
    assume "rowId q = i"
    with ms.active_sound [OF wf that] l have "hasSignature (refreshed old ?a)" by simp
    then show False by (simp add: hasSignature_def sig)
  qed
  then show ?thesis using l sig sp unfolding rows by auto
qed

text \<open>A cached authorization, and the log of the owner's \<open>permit\<close> transaction for it.\<close>

definition demo_event :: permit_event where
  "demo_event =
    \<lparr>pe_Owner = demo_address_text 1, pe_Token = demo_address_text 2, pe_Spender = demo_address_text 4,
     pe_AmountAtoms = showInt 1000, pe_Expiration = bigInt64 2000, pe_Nonce = bigInt64 5\<rparr>"

definition demo_cached :: authorization where
  "demo_cached = (eventRow demo_event 7)\<lparr>au_SignatureHex := ''0x1'', au_SpentAtoms := showInt 30\<rparr>"

lemma demo_cached_wf: "store_wf [demo_cached]"
  using showInt_nonempty by (simp add: store_wf_def demo_cached_def eventRow_def readable_def orZero_def)

lemma permit_event_erases_signature_demo:
  "\<exists>w'. applyPermit2 demo_lib demo_loop (permitLog demo_lib 3 9 7 1 2 4 1000 2000 5)
       \<lparr>w_rows = [demo_cached], w_mark = 0, w_hist = []\<rparr> = Some (Ok (), w') \<and>
     (\<exists>row. lookupRow (w_rows w') (rowId demo_cached) = Some row \<and> spent row = 30 \<and> au_SignatureHex row = [])"
proof -
  let ?w = "\<lparr>w_rows = [demo_cached], w_mark = 0, w_hist = []\<rparr> :: world"
  let ?lg = "permitLog demo_lib 3 9 7 1 2 4 1000 2000 5"
  have dec: "DecodePermit demo_lib ?lg = Ok demo_event"
    using DecodePermit_permitLog [OF demo_bytes_address_law, of 1000 2000 5 3 9 7 1 2 4]
    by (simp add: demo_event_def demo_simps)
  have top: "lg_Topics ?lg \<noteq> []" "lg_Topics ?lg ! 0 = topicPermit demo_lib" by (simp_all add: permitLog_def)
  have ports: "loop_ports demo_env demo_loop"
    using demo_loop_ports [of 20] by (simp add: demo_loop_def)
  have ign: "\<not> ignored demo_loop (pe_Spender demo_event)" by (simp add: ignored_def demo_loop_def)
  have id: "mkId (pe_Owner demo_event) (pe_Spender demo_event) (pe_Token demo_event) (pe_Nonce demo_event) =
      rowId demo_cached" by (simp add: rowId_def demo_cached_def eventRow_def)
  have look: "lookupRow (w_rows ?w) (rowId demo_cached) = Some demo_cached" by (simp add: rowId_def)
  have sp: "spent demo_cached = 30" using showInt_nonempty by (simp add: spent_def demo_cached_def orZero_def)
  have wf: "store_wf (w_rows ?w)" using demo_cached_wf by simp
  have st: "the (el_Store demo_loop) = memory_store" by (simp add: demo_loop_def)
  have up: "st_Upsert memory_store a u =
      Some (Ok (fst (ms_Upsert a (w_rows u))), u\<lparr>w_rows := snd (ms_Upsert a (w_rows u))\<rparr>)" for a u
    by (simp add: memory_store_eval)
  obtain w' where run: "applyPermit2 demo_lib demo_loop ?lg ?w = Some (Ok (), w')"
    using dec top ign by (simp add: applyPermit2_def st up io_bind_def io_try_def lift_def ret_def)
  from permit_event_erases_signature [OF ports wf top dec ign id [symmetric] look run] run sp
  show ?thesis by auto
qed

text \<open>
  A lockdown that the decoder can read stops every spend of the locked triple: afterwards
  \<open>ActiveForAgent\<close> answers no row whose owner, agent and token are the ones of the event, and the
  rows of other triples are unchanged.
\<close>

lemma readable_lockdown_stops_spending:
  assumes "loop_ports N l" and "store_wf (w_rows w)" and "topicPermit E \<noteq> topicLockdown E"
    and "DecodeLockdown E lg = Ok ev" and "\<not> ignored l (le_Spender ev)"
    and "applyPermit2 E l lg w = Some (r, w')"
  shows "isOk r \<and> store_wf (w_rows w') \<and>
    (\<forall>g now q. ms_ActiveForAgent g now (w_rows w') = Ok q \<longrightarrow>
       \<not> (equalFold (au_Owner q) (le_Owner ev) \<and> equalFold (au_Agent q) (le_Spender ev) \<and>
          equalFold (au_Token q) (le_Token ev))) \<and>
    (\<forall>i q. lookupRow (w_rows w) i = Some q \<longrightarrow>
       \<not> (equalFold (au_Owner q) (le_Owner ev) \<and> equalFold (au_Agent q) (le_Spender ev) \<and>
          equalFold (au_Token q) (le_Token ev)) \<longrightarrow>
       lookupRow (w_rows w') i = Some q)"
proof -
  have st: "el_Store l = Some memory_store" using assms(1) by (simp add: loop_ports_def)
  have t: "lg_Topics lg ! 0 = topicLockdown E" "lg_Topics lg \<noteq> []"
    using assms(4) by (auto simp: DecodeLockdown_def split: if_splits)
  have "r = Ok () \<and> w_rows w' = ms_MarkLocked (le_Owner ev) (le_Spender ev) (le_Token ev) (w_rows w)"
    using assms(3-6) t
    by (auto simp: applyPermit2_def st io_bind_def io_try_def lift_def memory_store_def)
  then show ?thesis
    using ms.lock_law [OF assms(2)] ms.locked_never_active [OF assms(2)] by (auto simp: lockedBy_def)
qed

text \<open>The one that Permit2 emits is an error and changes nothing.\<close>

lemma applyPermit2_emitted_lockdown:
  assumes "topicPermit E \<noteq> topicLockdown E"
  shows "applyPermit2 E l (lockdownLog E em block tx owner token spndr) w =
    Some (Err (Errorf ''not a Lockdown log'' []), w)"
proof -
  have "lg_Topics (lockdownLog E em block tx owner token spndr) = [topicLockdown E, addressTopic owner]"
    by (simp add: lockdownLog_def)
  with assms show ?thesis by (simp add: applyPermit2_def io_bind_lift DecodeLockdown_lockdownLog)
qed

end
