(* ===== verification/Follow.thy ===== *)
theory Follow
  imports Listener
begin

text \<open>
  What the loop of \<open>src/listener.go\<close> does over many ticks: which blocks it reads, and that it reaches
  the head of the chain. \<open>covers\<close> is the relation every operation of the loop keeps (the watermark
  never moves over a block that was not queried), \<open>ticks\<close> the caller's manual stepping.
\<close>

section \<open>Reading a block\<close>

text \<open>An event that is a query of the Permit2 events of a range with the block \<open>b\<close>.\<close>

definition readsBlock :: "eth_lib \<Rightarrow> world event_loop \<Rightarrow> nat \<Rightarrow> event \<Rightarrow> bool" where
  "readsBlock E l b ev =
     (case ev of
        EvFilterLogs q \<Rightarrow>
          fq_Addresses q = [hexToAddress E (el_Permit2Address (el_defaults l))] \<and>
          fq_Topics q = [[topicPermit E, topicLockdown E]] \<and>
          fq_FromBlock q \<le> int b \<and> int b \<le> fq_ToBlock q
      | _ \<Rightarrow> False)"

definition reads :: "eth_lib \<Rightarrow> world event_loop \<Rightarrow> nat \<Rightarrow> world \<Rightarrow> world \<Rightarrow> nat" where
  "reads E l b w w' = length (filter (readsBlock E l b) (news w w'))"

definition within :: "nat \<Rightarrow> u64 \<Rightarrow> u64 \<Rightarrow> bool" where
  "within b lo hi \<longleftrightarrow> unat lo < b \<and> b \<le> unat hi"

text \<open>The watermark does not go back, and every block it moved over was queried.\<close>

definition covers :: "eth_lib \<Rightarrow> world event_loop \<Rightarrow> world \<Rightarrow> world \<Rightarrow> bool" where
  "covers E l w w' \<longleftrightarrow> extends w w' \<and>
     (w_mark w \<noteq> 0 \<longrightarrow> w_mark w \<le> w_mark w' \<and>
        (\<forall>b. within b (w_mark w) (w_mark w') \<longrightarrow> 0 < reads E l b w w'))"

text \<open>Nothing of the Permit2 contract is read and the watermark stays.\<close>

definition unread :: "eth_lib \<Rightarrow> world event_loop \<Rightarrow> world \<Rightarrow> world \<Rightarrow> bool" where
  "unread E l w w' \<longleftrightarrow> steady w w' \<and> (\<forall>b. reads E l b w w' = 0)"

lemma steady_extends: "steady w w' \<Longrightarrow> extends w w'"
  by (simp add: steady_def)

lemma reads_chain: "extends u v \<Longrightarrow> extends v w \<Longrightarrow> reads E l b u w = reads E l b u v + reads E l b v w"
  by (simp add: reads_def news_chain)

lemma reads_refl [simp]: "reads E l b w w = 0"
  by (simp add: reads_def news_def)

lemma preorder_covers [simp, moves_intros]: "preorder_rel (covers E l)"
  unfolding preorder_rel_def
proof (intro conjI allI impI)
  show "covers E l w w" for w by (auto simp: covers_def within_def extends_def)
  fix u v w
  assume uv: "covers E l u v" and vw: "covers E l v w"
  have e: "extends u v" "extends v w" using uv vw by (simp_all add: covers_def)
  show "covers E l u w"
    unfolding covers_def
  proof (intro conjI impI allI)
    show "extends u w" using e by (rule extends_trans)
    assume "w_mark u \<noteq> 0"
    with uv have m: "w_mark u \<le> w_mark v"
      and r: "\<And>b. within b (w_mark u) (w_mark v) \<Longrightarrow> 0 < reads E l b u v" by (simp_all add: covers_def)
    from m \<open>w_mark u \<noteq> 0\<close> have "w_mark v \<noteq> 0" by auto
    with vw have m': "w_mark v \<le> w_mark w"
      and r': "\<And>b. within b (w_mark v) (w_mark w) \<Longrightarrow> 0 < reads E l b v w" by (simp_all add: covers_def)
    show "w_mark u \<le> w_mark w" using m m' by simp
    fix b
    assume "within b (w_mark u) (w_mark w)"
    then have "within b (w_mark u) (w_mark v) \<or> within b (w_mark v) (w_mark w)"
      by (auto simp: within_def)
    then show "0 < reads E l b u w"
      unfolding reads_chain [OF e] using r [of b] r' [of b] by linarith
  qed
qed

lemma preorder_unread [simp, moves_intros]: "preorder_rel (unread E l)"
  unfolding preorder_rel_def
proof (intro conjI allI impI)
  show "unread E l w w" for w by (simp add: unread_def)
  fix u v w
  assume "unread E l u v" and "unread E l v w"
  then have s: "steady u v" "steady v w" and r: "\<And>b. reads E l b u v = 0" "\<And>b. reads E l b v w = 0"
    by (simp_all add: unread_def)
  have "reads E l b u w = 0" for b
    unfolding reads_chain [OF s [THEN steady_extends]] r by simp
  then show "unread E l u w"
    using preorder_trans [OF preorder_steady s] by (simp add: unread_def)
qed

lemma steady_covers: "steady w w' \<Longrightarrow> covers E l w w'"
  by (simp add: steady_def covers_def within_def)

lemma moves_steady_covers: "moves steady m \<Longrightarrow> moves (covers E l) m"
  by (auto simp: moves_def intro: steady_covers)

section \<open>No block is skipped\<close>

text \<open>The block numbers of the node leave room for a window.\<close>

definition bounded_heads :: "env \<Rightarrow> world event_loop \<Rightarrow> bool" where
  "bounded_heads N l \<longleftrightarrow>
     (\<forall>h head. e_BlockNumber N h = Some (Ok head) \<longrightarrow>
        unat head + unat (el_MaxBlocksPerTick (el_defaults l)) < 2 ^ 64)"

lemma Tick_without_head:
  assumes "loop_ports N l" and "Tick E l w = Some (r, w')" and "\<nexists>head. e_BlockNumber N (w_hist w) = Some (Ok head)"
  shows "steady w w'"
proof -
  have "el_RPC (el_defaults l) = Some (env_rpc N)" using assms(1) by (simp add: loop_ports_def)
  with assms(2,3) show ?thesis
    by (auto simp: Tick_def Let_def io_bind_Some_iff io_wrap_def io_try_Some_iff env_rpc_simps ask_Some_iff
        steady_def extends_def)
qed

lemma permit2Query_reads:
  assumes "within b wm hi" and "unat wm < 2 ^ 64 - 1"
  shows "readsBlock E l b (EvFilterLogs (permit2Query E (el_defaults l) (wm + 1) hi))"
proof -
  have "unat (wm + 1) = unat wm + 1"
    using assms(2) by (simp add: unat_word_ariths)
  then have "uint (wm + 1) \<le> int b" "int b \<le> uint hi"
    using assms(1) by (simp_all add: within_def uint_nat del: of_nat_unat)
  then show ?thesis by (simp add: readsBlock_def permit2Query_def)
qed

lemma query_reads:
  assumes "wm < head" and "within b wm hi"
    and "EvFilterLogs (permit2Query E (el_defaults l) (wm + 1) hi) \<in> set (news w w')"
  shows "0 < reads E l b w w'"
proof -
  have "unat wm < 2 ^ 64 - 1"
    using assms(1) unsigned_less [of head, where ?'a = nat] by (simp add: word_less_nat_alt)
  from permit2Query_reads [OF assms(2) this, of E l] assms(3) show ?thesis
    by (auto simp: reads_def filter_empty_conv)
qed

text \<open>With bounded heads, the end of a window is computed without a wrap-around.\<close>

lemma windowEnd_bounded:
  assumes "bounded_heads N l" and "e_BlockNumber N h = Some (Ok head)" and "wm < head"
  shows "unat (windowEnd (wm + 1) head (el_MaxBlocksPerTick (el_defaults l))) =
    min (unat head) (unat wm + unat (el_MaxBlocksPerTick (el_defaults l)))"
proof (rule windowEnd_unat [OF refl assms(3)])
  have "unat wm < unat head" using assms(3) by (simp add: word_less_nat_alt)
  moreover have "unat head + unat (el_MaxBlocksPerTick (el_defaults l)) < 2 ^ 64"
    using assms(1,2) by (auto simp: bounded_heads_def)
  ultimately show "unat wm + unat (el_MaxBlocksPerTick (el_defaults l)) < 2 ^ 64" by linarith
  show "el_MaxBlocksPerTick (el_defaults l) \<noteq> 0" by (simp add: el_defaults_def Let_def)
qed

lemma Tick_covers:
  assumes ports: "loop_ports N l" and heads: "bounded_heads N l"
  shows "moves (covers E l) (Tick E l)"
proof (rule movesI)
  fix w r w'
  assume run: "Tick E l w = Some (r, w')"
  show "covers E l w w'"
  proof (cases "\<exists>head. e_BlockNumber N (w_hist w) = Some (Ok head)")
    case False
    with Tick_without_head [OF ports run] show ?thesis by (simp add: steady_covers)
  next
    case True
    then obtain head where h: "e_BlockNumber N (w_hist w) = Some (Ok head)" ..
    note effect = Tick_effect [OF ports h run]
    let ?stop = "windowEnd (w_mark w + 1) head (el_MaxBlocksPerTick (el_defaults l))"
    have "w_mark w \<le> w_mark w' \<and> (\<forall>b. within b (w_mark w) (w_mark w') \<longrightarrow> 0 < reads E l b w w')"
      if nz: "w_mark w \<noteq> 0"
    proof -
      have "w_mark w' = w_mark w \<or> (w_mark w < head \<and> w_mark w' = ?stop \<and>
          EvFilterLogs (permit2Query E (el_defaults l) (w_mark w + 1) ?stop) \<in> set (news w w'))"
        using effect nz by (cases "isOk r") (auto simp: Let_def tickMark_def not_le split: if_splits)
      then show ?thesis
      proof
        assume "w_mark w' = w_mark w"
        then show ?thesis by (simp add: within_def)
      next
        assume a: "w_mark w < head \<and> w_mark w' = ?stop \<and>
          EvFilterLogs (permit2Query E (el_defaults l) (w_mark w + 1) ?stop) \<in> set (news w w')"
        with windowEnd_bounded [OF heads h, of "w_mark w"] have "w_mark w \<le> w_mark w'"
          by (simp add: word_le_nat_alt word_less_nat_alt)
        with a query_reads [of "w_mark w" head] show ?thesis by auto
      qed
    qed
    moreover have "extends w w'" using effect by (simp add: Let_def)
    ultimately show ?thesis by (simp add: covers_def)
  qed
qed

text \<open>The error callback and the wait of a runtime, as far as the loop relies on them.\<close>

definition steady_runtime :: "world runtime \<Rightarrow> (error \<Rightarrow> world \<Rightarrow> world) option \<Rightarrow> bool" where
  "steady_runtime rt onError \<longleftrightarrow>
     (\<forall>d. moves steady (rt_wait rt d)) \<and> (\<forall>f e u. onError = Some f \<longrightarrow> steady u (f e u))"

lemma tickReporting_covers:
  assumes "moves (covers E l) (Tick E l)" and "steady_runtime rt onError"
  shows "moves (covers E l) (tickReporting E l onError)"
  unfolding tickReporting_def
proof (intro moves_try preorder_covers assms moves_ret)
  show "moves (covers E l) (\<lambda>w. ret () (case onError of None \<Rightarrow> w | Some f \<Rightarrow> f err w))" for err
    using assms(2) by (auto simp: moves_def steady_runtime_def intro: steady_covers split: option.split)
qed

lemma runLoop_covers:
  assumes tick: "moves (covers E l) (Tick E l)" and rt: "steady_runtime rt onError"
    and run: "runLoop E rt l onError w = Some p"
  shows "covers E l w (snd p)"
proof -
  have step: "moves (covers E l) (io_bind (rt_wait rt d) (\<lambda>_. io_bind (tickReporting E l onError) (\<lambda>_. m)))"
    if "moves (covers E l) m" for d and m :: "(world, unit) io"
    using rt by (intro moves_bind preorder_covers tickReporting_covers [OF tick rt] that moves_steady_covers)
      (simp add: steady_runtime_def)
  have "E = E \<and> rt = rt \<and> l = l \<and> onError = onError \<longrightarrow> covers E l w (snd p)"
  proof (rule runLoop.raw_induct [where P = "\<lambda>E' rt' l' f' w p.
      E' = E \<and> rt' = rt \<and> l' = l \<and> f' = onError \<longrightarrow> covers E l w (snd p)", OF _ run])
    fix f :: "eth_lib \<Rightarrow> world runtime \<Rightarrow> world event_loop \<Rightarrow> (error \<Rightarrow> world \<Rightarrow> world) option \<Rightarrow>
        world \<Rightarrow> (unit res \<times> world) option" and E' rt' l' f' w p
    assume IH: "\<And>E' rt' l' f' w p. f E' rt' l' f' w = Some p \<Longrightarrow>
        E' = E \<and> rt' = rt \<and> l' = l \<and> f' = onError \<longrightarrow> covers E l w (snd p)"
      and body: "io_bind (rt_wait rt' (el_PollInterval l')) (\<lambda>_.
          io_bind (tickReporting E' l' f') (\<lambda>_. f E' rt' l' f')) w = Some p"
    have "moves (covers E l) (f E rt l onError)"
      using IH [of E rt l onError] by (auto simp: moves_def)
    from movesD [OF step [OF this]] body
    show "E' = E \<and> rt' = rt \<and> l' = l \<and> f' = onError \<longrightarrow> covers E l w (snd p)"
      by (cases p) auto
  qed
  then show ?thesis by simp
qed

lemma readsBlock_defaults [simp]: "readsBlock E (el_defaults l) = readsBlock E l"
  by (intro ext) (simp add: readsBlock_def el_defaults_idem split: event.split)

lemma covers_defaults [simp]: "covers E (el_defaults l) = covers E l"
  by (intro ext) (simp add: covers_def reads_def)

lemma Run_covers:
  assumes ports: "loop_ports N l" and heads: "bounded_heads N l" and rt: "steady_runtime rt onError"
    and run: "Run E rt (Some l) onError w = Some (r, w')"
  shows "covers E l w w'"
proof -
  let ?l = "el_defaults l"
  have "bounded_heads N ?l" using heads by (simp add: bounded_heads_def el_defaults_idem)
  then have tick: "moves (covers E ?l) (Tick E ?l)" using ports by (intro Tick_covers) simp_all
  have "moves (covers E ?l) (runLoop E rt ?l onError)"
    using runLoop_covers [OF tick rt] by (auto simp: moves_def)
  then have "moves (covers E ?l) (io_bind (tickReporting E ?l onError) (\<lambda>_. runLoop E rt ?l onError))"
    by (intro moves_bind preorder_covers tickReporting_covers [OF tick rt])
  moreover have "io_bind (tickReporting E ?l onError) (\<lambda>_. runLoop E rt ?l onError) w = Some (r, w')"
    using run ports by (simp add: Run_def Let_def loop_ports_def)
  ultimately show ?thesis using movesD by fastforce
qed

section \<open>No block is read twice\<close>

text \<open>The ports of \<open>loop_ports\<close>, and the treasury lookup of the environment.\<close>

definition plain_ports :: "env \<Rightarrow> world event_loop \<Rightarrow> bool" where
  "plain_ports N l \<longleftrightarrow> loop_ports N l \<and>
     (\<forall>fn. el_TreasuryAddressFn l = Some fn \<longrightarrow> fn = env_treasury N)"

lemma plain_ports_defaults [simp]: "plain_ports N (el_defaults l) = plain_ports N l"
  by (simp add: plain_ports_def)

lemma unread_same: "w_hist w' = w_hist w \<Longrightarrow> w_mark w' = w_mark w \<Longrightarrow> unread E l w w'"
  by (simp add: unread_def steady_def extends_def reads_def news_def)

lemma reads_one:
  "w_hist v = w_hist u @ [ev] \<Longrightarrow> reads E l b u v = (if readsBlock E l b ev then 1 else 0)"
  by (simp add: reads_def news_def)

lemma unread_ask: "(\<And>r b. \<not> readsBlock E l b (ev r)) \<Longrightarrow> moves (unread E l) (ask f ev)"
  by (auto simp: moves_def ask_Some_iff unread_def steady_def extends_def reads_one)

lemma memory_store_unread [moves_intros]:
  "moves (unread E l) (st_Upsert memory_store a)" "moves (unread E l) (st_MarkLocked memory_store ow ag tk)"
  by (auto simp: memory_store_def moves_def intro!: unread_same split: prod.splits)

lemma applyPermit2_unread:
  assumes "loop_ports N l'"
  shows "moves (unread E l) (applyPermit2 E l' lg)"
proof -
  have "el_Store l' = Some memory_store" using assms by (simp add: loop_ports_def)
  then show ?thesis unfolding applyPermit2_def by (simp only: option.sel) (intro moves_intros)
qed

lemma tickTransfers_unread:
  assumes "plain_ports N l'"
  shows "moves (unread E l) (tickTransfers E l' start stop)"
proof -
  have ports: "loop_ports N l'" using assms by (simp add: plain_ports_def)
  have rpc: "el_RPC l' = Some (env_rpc N)" using ports by (simp add: loop_ports_def)
  have tr: "moves (unread E l) fn" if "el_TreasuryAddressFn l' = Some fn" for fn
    using assms that unread_ask [of E l "\<lambda>_. EvTreasury" "e_Treasury N"]
    by (simp add: plain_ports_def env_treasury_def readsBlock_def)
  have fl: "moves (unread E l) (rpc_FilterLogs (env_rpc N) (transferQuery E l' t start stop))" for t
    unfolding env_rpc_simps by (rule unread_ask) (simp add: readsBlock_def transferQuery_def)
  have ap: "moves (unread E l) (applyTransfer E l' lg)" for lg
    by (rule movesI) (use movesD [OF applyTransfer_still [OF ports]] unread_same in \<open>fastforce simp: same_def\<close>)
  show ?thesis
    unfolding tickTransfers_def rpc option.sel by (intro moves_intros tr fl ap)
qed

lemma permit2Query_reads_iff:
  assumes "unat wm < 2 ^ 64 - 1"
  shows "readsBlock E l b (EvFilterLogs (permit2Query E (el_defaults l) (wm + 1) hi)) \<longleftrightarrow> within b wm hi"
proof -
  have "unat (wm + 1) = unat wm + 1"
    using assms by (simp add: unat_word_ariths)
  then have "uint (wm + 1) \<le> int b \<longleftrightarrow> unat wm < b" "int b \<le> uint hi \<longleftrightarrow> b \<le> unat hi"
    by (auto simp: uint_nat simp del: of_nat_unat)
  then show ?thesis by (simp add: readsBlock_def permit2Query_def within_def)
qed

text \<open>What a successful tick reads: its window, once.\<close>

lemma quiet_unread: "quiet w v \<Longrightarrow> reads E l b w v = 0"
  by (auto simp: quiet_def reads_def filter_empty_conv readsBlock_def split: event.splits)

lemma tickWindow_reads_once:
  assumes ports: "plain_ports N l'" and l': "l' = el_defaults l"
    and run: "tickWindow E l' head (w_mark v) v = Some (Ok u, w')"
  shows "extends v w' \<and>
    (if head \<le> w_mark v then w_mark w' = w_mark v \<and> (\<forall>b. reads E l b v w' = 0)
     else w_mark w' = windowEnd (w_mark v + 1) head (el_MaxBlocksPerTick l') \<and>
       (\<forall>b. reads E l b v w' = (if within b (w_mark v) (w_mark w') then 1 else 0)))"
proof -
  have lp: "loop_ports N l'" using ports by (simp add: plain_ports_def)
  from lp run show ?thesis
  proof (cases rule: tickWindow_stages)
    case none
    then show ?thesis by (simp add: extends_def)
  next
    case (unanswered stop q u)
    then show ?thesis by simp
  next
    case (applied stop q u0 logs x y t)
    have "moves (unread E l) (forEach (applyPermit2 E l') logs)"
      by (intro forEach_moves preorder_unread applyPermit2_unread [OF lp])
    from preorder_trans [OF preorder_unread movesD [OF this applied(6)]
        movesD [OF tickTransfers_unread [OF ports] applied(7)]]
    have y: "unread E l u0 y" .
    have set: "wm_Set (env_watermark N) stop y = Some (Ok u, w')" using applied(8) by simp
    then have w': "w_hist w' = w_hist y @ [EvSetMark stop]" "w_mark w' = stop"
      by (auto simp: env_watermark_def io_ok ask_Some_iff)
    have u0: "w_hist u0 = w_hist v @ [EvFilterLogs q]" using applied(4) by simp
    have e: "extends v u0" "extends u0 y" "extends y w'"
      using u0 w'(1) y by (auto simp: extends_def unread_def steady_def)
    have "unat (w_mark v) < 2 ^ 64 - 1"
      using applied(1) unsigned_less [of head, where ?'a = nat] by (simp add: word_less_nat_alt)
    note window = permit2Query_reads_iff [OF this, of E l _ stop, folded l', folded applied(3)]
    have "reads E l b v w' = reads E l b v u0 + (reads E l b u0 y + reads E l b y w')" for b
      using e by (simp add: reads_chain extends_trans [of u0 y w'])
    then have "reads E l b v w' = (if within b (w_mark v) stop then 1 else 0)" for b
      using y by (simp add: reads_one [OF u0] reads_one [OF w'(1)] window unread_def)
        (simp add: readsBlock_def)
    then show ?thesis
      using applied(1,2) w'(2) e by (auto simp: not_le [symmetric] intro: extends_trans)
  qed
qed

lemma Tick_reads_once:
  assumes ports: "plain_ports N l" and run: "Tick E l w = Some (Ok u, w')" and mark: "w_mark w \<noteq> 0"
  shows "\<exists>head. e_BlockNumber N (w_hist w) = Some (Ok head) \<and> extends w w' \<and>
    (if head \<le> w_mark w then w_mark w' = w_mark w \<and> (\<forall>b. reads E l b w w' = 0)
     else w_mark w' = windowEnd (w_mark w + 1) head (el_MaxBlocksPerTick (el_defaults l)) \<and>
       (\<forall>b. reads E l b w w' = (if within b (w_mark w) (w_mark w') then 1 else 0)))"
proof -
  have "loop_ports N l" using ports by (simp add: plain_ports_def)
  from this run show ?thesis
  proof (cases rule: Tick_stages)
    case stopped
    then show ?thesis by simp
  next
    case (window head v)
    have m: "w_mark v = w_mark w" using window(3) mark by (simp add: tickMark_def)
    have "plain_ports N (el_defaults l)" using ports by simp
    note t = tickWindow_reads_once [OF this refl window(4)]
    have e: "extends w v" "extends v w'" using window(2) t by (simp_all add: quiet_def)
    have "reads E l b w w' = reads E l b v w'" for b
      using quiet_unread [OF window(2)] by (simp add: reads_chain [OF e])
    with t m window(1) extends_trans [OF e] show ?thesis by auto
  qed
qed

section \<open>Reaching the head\<close>

text \<open>\<open>Tick\<close> called over and over, as a caller that steps the loop by hand does.\<close>

primrec ticks :: "nat \<Rightarrow> eth_lib \<Rightarrow> world event_loop \<Rightarrow> (world, unit) io" where
  "ticks 0 E l = ret ()"
| "ticks (Suc n) E l = io_bind (Tick E l) (\<lambda>_. ticks n E l)"

text \<open>A node whose head is \<open>head\<close> and on which every call of the loop succeeds.\<close>

definition attentive :: "env \<Rightarrow> u64 \<Rightarrow> bool" where
  "attentive N head \<longleftrightarrow>
     (\<forall>h. e_BlockNumber N h = Some (Ok head) \<and> e_GetMark N h = Some (Ok ()) \<and>
        (\<forall>b. e_SetMark N b h = Some (Ok ())) \<and> (\<forall>q. \<exists>logs. e_FilterLogs N q h = Some (Ok logs)) \<and>
        (\<exists>t. e_Treasury N h = Some (Ok t)))"

lemma attentive_succeeds:
  assumes "attentive N head"
  shows "succeeds (rpc_BlockNumber (env_rpc N))" "succeeds (rpc_FilterLogs (env_rpc N) q)"
    "succeeds (env_treasury N)" "succeeds (wm_Get (env_watermark N))" "succeeds (wm_Set (env_watermark N) b)"
proof -
  note a = assms [unfolded attentive_def, rule_format]
  show "succeeds (rpc_BlockNumber (env_rpc N))" "succeeds (rpc_FilterLogs (env_rpc N) q)" "succeeds (env_treasury N)"
    unfolding env_rpc_simps env_treasury_def using a by (auto intro!: succeeds_ask)
  have k: "succeeds (\<lambda>w. ret (f w) (g w))" for f :: "world \<Rightarrow> 'b" and g
    by (simp add: succeeds_def ret_def)
  show "succeeds (wm_Get (env_watermark N))" "succeeds (wm_Set (env_watermark N) b)"
    unfolding env_watermark_def watermark_store.simps
    using a by (auto intro!: succeeds_bind succeeds_ask k)
qed

lemma Tick_succeeds:
  assumes ports: "plain_ports N l" and att: "attentive N head"
  shows "succeeds (Tick E l)"
proof -
  let ?l = "el_defaults l"
  have lp: "loop_ports N ?l" using ports by (simp add: plain_ports_def)
  have rpc: "el_RPC ?l = Some (env_rpc N)" and wmk: "el_Watermark ?l = Some (env_watermark N)"
    and st: "el_Store ?l = Some memory_store"
    using lp by (simp_all add: loop_ports_def)
  have ap: "settles (applyPermit2 E ?l lg)" for lg
    using lp by (rule applyPermit2_settles)
  have none: "st_ActiveForOwner memory_store ow tk maxInt64 u = Some (Err ErrNoAuthorization, u)" for ow tk u
    by (simp add: memory_store_def no_row_beyond_max lift_def)
  have at: "settles (applyTransfer E ?l lg)" for lg
    unfolding applyTransfer_def st option.sel
    by (intro settles_bind settles_lift decoders_no_panic) (simp add: settles_def io_try_def none ret_def)
  have tr: "settles fn" if "el_TreasuryAddressFn ?l = Some fn" for fn
    using ports that succeeds_settles [OF attentive_succeeds(3) [OF att]] by (simp add: plain_ports_def)
  show ?thesis
    unfolding Tick_def tickWindow_def tickTransfers_def Let_def rpc wmk option.sel
    by (intro succeeds_intros attentive_succeeds [OF att] ap at tr succeeds_settles [OF attentive_succeeds(2) [OF att]])
qed

text \<open>Any successful ticks read every block the watermark moved over exactly once, and no other.\<close>

definition once :: "eth_lib \<Rightarrow> world event_loop \<Rightarrow> world \<Rightarrow> world \<Rightarrow> bool" where
  "once E l w w' \<longleftrightarrow> extends w w' \<and> w_mark w \<le> w_mark w' \<and>
     (\<forall>b. reads E l b w w' = (if within b (w_mark w) (w_mark w') then 1 else 0))"

lemma once_trans:
  assumes "once E l u v" and "once E l v w"
  shows "once E l u w"
proof -
  have e: "extends u v" "extends v w" and m: "w_mark u \<le> w_mark v" "w_mark v \<le> w_mark w"
    using assms by (simp_all add: once_def)
  have "unat (w_mark u) \<le> unat (w_mark v)" "unat (w_mark v) \<le> unat (w_mark w)"
    using m by (simp_all add: word_le_nat_alt)
  then have "reads E l b u w = (if within b (w_mark u) (w_mark w) then 1 else 0)" for b
    using assms by (simp add: once_def reads_chain [OF e]) (auto simp: within_def)
  with e m show ?thesis by (auto simp: once_def intro: extends_trans)
qed

lemma Tick_once:
  assumes ports: "plain_ports N l" and heads: "bounded_heads N l"
    and run: "Tick E l w = Some (Ok u, w')" and mark: "w_mark w \<noteq> 0"
  shows "once E l w w' \<and> (\<exists>head. e_BlockNumber N (w_hist w) = Some (Ok head) \<and>
    (w_mark w \<le> head \<longrightarrow> unat (w_mark w') =
       min (unat head) (unat (w_mark w) + unat (el_MaxBlocksPerTick (el_defaults l)))))"
proof -
  let ?m = "el_MaxBlocksPerTick (el_defaults l)"
  from Tick_reads_once [OF ports run mark] obtain head where h: "e_BlockNumber N (w_hist w) = Some (Ok head)"
    and e: "extends w w'"
    and c: "if head \<le> w_mark w then w_mark w' = w_mark w \<and> (\<forall>b. reads E l b w w' = 0)
     else w_mark w' = windowEnd (w_mark w + 1) head ?m \<and>
       (\<forall>b. reads E l b w w' = (if within b (w_mark w) (w_mark w') then 1 else 0))" by blast
  have "once E l w w' \<and> (w_mark w \<le> head \<longrightarrow> unat (w_mark w') = min (unat head) (unat (w_mark w) + unat ?m))"
  proof (cases "head \<le> w_mark w")
    case True
    then have "once E l w w'" using c e by (simp add: once_def within_def)
    moreover have "w_mark w \<le> head \<Longrightarrow> w_mark w = head" using True by simp
    ultimately show ?thesis using c True by auto
  next
    case False
    then have lt: "w_mark w < head" "unat (w_mark w) < unat head" by (simp_all add: not_le word_less_nat_alt)
    from windowEnd_bounded [OF heads h lt(1)] c False
    have u: "unat (w_mark w') = min (unat head) (unat (w_mark w) + unat ?m)" by simp
    then have "w_mark w \<le> w_mark w'" using lt(2) by (simp add: word_le_nat_alt)
    with u c e False show ?thesis by (simp add: once_def)
  qed
  with h show ?thesis by blast
qed

lemma once_mark: "once E l w w' \<Longrightarrow> w_mark w \<noteq> 0 \<Longrightarrow> w_mark w' \<noteq> 0"
  by (auto simp: once_def)

lemma ticks_once:
  assumes "plain_ports N l" and "bounded_heads N l"
  shows "ticks n E l w = Some (Ok u, w') \<Longrightarrow> w_mark w \<noteq> 0 \<Longrightarrow> once E l w w'"
proof (induction n arbitrary: w)
  case 0
  then show ?case by (simp add: once_def within_def extends_def)
next
  case (Suc n)
  then obtain v where t: "Tick E l w = Some (Ok (), v)" and r: "ticks n E l v = Some (Ok u, w')"
    by (auto simp: io_ok)
  from Tick_once [OF assms t] Suc.prems have o1: "once E l w v" by blast
  from Suc.IH [OF r once_mark [OF this]] Suc.prems have "once E l v w'" by blast
  with o1 show ?case by (rule once_trans)
qed

lemma ticks_reach:
  assumes ports: "plain_ports N l" and heads: "bounded_heads N l" and att: "attentive N head"
  shows "w_mark w \<noteq> 0 \<Longrightarrow> w_mark w \<le> head \<Longrightarrow> \<exists>w'. ticks n E l w = Some (Ok (), w') \<and>
    unat (w_mark w') = min (unat head) (unat (w_mark w) + n * unat (el_MaxBlocksPerTick (el_defaults l)))"
proof (induction n arbitrary: w)
  case 0
  then show ?case by (simp add: ret_def word_le_nat_alt min_def)
next
  case (Suc n)
  let ?m = "unat (el_MaxBlocksPerTick (el_defaults l))"
  from succeedsD [OF Tick_succeeds [OF ports att, of E], of w] obtain v
    where t: "Tick E l w = Some (Ok (), v)" by auto
  have h: "e_BlockNumber N (w_hist w) = Some (Ok head)" using att by (simp add: attentive_def)
  from Tick_once [OF ports heads t] Suc.prems h
  have o1: "once E l w v" and u: "unat (w_mark v) = min (unat head) (unat (w_mark w) + ?m)" by auto
  have "w_mark v \<le> head" using u by (simp add: word_le_nat_alt)
  from Suc.IH [OF once_mark [OF o1 Suc.prems(1)] this] obtain w'
    where "ticks n E l v = Some (Ok (), w')"
      and "unat (w_mark w') = min (unat head) (min (unat head) (unat (w_mark w) + ?m) + n * ?m)"
    unfolding u by blast
  then show ?case using t by (auto simp: io_bind_eval min_def)
qed

section \<open>Properties\<close>

text \<open>
  C30: the listener catches up. On a node whose calls succeed and whose head stays where it is, from
  a watermark that is set and not past the head, and with room for a window below \<open>2^64\<close>, any number
  \<open>n\<close> of ticks succeeds and brings the watermark \<open>n\<close> windows further, or to the head when
  that is nearer; and every block between the old and the new watermark was asked for in exactly
  one query of the Permit2 events, every other block in none.
\<close>

theorem listener_catches_up:
  assumes "plain_ports N l" and "attentive N head" and "w_mark w \<noteq> 0" and "w_mark w \<le> head"
    and "unat head + unat (el_MaxBlocksPerTick (el_defaults l)) < 2 ^ 64"
  shows "\<exists>w'. ticks n E l w = Some (Ok (), w') \<and>
    unat (w_mark w') = min (unat head) (unat (w_mark w) + n * unat (el_MaxBlocksPerTick (el_defaults l))) \<and>
    (\<forall>b. reads E l b w w' = (if unat (w_mark w) < b \<and> b \<le> unat (w_mark w') then 1 else 0))"
proof -
  have heads: "bounded_heads N l" using assms(2,5) by (simp add: bounded_heads_def attentive_def)
  from ticks_reach [OF assms(1) heads assms(2-4), of n E] obtain w' where
    t: "ticks n E l w = Some (Ok (), w')" and
    u: "unat (w_mark w') = min (unat head) (unat (w_mark w) + n * unat (el_MaxBlocksPerTick (el_defaults l)))" by blast
  from ticks_once [OF assms(1) heads t assms(3)]
  have "\<forall>b. reads E l b w w' = (if unat (w_mark w) < b \<and> b \<le> unat (w_mark w') then 1 else 0)"
    by (simp add: once_def within_def)
  with t u show ?thesis by blast
qed

lemma demo_plain_ports: "plain_ports demo_env demo_loop" "loop_ports demo_env demo_loop"
  by (simp_all add: plain_ports_def loop_ports_def demo_loop_def)

lemma demo_attentive: "attentive demo_env 100"
  by (simp add: attentive_def demo_env_def)

theorem listener_catches_up_witness:
  "\<exists>w'. ticks 3 demo_lib demo_loop \<lparr>w_rows = [], w_mark = 50, w_hist = []\<rparr> = Some (Ok (), w') \<and>
     unat (w_mark w') = 100 \<and> reads demo_lib demo_loop 71 \<lparr>w_rows = [], w_mark = 50, w_hist = []\<rparr> w' = 1"
proof -
  let ?w = "\<lparr>w_rows = [], w_mark = 50, w_hist = []\<rparr> :: world"
  have m: "el_MaxBlocksPerTick (el_defaults demo_loop) = 20" by (simp add: demo_loop_def el_defaults_def Let_def)
  from listener_catches_up [OF demo_plain_ports(1) demo_attentive, of ?w 3 demo_lib]
  show ?thesis unfolding m by (auto simp: word_le_nat_alt)
qed

text \<open>
  C37: however \<open>Run\<close> ends, it has skipped no block. Whatever its node, its store of the watermark
  and its ticks answer, it returns only with the error its context gave while waiting (or by a
  panic). If moreover it was started with a watermark that is set, and the block numbers of the node
  leave room for a window below \<open>2^64\<close>, then the watermark is not behind the one it started from, and
  every block between the two was in the range of a query of the Permit2 events that it made. Both
  conditions are needed: a watermark of 0 is first moved to its seed without a query, and a window
  that wraps around sets the watermark back (\<open>Listener.tick_overflow_rewinds_watermark\<close>).
\<close>

theorem run_skips_no_block:
  assumes "loop_ports N l" and "bounded_heads N l" and "steady_runtime rt onError"
    and "Run E rt (Some l) onError w = Some (r, w')"
  shows "(r = Panic \<or> (\<exists>e u. r = Err e \<and> rt_wait rt (el_PollInterval (el_defaults l)) u = Some (Err e, w'))) \<and>
    (w_mark w \<noteq> 0 \<longrightarrow> w_mark w \<le> w_mark w' \<and>
       (\<forall>b. unat (w_mark w) < b \<and> b \<le> unat (w_mark w') \<longrightarrow>
          (\<exists>ev\<in>set (news w w'). readsBlock E l b ev)))"
proof (rule conjI)
  have "el_RPC l \<noteq> None" "el_Store l \<noteq> None" "el_Watermark l \<noteq> None"
    using assms(1) by (simp_all add: loop_ports_def)
  from Run_ends [OF this assms(4)]
  show "r = Panic \<or> (\<exists>e u. r = Err e \<and> rt_wait rt (el_PollInterval (el_defaults l)) u = Some (Err e, w'))" .
  from Run_covers [OF assms]
  show "w_mark w \<noteq> 0 \<longrightarrow> w_mark w \<le> w_mark w' \<and>
       (\<forall>b. unat (w_mark w) < b \<and> b \<le> unat (w_mark w') \<longrightarrow>
          (\<exists>ev\<in>set (news w w'). readsBlock E l b ev))"
    by (auto simp: covers_def within_def reads_def filter_empty_conv)
qed

text \<open>A context that is done after the first tick.\<close>

definition done_runtime :: "world runtime" where
  "done_runtime = (env_runtime demo_env)\<lparr>rt_wait := \<lambda>d. fail (External ''context canceled'')\<rparr>"

theorem run_skips_no_block_witness:
  "\<exists>w'. Run demo_lib done_runtime (Some demo_loop) None \<lparr>w_rows = [], w_mark = 50, w_hist = []\<rparr> =
     Some (Err (External ''context canceled''), w') \<and> 50 \<le> w_mark w'"
proof -
  let ?w = "\<lparr>w_rows = [], w_mark = 50, w_hist = []\<rparr> :: world" and ?l = "el_defaults demo_loop"
  have deps: "el_RPC demo_loop \<noteq> None" "el_Store demo_loop \<noteq> None" "el_Watermark demo_loop \<noteq> None"
    by (simp_all add: demo_loop_def)
  have t: "\<exists>r w1. tickReporting demo_lib ?l None ?w = Some (r, w1) \<and> isOk r"
  proof -
    have "demo_loop\<lparr>el_MaxBlocksPerTick := 20\<rparr> = demo_loop" by (simp add: demo_loop_def)
    then obtain w1 where "Tick demo_lib demo_loop ?w = Some (Ok (), w1)" using demo_tick [of ?w 20] by auto
    moreover have "Tick demo_lib ?l = Tick demo_lib demo_loop" by (simp only: Tick_def el_defaults_idem)
    ultimately show ?thesis by (simp add: tickReporting_def io_try_eval ret_def)
  qed
  then obtain w1 where t: "tickReporting demo_lib ?l None ?w = Some (Ok (), w1)"
    using isOk_iff by (metis (full_types) old.unit.exhaust)
  have "runLoop demo_lib done_runtime ?l None w1 = Some (Err (External ''context canceled''), w1)"
    by (subst runLoop.simps) (simp add: done_runtime_def io_bind_def io_try_def fail_def)
  then have run: "Run demo_lib done_runtime (Some demo_loop) None ?w = Some (Err (External ''context canceled''), w1)"
    using deps t by (simp add: Run_def Let_def io_bind_eval)
  have heads: "bounded_heads demo_env demo_loop"
    by (simp add: bounded_heads_def demo_env_def demo_loop_def el_defaults_def Let_def)
  have "steady_runtime done_runtime None"
    by (simp add: steady_runtime_def done_runtime_def moves_intros)
  from run_skips_no_block [OF demo_plain_ports(2) heads this run] run show ?thesis by auto
qed

end
