(* ===== verification/Reconcile.thy ===== *)
theory Reconcile
  imports Follow
begin

text \<open>
  What the loop of \<open>src/listener.go\<close> does to the cached authorizations, against a specification in
  terms of events. A \<open>chain_event\<close> is what a log stands for; \<open>reconciled\<close> says what a sequence of them
  makes of the authorizations, row by row. A window of \<open>Tick\<close> implements it, whatever logs the node
  answers, and applying logs again changes nothing; but the lockdowns that Permit2 emits are no event
  for it.
\<close>

section \<open>The events of a window\<close>

datatype chain_event =
    Permitted permit_event u64
  | LockedDown string string string

text \<open>A log that decodes as neither event, and an event of another wallet's agent, stand for none.\<close>

definition logEvent :: "eth_lib \<Rightarrow> world event_loop \<Rightarrow> eth_log \<Rightarrow> chain_event option" where
  "logEvent E l lg =
     (case DecodePermit E lg of
        Ok ev \<Rightarrow> if ignored l (pe_Spender ev) then None else Some (Permitted ev (lg_BlockNumber lg))
      | _ \<Rightarrow>
        (case DecodeLockdown E lg of
           Ok ev \<Rightarrow> if ignored l (le_Spender ev) then None
                    else Some (LockedDown (le_Owner ev) (le_Spender ev) (le_Token ev))
         | _ \<Rightarrow> None))"

definition logEvents :: "eth_lib \<Rightarrow> world event_loop \<Rightarrow> eth_log list \<Rightarrow> chain_event list" where
  "logEvents E l lgs = List.map_filter (logEvent E l) lgs"

text \<open>The row of one identity after an event, and all rows after the events of a window.\<close>

fun rowAfter :: "row_id \<Rightarrow> chain_event \<Rightarrow> authorization option \<Rightarrow> authorization option" where
  "rowAfter i (Permitted ev block) old =
     (if rowId (eventRow ev block) = i then Some (upserted old (eventRow ev block)) else old)"
| "rowAfter i (LockedDown owner agent token) old = map_option (lockedBy owner agent token) old"

definition reconciled ::
  "chain_event list \<Rightarrow> (row_id \<Rightarrow> authorization option) \<Rightarrow> row_id \<Rightarrow> authorization option" where
  "reconciled evs m i = fold (rowAfter i) evs (m i)"

lemma logEvents_simps [simp]:
  "logEvents E l [] = []"
  "logEvents E l (lg # lgs) = (case logEvent E l lg of None \<Rightarrow> [] | Some ev \<Rightarrow> [ev]) @ logEvents E l lgs"
  by (simp_all add: logEvents_def List.map_filter_simps split: option.split)

lemma logEvents_append: "logEvents E l (xs @ ys) = logEvents E l xs @ logEvents E l ys"
  by (induction xs) simp_all

lemma reconciled_append: "reconciled (xs @ ys) m = reconciled ys (reconciled xs m)"
  by (rule ext) (simp add: reconciled_def)

lemma reconciled_Nil [simp]: "reconciled [] m = m"
  by (rule ext) (simp add: reconciled_def)

lemma reconciled_one:
  "reconciled [Permitted ev b] m = m(rowId (eventRow ev b) \<mapsto> upserted (m (rowId (eventRow ev b))) (eventRow ev b))"
  "reconciled [LockedDown ow ag tk] m = (\<lambda>i. map_option (lockedBy ow ag tk) (m i))"
  by (auto simp: reconciled_def)

section \<open>The loop implements the specification\<close>

lemma applyPermit2_permit:
  assumes ports: "loop_ports N l" and wf: "store_wf (w_rows w)" and ev: "DecodePermit E lg = Ok ev"
    and run: "applyPermit2 E l lg w = Some (r, w')"
  shows "store_wf (w_rows w') \<and>
    lookupRow (w_rows w') = reconciled (logEvents E l [lg]) (lookupRow (w_rows w))"
proof -
  have st: "the (el_Store l) = memory_store" using ports by (simp add: loop_ports_def)
  have top: "lg_Topics lg \<noteq> []" "lg_Topics lg ! 0 = topicPermit E"
    using ev by (auto simp: DecodePermit_def split: if_splits)
  let ?a = "eventRow ev (lg_BlockNumber lg)"
  show ?thesis
  proof (cases "ignored l (pe_Spender ev)")
    case True
    with run ev top wf show ?thesis by (simp add: applyPermit2_def io_bind_lift logEvent_def)
  next
    case False
    obtain e rows where up: "ms_Upsert ?a (w_rows w) = (e, rows)" by (cases "ms_Upsert ?a (w_rows w)")
    have "w_rows w' = rows"
      using run ev top False up
      by (auto simp: applyPermit2_def st io_bind_lift io_bind_Some_iff memory_store_eval)
    with ms.upsert_law [OF wf eventRow_readable up] ev False show ?thesis
      by (simp add: logEvent_def reconciled_one)
  qed
qed

lemma applyPermit2_lockdown:
  assumes ports: "loop_ports N l" and wf: "store_wf (w_rows w)" and ev: "DecodeLockdown E lg = Ok ev"
    and topics: "topicPermit E \<noteq> topicLockdown E" and run: "applyPermit2 E l lg w = Some (r, w')"
  shows "store_wf (w_rows w') \<and>
    lookupRow (w_rows w') = reconciled (logEvents E l [lg]) (lookupRow (w_rows w))"
proof -
  have st: "the (el_Store l) = memory_store" using ports by (simp add: loop_ports_def)
  have top: "lg_Topics lg \<noteq> []" "lg_Topics lg ! 0 = topicLockdown E"
    using ev by (auto simp: DecodeLockdown_def split: if_splits)
  then have "\<nexists>p. DecodePermit E lg = Ok p" using topics by (auto simp: DecodePermit_def split: if_splits)
  then have logs: "logEvents E l [lg] =
      (if ignored l (le_Spender ev) then [] else [LockedDown (le_Owner ev) (le_Spender ev) (le_Token ev)])"
    using ev by (auto simp: logEvent_def split: res.split)
  have "w_rows w' = (if ignored l (le_Spender ev) then w_rows w
      else ms_MarkLocked (le_Owner ev) (le_Spender ev) (le_Token ev) (w_rows w))"
    using run ev top topics by (auto simp: applyPermit2_def st io_bind_lift memory_store_eval)
  moreover have "lookupRow (ms_MarkLocked ow ag tk (w_rows w)) =
      (\<lambda>i. map_option (lockedBy ow ag tk) (lookupRow (w_rows w) i))" for ow ag tk
    using ms.lock_law [OF wf] by (intro ext) blast
  moreover have "store_wf (ms_MarkLocked ow ag tk (w_rows w))" for ow ag tk using ms.lock_law [OF wf] by blast
  ultimately show ?thesis unfolding logs using wf by (simp add: reconciled_one)
qed

lemma applyPermit2_other:
  assumes "\<nexists>ev. DecodePermit E lg = Ok ev" and "\<nexists>ev. DecodeLockdown E lg = Ok ev"
    and "applyPermit2 E l lg w = Some (r, w')"
  shows "w' = w \<and> logEvents E l [lg] = []"
proof -
  have "w' = w"
    using assms by (auto simp: applyPermit2_def io_bind_lift split: if_splits res.splits)
  with assms(1,2) show ?thesis by (auto simp: logEvent_def split: res.split)
qed

lemma forEach_refines:
  assumes topics: "topicPermit E \<noteq> topicLockdown E" and ports: "loop_ports N l"
  shows "store_wf (w_rows w) \<Longrightarrow> forEach (applyPermit2 E l) logs w = Some (r, w') \<Longrightarrow>
    store_wf (w_rows w') \<and> lookupRow (w_rows w') = reconciled (logEvents E l logs) (lookupRow (w_rows w))"
proof (induction logs arbitrary: w)
  case Nil
  then show ?case by simp
next
  case (Cons lg logs)
  from Cons.prems(2) obtain q v where one: "applyPermit2 E l lg w = Some (q, v)"
    and rest: "forEach (applyPermit2 E l) logs v = Some (r, w') \<or> q = Panic"
    by (auto simp: io_bind_Some_iff io_both_def io_try_Some_iff)
  have "q \<noteq> Panic" using applyPermit2_settles [OF ports, of E lg, unfolded settles_def, rule_format, of w] one by auto
  with rest have rest: "forEach (applyPermit2 E l) logs v = Some (r, w')" by simp
  have v: "store_wf (w_rows v) \<and>
      lookupRow (w_rows v) = reconciled (logEvents E l [lg]) (lookupRow (w_rows w))"
    using applyPermit2_permit [OF ports Cons.prems(1) _ one] applyPermit2_lockdown [OF ports Cons.prems(1) _ topics one]
      applyPermit2_other [OF _ _ one] Cons.prems(1) by fastforce
  with Cons.IH [OF _ rest] have "store_wf (w_rows w')"
    "lookupRow (w_rows w') = reconciled (logEvents E l [lg] @ logEvents E l logs) (lookupRow (w_rows w))"
    by (simp_all add: reconciled_append del: logEvents_simps)
  then show ?case by (simp flip: logEvents_append)
qed

section \<open>Applying events again\<close>

text \<open>What an event reads of the row it replaces: the accumulated spend.\<close>

definition keptSpent :: "authorization option \<Rightarrow> string" where
  "keptSpent old = (case old of None \<Rightarrow> ''0'' | Some r \<Rightarrow> orZero (au_SpentAtoms r))"

fun permits :: "row_id \<Rightarrow> chain_event \<Rightarrow> bool" where
  "permits i (Permitted ev block) \<longleftrightarrow> rowId (eventRow ev block) = i"
| "permits i (LockedDown owner agent token) \<longleftrightarrow> False"

fun locks :: "chain_event \<Rightarrow> authorization \<Rightarrow> bool" where
  "locks (Permitted ev block) r \<longleftrightarrow> False"
| "locks (LockedDown owner agent token) r \<longleftrightarrow>
     equalFold (au_Owner r) owner \<and> equalFold (au_Agent r) agent \<and> equalFold (au_Token r) token"

fun mined :: "chain_event \<Rightarrow> bool" where
  "mined (Permitted ev block) \<longleftrightarrow> block \<noteq> 0"
| "mined (LockedDown owner agent token) \<longleftrightarrow> True"

lemma upserted_event:
  "block \<noteq> 0 \<Longrightarrow> upserted old (eventRow ev block) = (eventRow ev block)\<lparr>au_SpentAtoms := keptSpent old\<rparr>"
  by (cases old) (simp_all add: upserted_def refreshed_def eventRow_def keptSpent_def)

lemma orZero_keptSpent: "orZero (keptSpent old) = keptSpent old"
  by (simp add: keptSpent_def orZero_def split: option.split)

lemma keptSpent_rowAfter: "mined ev \<Longrightarrow> keptSpent (rowAfter i ev old) = keptSpent old"
proof (cases ev)
  case (Permitted p block)
  assume "mined ev"
  then have "upserted old (eventRow p block) = (eventRow p block)\<lparr>au_SpentAtoms := keptSpent old\<rparr>"
    using Permitted by (intro upserted_event) simp
  moreover have "keptSpent (Some (a\<lparr>au_SpentAtoms := keptSpent old\<rparr>)) = keptSpent old" for a :: authorization
    using orZero_keptSpent [of old] by (simp add: keptSpent_def [of "Some _"])
  ultimately show ?thesis using Permitted by simp
next
  case (LockedDown ow ag tk)
  then show ?thesis by (cases old) (simp_all add: keptSpent_def lockedBy_def)
qed

lemma keptSpent_fold: "\<forall>ev\<in>set evs. mined ev \<Longrightarrow> keptSpent (fold (rowAfter i) evs old) = keptSpent old"
  by (induction evs arbitrary: old) (simp_all add: keptSpent_rowAfter)

text \<open>Events with a permit for the identity forget the row they started from, its spend apart.\<close>

lemma permitted_forgets:
  "\<forall>ev\<in>set evs. mined ev \<Longrightarrow> \<exists>ev\<in>set evs. permits i ev \<Longrightarrow> keptSpent old = keptSpent old' \<Longrightarrow>
     fold (rowAfter i) evs old = fold (rowAfter i) evs old'"
proof (induction evs arbitrary: old old')
  case Nil
  then show ?case by simp
next
  case (Cons ev evs)
  show ?case
  proof (cases "permits i ev")
    case True
    with Cons.prems have "rowAfter i ev old = rowAfter i ev old'"
      by (cases ev) (auto simp: upserted_event)
    then show ?thesis by simp
  next
    case False
    with Cons.prems have "keptSpent (rowAfter i ev old) = keptSpent (rowAfter i ev old')"
      by (simp add: keptSpent_rowAfter)
    then have "fold (rowAfter i) evs (rowAfter i ev old) = fold (rowAfter i) evs (rowAfter i ev old')"
      using False Cons.prems by (intro Cons.IH) auto
    then show ?thesis by simp
  qed
qed

text \<open>Without one they can only lock it.\<close>

lemma unpermitted_locks:
  "\<forall>ev\<in>set evs. \<not> permits i ev \<Longrightarrow> fold (rowAfter i) evs old =
     map_option (\<lambda>r. if \<exists>ev\<in>set evs. locks ev r then r\<lparr>au_OnchainLocked := True\<rparr> else r) old"
proof (induction evs arbitrary: old)
  case Nil
  then show ?case by (simp add: option.map_id [unfolded id_def])
next
  case (Cons ev evs)
  have l: "locks e (r\<lparr>au_OnchainLocked := True\<rparr>) = locks e r" for e r by (cases e) simp_all
  have "rowAfter i ev old = map_option (\<lambda>r. if locks ev r then r\<lparr>au_OnchainLocked := True\<rparr> else r) old"
    using Cons.prems by (cases ev; cases old) (simp_all add: lockedBy_def)
  with Cons.IH Cons.prems show ?case
    by (cases old) (simp_all add: l)
qed

lemma rowAfter_again:
  assumes "\<forall>ev\<in>set evs. mined ev"
  shows "fold (rowAfter i) evs (fold (rowAfter i) evs old) = fold (rowAfter i) evs old"
proof (cases "\<exists>ev\<in>set evs. permits i ev")
  case True
  with assms show ?thesis by (intro permitted_forgets) (simp_all add: keptSpent_fold)
next
  case False
  then have e: "\<forall>ev\<in>set evs. \<not> permits i ev" by blast
  have l: "locks e (r\<lparr>au_OnchainLocked := True\<rparr>) = locks e r" for e r by (cases e) simp_all
  show ?thesis unfolding unpermitted_locks [OF e] by (cases old) (simp_all add: l)
qed

lemma reconciled_again:
  assumes "\<forall>ev\<in>set xs. mined ev"
  shows "reconciled (xs @ ys) (reconciled xs m) = reconciled (xs @ ys) m"
  unfolding reconciled_append
  by (rule arg_cong [of _ _ "reconciled ys"], rule ext) (simp add: reconciled_def rowAfter_again [OF assms])

lemma logEvents_mined: "\<forall>lg\<in>set lgs. lg_BlockNumber lg \<noteq> 0 \<Longrightarrow> \<forall>ev\<in>set (logEvents E l lgs). mined ev"
proof (induction lgs)
  case (Cons lg lgs)
  have "mined ev" if "logEvent E l lg = Some ev" for ev
    using that Cons.prems by (auto simp: logEvent_def split: res.splits if_splits)
  with Cons show ?case by (auto split: option.split)
qed simp

section \<open>A tick\<close>

lemma Tick_reconciles:
  assumes "topicPermit E \<noteq> topicLockdown E" and "loop_ports N l" and "store_wf (w_rows w)"
    and "Tick E l w = Some (r, w')"
  shows "store_wf (w_rows w') \<and>
    (lookupRow (w_rows w') = lookupRow (w_rows w) \<and>
       (isOk r \<longrightarrow> (\<exists>head. e_BlockNumber N (w_hist w) = Some (Ok head) \<and>
          head \<le> tickMark l head (w_mark w) \<and> w_mark w' = tickMark l head (w_mark w))) \<or>
     (\<exists>head wm stop before after logs.
        e_BlockNumber N (w_hist w) = Some (Ok head) \<and> wm = tickMark l head (w_mark w) \<and> wm < head \<and>
        stop = windowEnd (wm + 1) head (el_MaxBlocksPerTick (el_defaults l)) \<and>
        (unat wm + unat (el_MaxBlocksPerTick (el_defaults l)) < 2 ^ 64 \<longrightarrow>
           unat stop = min (unat head) (unat wm + unat (el_MaxBlocksPerTick (el_defaults l)))) \<and>
        w_hist w' = before @ EvFilterLogs (permit2Query E (el_defaults l) (wm + 1) stop) # after \<and>
        e_FilterLogs N (permit2Query E (el_defaults l) (wm + 1) stop) before = Some (Ok logs) \<and>
        lookupRow (w_rows w') = reconciled (logEvents E (el_defaults l) logs) (lookupRow (w_rows w)) \<and>
        (isOk r \<longrightarrow> w_mark w' = stop))) \<and>
    (\<not> isOk r \<longrightarrow> w_mark w' = w_mark w \<or>
       (\<exists>head. e_BlockNumber N (w_hist w) = Some (Ok head) \<and> w_mark w' = tickMark l head (w_mark w)))"
  using assms(2,4)
proof (cases rule: Tick_stages)
  case stopped
  then show ?thesis using assms(3) by (simp add: quiet_def)
next
  case (window head v)
  have ports: "loop_ports N (el_defaults l)" using assms(2) by simp
  have rows: "w_rows v = w_rows w" using window(2) by (simp add: quiet_def)
  note marks = tickWindow_effect [OF ports window(4)]
  from ports window(4) show ?thesis
  proof (cases rule: tickWindow_stages)
    case none
    then show ?thesis using assms(3) window rows by auto
  next
    case (unanswered stop q u)
    then show ?thesis using assms(3) rows marks window(1,3) by auto
  next
    case (applied stop q u logs x y t)
    have "store_wf (w_rows u)" "w_rows u = w_rows w" using applied(4) rows assms(3) by simp_all
    with forEach_refines [OF assms(1) ports _ applied(6)]
    have x: "store_wf (w_rows x)" "lookupRow (w_rows x) = reconciled (logEvents E (el_defaults l) logs) (lookupRow (w_rows w))"
      by simp_all
    have y: "w_rows y = w_rows x" "extends u y"
      using applied_steady [OF ports applied(6,7)] by (simp_all add: calm_def steady_def)
    have "w_rows w' = w_rows y \<and> extends y w'"
      using applied(8) env_Set_quiet by (auto simp: quiet_def extends_def)
    then have w': "w_rows w' = w_rows x" "extends u w'" using y extends_trans by auto
    then have h: "w_hist w' = w_hist v @ EvFilterLogs q # news u w'"
      using extends_news [of u w'] applied(4) by simp
    have m: "isOk r \<longrightarrow> w_mark w' = stop" "\<not> isOk r \<longrightarrow> w_mark w' = w_mark v"
      using marks applied(1,2) by (simp_all add: not_le [symmetric])
    have "el_MaxBlocksPerTick (el_defaults l) \<noteq> 0" by (simp add: el_defaults_def Let_def)
    from windowEnd_unat [OF refl applied(1) _ this] have
      "unat (w_mark v) + unat (el_MaxBlocksPerTick (el_defaults l)) < 2 ^ 64 \<longrightarrow>
         unat stop = min (unat head) (unat (w_mark v) + unat (el_MaxBlocksPerTick (el_defaults l)))"
      using applied(2) by simp
    then have "\<exists>before after. w_mark v < head \<and>
        (unat (w_mark v) + unat (el_MaxBlocksPerTick (el_defaults l)) < 2 ^ 64 \<longrightarrow>
           unat stop = min (unat head) (unat (w_mark v) + unat (el_MaxBlocksPerTick (el_defaults l)))) \<and>
        w_hist w' = before @ EvFilterLogs q # after \<and> e_FilterLogs N q before = Some (Ok logs) \<and>
        lookupRow (w_rows w') = reconciled (logEvents E (el_defaults l) logs) (lookupRow (w_rows w)) \<and>
        (isOk r \<longrightarrow> w_mark w' = stop)"
      using h applied(1,5) x(2) w'(1) m(1) by auto
    moreover have "store_wf (w_rows w')" using x(1) w'(1) by simp
    ultimately show ?thesis
      using window(1,3) applied(2,3) m(2) by metis
  qed
qed

text \<open>In short: the rows are unchanged, or reconciled with the events of logs the node answered.\<close>

lemma Tick_rows:
  assumes "topicPermit E \<noteq> topicLockdown E" and "loop_ports N l" and "store_wf (w_rows w)"
    and "Tick E l w = Some (r, w')"
  obtains "lookupRow (w_rows w') = lookupRow (w_rows w)"
  | q h logs where "e_FilterLogs N q h = Some (Ok logs)"
      "lookupRow (w_rows w') = reconciled (logEvents E (el_defaults l) logs) (lookupRow (w_rows w))"
  using Tick_reconciles [OF assms] by metis

section \<open>Lockdowns as Permit2 emits them\<close>

definition emittedLockdown :: "eth_lib \<Rightarrow> eth_log \<Rightarrow> bool" where
  "emittedLockdown E lg \<longleftrightarrow>
     (\<exists>em block tx owner token spndr. lg = lockdownLog E em block tx owner token spndr)"

text \<open>A node that answers \<open>Lockdown\<close> logs in the layout of the contract only.\<close>

definition emitsLockdowns :: "eth_lib \<Rightarrow> env \<Rightarrow> bool" where
  "emitsLockdowns E N \<longleftrightarrow>
     (\<forall>q h logs lg. e_FilterLogs N q h = Some (Ok logs) \<longrightarrow> lg \<in> set logs \<longrightarrow>
        lg_Topics lg \<noteq> [] \<longrightarrow> lg_Topics lg ! 0 = topicLockdown E \<longrightarrow> emittedLockdown E lg)"

lemma emitted_events_never_lock:
  assumes "\<forall>lg\<in>set lgs. lg_Topics lg \<noteq> [] \<longrightarrow> lg_Topics lg ! 0 = topicLockdown E \<longrightarrow> emittedLockdown E lg"
    and "LockedDown ow ag tk \<in> set (logEvents E l lgs)"
  shows False
  using assms
proof (induction lgs)
  case (Cons lg lgs)
  have "logEvent E l lg \<noteq> Some (LockedDown ow ag tk)"
  proof
    assume "logEvent E l lg = Some (LockedDown ow ag tk)"
    then obtain ev where d: "DecodeLockdown E lg = Ok ev" by (auto simp: logEvent_def split: res.splits if_splits)
    then have "lg_Topics lg \<noteq> []" "lg_Topics lg ! 0 = topicLockdown E"
      by (auto simp: DecodeLockdown_def split: if_splits)
    with Cons.prems(1) have "emittedLockdown E lg" by simp
    with d show False by (auto simp: emittedLockdown_def DecodeLockdown_lockdownLog)
  qed
  with Cons show ?case by (auto split: option.splits)
qed simp

lemma unlocking_events:
  assumes "\<And>ow ag tk. LockedDown ow ag tk \<notin> set evs" and "fold (rowAfter i) evs old = Some row"
    and "au_OnchainLocked row"
  shows "\<exists>r. old = Some r \<and> au_OnchainLocked r"
  using assms
proof (induction evs arbitrary: old)
  case (Cons ev evs)
  then obtain r where r: "rowAfter i ev old = Some r" "au_OnchainLocked r" by fastforce
  obtain p block where ev: "ev = Permitted p block" using Cons.prems(1) by (cases ev) auto
  have "\<not> au_OnchainLocked (upserted old (eventRow p block))"
    by (simp add: upserted_def refreshed_def eventRow_def split: option.split)
  with r show ?case unfolding ev by (auto split: if_splits)
qed simp

text \<open>A tick that reads nothing but emitted lockdowns moves the watermark and nothing else.\<close>

lemma logEvents_emitted: "\<forall>lg\<in>set lgs. emittedLockdown E lg \<Longrightarrow> topicPermit E \<noteq> topicLockdown E \<Longrightarrow> logEvents E l lgs = []"
proof (induction lgs)
  case (Cons lg lgs)
  then obtain em block tx owner token spndr where "lg = lockdownLog E em block tx owner token spndr"
    by (auto simp: emittedLockdown_def)
  then have "logEvent E l lg = None"
    by (simp add: logEvent_def DecodeLockdown_def DecodePermit_def lockdownLog_def)
  with Cons show ?case by simp
qed simp

lemma Tick_only_lockdowns:
  assumes "topicPermit E \<noteq> topicLockdown E" and "loop_ports N l" and "store_wf (w_rows w)"
    and "Tick E l w = Some (r, w')"
    and only: "\<forall>q h logs. e_FilterLogs N q h = Some (Ok logs) \<longrightarrow> (\<forall>lg\<in>set logs. emittedLockdown E lg)"
  shows "lookupRow (w_rows w') = lookupRow (w_rows w) \<and>
    (isOk r \<longrightarrow> (\<exists>head wm. e_BlockNumber N (w_hist w) = Some (Ok head) \<and> wm = tickMark l head (w_mark w) \<and>
       w_mark w' = (if head \<le> wm then wm
         else windowEnd (wm + 1) head (el_MaxBlocksPerTick (el_defaults l)))))"
proof -
  have "logEvents E (el_defaults l) logs = []" if "e_FilterLogs N q h = Some (Ok logs)" for q h logs
    using only that logEvents_emitted [OF _ assms(1)] by blast
  with Tick_reconciles [OF assms(1-4)] show ?thesis by (auto simp: not_le [symmetric])
qed

section \<open>Properties\<close>

text \<open>
  C21: a tick is one window of the chain, applied. When it reaches a window below the head, the node has
  answered the one query of that window with some logs, and the authorizations are those before,
  reconciled with the events these logs stand for, in their order; a log that does not decode, or of
  another wallet's agent, counts for nothing. The watermark is moved to the end of the window, which
  is the head or \<open>MaxBlocksPerTick\<close> blocks further, whichever is less, exactly if the tick succeeds.
  Otherwise the authorizations are as before, and if the tick succeeded there was no block to read.
  A tick that fails leaves the watermark (or its seed) where it was, and the store is well formed
  whatever happened.
\<close>

theorem tick_implements_events:
  assumes "topicPermit E \<noteq> topicLockdown E" and "loop_ports N l" and "store_wf (w_rows w)"
    and "Tick E l w = Some (r, w')"
  shows "store_wf (w_rows w') \<and>
    (lookupRow (w_rows w') = lookupRow (w_rows w) \<and>
       (isOk r \<longrightarrow> (\<exists>head. e_BlockNumber N (w_hist w) = Some (Ok head) \<and>
          head \<le> tickMark l head (w_mark w) \<and> w_mark w' = tickMark l head (w_mark w))) \<or>
     (\<exists>head wm stop before after logs.
        e_BlockNumber N (w_hist w) = Some (Ok head) \<and> wm = tickMark l head (w_mark w) \<and> wm < head \<and>
        stop = windowEnd (wm + 1) head (el_MaxBlocksPerTick (el_defaults l)) \<and>
        (unat wm + unat (el_MaxBlocksPerTick (el_defaults l)) < 2 ^ 64 \<longrightarrow>
           unat stop = min (unat head) (unat wm + unat (el_MaxBlocksPerTick (el_defaults l)))) \<and>
        w_hist w' = before @ EvFilterLogs (permit2Query E (el_defaults l) (wm + 1) stop) # after \<and>
        e_FilterLogs N (permit2Query E (el_defaults l) (wm + 1) stop) before = Some (Ok logs) \<and>
        lookupRow (w_rows w') = reconciled (logEvents E (el_defaults l) logs) (lookupRow (w_rows w)) \<and>
        (isOk r \<longrightarrow> w_mark w' = stop))) \<and>
    (\<not> isOk r \<longrightarrow> w_mark w' = w_mark w \<or>
       (\<exists>head. e_BlockNumber N (w_hist w) = Some (Ok head) \<and> w_mark w' = tickMark l head (w_mark w)))"
  using assms by (rule Tick_reconciles)

text \<open>
  A node with one log, the owner's \<open>permit\<close> for the cached authorization, and the loop on it: the tick
  replaces the row and keeps its spend.
\<close>

definition demo_node :: env where
  "demo_node = demo_env\<lparr>e_FilterLogs := \<lambda>q h. Some (Ok [permitLog demo_lib 3 9 7 1 2 4 1000 2000 5])\<rparr>"

definition demo_follower :: "world event_loop" where
  "demo_follower = demo_loop\<lparr>el_RPC := Some (env_rpc demo_node), el_Watermark := Some (env_watermark demo_node)\<rparr>"

lemma demo_follower_ports: "plain_ports demo_node demo_follower" "loop_ports demo_node demo_follower"
  by (simp_all add: plain_ports_def loop_ports_def demo_follower_def demo_loop_def)

lemma demo_node_attentive: "attentive demo_node 100"
  by (simp add: attentive_def demo_node_def demo_env_def)

lemma demo_node_events:
  "logEvents demo_lib (el_defaults demo_follower) [permitLog demo_lib 3 9 7 1 2 4 1000 2000 5] = [Permitted demo_event 9]"
proof -
  have "DecodePermit demo_lib (permitLog demo_lib 3 9 7 1 2 4 1000 2000 5) = Ok demo_event"
    using DecodePermit_permitLog [OF demo_bytes_address_law, of 1000 2000 5 3 9 7 1 2 4]
    by (simp add: demo_event_def demo_simps)
  moreover have "\<not> ignored (el_defaults demo_follower) a" for a
    by (simp add: ignored_def demo_follower_def demo_loop_def)
  ultimately show ?thesis by (simp add: logEvent_def permitLog_def)
qed

theorem tick_implements_events_witness:
  "\<exists>w'. Tick demo_lib demo_follower \<lparr>w_rows = [demo_cached], w_mark = 50, w_hist = []\<rparr> = Some (Ok (), w') \<and>
     lookupRow (w_rows w') (rowId demo_cached) = Some ((eventRow demo_event 9)\<lparr>au_SpentAtoms := showInt 30\<rparr>)"
proof -
  let ?w = "\<lparr>w_rows = [demo_cached], w_mark = 50, w_hist = []\<rparr> :: world"
  from succeedsD [OF Tick_succeeds [OF demo_follower_ports(1) demo_node_attentive]] obtain w'
    where run: "Tick demo_lib demo_follower ?w = Some (Ok (), w')" by auto
  have wf: "store_wf (w_rows ?w)" using demo_cached_wf by simp
  have h: "e_BlockNumber demo_node (w_hist ?w) = Some (Ok 100)" by (simp add: demo_node_def demo_env_def)
  have m: "tickMark demo_follower 100 50 = 50" by (simp add: tickMark_def)
  have f: "e_FilterLogs demo_node q es = Some (Ok [permitLog demo_lib 3 9 7 1 2 4 1000 2000 5])" for q es
    by (simp add: demo_node_def)
  from tick_implements_events [OF demo_topics_differ demo_follower_ports(2) wf run]
  have "lookupRow (w_rows w') = reconciled [Permitted demo_event 9] (lookupRow (w_rows ?w))"
    unfolding f h by (auto simp: m demo_node_events simp del: logEvents_simps)
  moreover have "reconciled [Permitted demo_event 9] (lookupRow (w_rows ?w)) (rowId demo_cached) =
      Some ((eventRow demo_event 9)\<lparr>au_SpentAtoms := showInt 30\<rparr>)"
    using showInt_nonempty
    by (simp add: reconciled_def upserted_event keptSpent_def orZero_def)
      (simp add: demo_cached_def rowId_def eventRow_def orZero_def)
  ultimately show ?thesis using run by auto
qed

text \<open>
  C22: reading logs again changes nothing. However many logs of a window were already applied, applying
  the whole window afterwards gives the same authorizations as applying it once, so a window that is
  repeated because the watermark was not written leaves no trace: no permit resets a spend, no lock is
  lost, and no row is cached twice.
\<close>

theorem replayed_logs_change_nothing:
  assumes "topicPermit E \<noteq> topicLockdown E" and "loop_ports N l" and "store_wf (w_rows w)"
    and "\<forall>lg\<in>set logs. lg_BlockNumber lg \<noteq> 0"
    and "forEach (applyPermit2 E l) (take k logs) w = Some (r, u)"
    and "forEach (applyPermit2 E l) logs u = Some (r', u')"
    and "forEach (applyPermit2 E l) logs w = Some (q, v)"
  shows "store_wf (w_rows u') \<and> lookupRow (w_rows u') = lookupRow (w_rows v)"
proof -
  note refines = forEach_refines [OF assms(1,2)]
  let ?xs = "logEvents E l (take k logs)" and ?ys = "logEvents E l (drop k logs)"
  have split: "logEvents E l logs = ?xs @ ?ys" by (simp flip: logEvents_append)
  have u: "store_wf (w_rows u)" "lookupRow (w_rows u) = reconciled ?xs (lookupRow (w_rows w))"
    using refines [OF assms(3,5)] by auto
  have "\<forall>ev\<in>set ?xs. mined ev" using assms(4) by (intro logEvents_mined) (auto dest: in_set_takeD)
  from reconciled_again [OF this] show ?thesis
    using refines [OF u(1) assms(6)] refines [OF assms(3,7)] by (simp add: split u(2))
qed

theorem replayed_logs_change_nothing_witness:
  "\<exists>u u' v. forEach (applyPermit2 demo_lib demo_loop) [permitLog demo_lib 3 9 7 1 2 4 1000 2000 5]
         \<lparr>w_rows = [demo_cached], w_mark = 50, w_hist = []\<rparr> = Some (Ok (), u) \<and>
     forEach (applyPermit2 demo_lib demo_loop)
       [permitLog demo_lib 3 9 7 1 2 4 1000 2000 5, indexedLockdownLog demo_lib 3 9 7 1 2 4] u = Some (Ok (), u') \<and>
     forEach (applyPermit2 demo_lib demo_loop)
       [permitLog demo_lib 3 9 7 1 2 4 1000 2000 5, indexedLockdownLog demo_lib 3 9 7 1 2 4]
         \<lparr>w_rows = [demo_cached], w_mark = 50, w_hist = []\<rparr> = Some (Ok (), v) \<and>
     lookupRow (w_rows u') = lookupRow (w_rows v)"
proof -
  let ?w = "\<lparr>w_rows = [demo_cached], w_mark = 50, w_hist = []\<rparr> :: world"
  let ?p = "permitLog demo_lib 3 9 7 1 2 4 1000 2000 5" and ?d = "indexedLockdownLog demo_lib 3 9 7 1 2 4"
  have ports: "loop_ports demo_env demo_loop" by (rule demo_plain_ports)
  have run: "\<exists>v. forEach (applyPermit2 demo_lib demo_loop) logs w = Some (Ok (), v)" for logs w
    using succeedsD [OF forEach_succeeds [OF applyPermit2_settles [OF ports]]] by auto
  obtain u where u: "forEach (applyPermit2 demo_lib demo_loop) (take 1 [?p, ?d]) ?w = Some (Ok (), u)"
    using run by blast
  obtain u' where u': "forEach (applyPermit2 demo_lib demo_loop) [?p, ?d] u = Some (Ok (), u')" using run by blast
  obtain v where v: "forEach (applyPermit2 demo_lib demo_loop) [?p, ?d] ?w = Some (Ok (), v)" using run by blast
  have wf: "store_wf (w_rows ?w)" using demo_cached_wf by simp
  have b: "\<forall>lg\<in>set [?p, ?d]. lg_BlockNumber lg \<noteq> 0" by (simp add: permitLog_def indexedLockdownLog_def)
  from replayed_logs_change_nothing [OF demo_topics_differ ports wf b u u' v]
  have "lookupRow (w_rows u') = lookupRow (w_rows v)" by blast
  with u u' v show ?thesis by (intro exI [of _ u] exI [of _ u'] exI [of _ v]) simp
qed

text \<open>
  C23: no lockdown is ever observed. The \<open>Lockdown\<close> log as Permit2 emits it is an error of
  \<open>applyPermit2\<close>, which \<open>Tick\<close> swallows, and changes nothing. So on a node whose lockdown logs are
  Permit2's, whatever else it answers, no tick locks an authorization: a row that is locked after
  it was locked before it. If lockdowns are all that a tick reads, the authorizations are the same
  before and after, and a tick that succeeds nevertheless leaves the watermark at the head or moves
  it to the end of the window, past those logs.
\<close>

theorem emitted_lockdowns_are_lost:
  assumes "topicPermit E \<noteq> topicLockdown E" and "loop_ports N l" and "store_wf (w_rows w)"
    and "emitsLockdowns E N" and "Tick E l w = Some (r, w')"
  shows "applyPermit2 E l (lockdownLog E em block tx owner token spndr) u =
      Some (Err (Errorf ''not a Lockdown log'' []), u) \<and>
    (\<forall>i row'. lookupRow (w_rows w') i = Some row' \<longrightarrow> au_OnchainLocked row' \<longrightarrow>
       (\<exists>row. lookupRow (w_rows w) i = Some row \<and> au_OnchainLocked row)) \<and>
    ((\<forall>q h logs. e_FilterLogs N q h = Some (Ok logs) \<longrightarrow> (\<forall>lg\<in>set logs. emittedLockdown E lg)) \<longrightarrow>
       lookupRow (w_rows w') = lookupRow (w_rows w) \<and>
       (isOk r \<longrightarrow> (\<exists>head wm. e_BlockNumber N (w_hist w) = Some (Ok head) \<and> wm = tickMark l head (w_mark w) \<and>
          w_mark w' = (if head \<le> wm then wm
            else windowEnd (wm + 1) head (el_MaxBlocksPerTick (el_defaults l))))))"
proof (intro conjI)
  show "applyPermit2 E l (lockdownLog E em block tx owner token spndr) u =
      Some (Err (Errorf ''not a Lockdown log'' []), u)"
    by (rule applyPermit2_emitted_lockdown [OF assms(1)])
  show "\<forall>i row'. lookupRow (w_rows w') i = Some row' \<longrightarrow> au_OnchainLocked row' \<longrightarrow>
       (\<exists>row. lookupRow (w_rows w) i = Some row \<and> au_OnchainLocked row)"
  proof (rule Tick_rows [OF assms(1-3,5)])
    fix q h logs
    assume n: "e_FilterLogs N q h = Some (Ok logs)"
      and l: "lookupRow (w_rows w') = reconciled (logEvents E (el_defaults l) logs) (lookupRow (w_rows w))"
    have "LockedDown ow ag tk \<notin> set (logEvents E (el_defaults l) logs)" for ow ag tk
      using emitted_events_never_lock assms(4) n unfolding emitsLockdowns_def by metis
    with unlocking_events show ?thesis unfolding l reconciled_def by metis
  qed simp
  show "(\<forall>q h logs. e_FilterLogs N q h = Some (Ok logs) \<longrightarrow> (\<forall>lg\<in>set logs. emittedLockdown E lg)) \<longrightarrow>
       lookupRow (w_rows w') = lookupRow (w_rows w) \<and>
       (isOk r \<longrightarrow> (\<exists>head wm. e_BlockNumber N (w_hist w) = Some (Ok head) \<and> wm = tickMark l head (w_mark w) \<and>
          w_mark w' = (if head \<le> wm then wm
            else windowEnd (wm + 1) head (el_MaxBlocksPerTick (el_defaults l)))))"
    using Tick_only_lockdowns [OF assms(1-3,5)] by blast
qed

text \<open>A node whose one log is the lockdown of the cached authorization, as the contract emits it.\<close>

definition demo_locking_node :: env where
  "demo_locking_node = demo_env\<lparr>e_FilterLogs := \<lambda>q h. Some (Ok [lockdownLog demo_lib 3 9 7 1 2 4])\<rparr>"

definition demo_locking_loop :: "world event_loop" where
  "demo_locking_loop =
    demo_loop\<lparr>el_RPC := Some (env_rpc demo_locking_node), el_Watermark := Some (env_watermark demo_locking_node)\<rparr>"

theorem emitted_lockdowns_are_lost_witness:
  "\<exists>w'. Tick demo_lib demo_locking_loop \<lparr>w_rows = [demo_cached], w_mark = 50, w_hist = []\<rparr> = Some (Ok (), w') \<and>
     w_mark w' = 70 \<and> lookupRow (w_rows w') (rowId demo_cached) = Some demo_cached \<and>
     \<not> au_OnchainLocked demo_cached"
proof -
  let ?w = "\<lparr>w_rows = [demo_cached], w_mark = 50, w_hist = []\<rparr> :: world"
  have ports: "plain_ports demo_locking_node demo_locking_loop" "loop_ports demo_locking_node demo_locking_loop"
    by (simp_all add: plain_ports_def loop_ports_def demo_locking_loop_def demo_loop_def)
  have att: "attentive demo_locking_node 100"
    by (simp add: attentive_def demo_locking_node_def demo_env_def)
  from succeedsD [OF Tick_succeeds [OF ports(1) att]] obtain w'
    where run: "Tick demo_lib demo_locking_loop ?w = Some (Ok (), w')" by auto
  have wf: "store_wf (w_rows ?w)" using demo_cached_wf by simp
  have e: "emittedLockdown demo_lib (lockdownLog demo_lib 3 9 7 1 2 4)"
    unfolding emittedLockdown_def by blast
  then have em: "emitsLockdowns demo_lib demo_locking_node"
    by (simp add: emitsLockdowns_def demo_locking_node_def)
  have f: "e_FilterLogs demo_locking_node q h = Some (Ok logs) \<Longrightarrow> \<forall>lg\<in>set logs. emittedLockdown demo_lib lg" for q h logs
    using e by (auto simp: demo_locking_node_def)
  have b: "e_BlockNumber demo_locking_node (w_hist ?w) = Some (Ok 100)" by (simp add: demo_locking_node_def demo_env_def)
  have m: "tickMark demo_locking_loop 100 50 = 50" "el_MaxBlocksPerTick (el_defaults demo_locking_loop) = 20"
    by (simp_all add: tickMark_def demo_locking_loop_def demo_loop_def el_defaults_def Let_def)
  from emitted_lockdowns_are_lost [OF demo_topics_differ ports(2) wf em run] f
  have "lookupRow (w_rows w') = lookupRow (w_rows ?w) \<and> w_mark w' = windowEnd 51 100 20"
    unfolding b by (auto simp: m)
  moreover have "windowEnd 51 100 20 = 70" by (simp add: windowEnd_def)
  ultimately show ?thesis using run by (auto simp: rowId_def demo_cached_def eventRow_def)
qed

end
