(* ===== verification/Ledger.thy ===== *)
theory Ledger
  imports Spend Listener
begin

text \<open>
  What the authorizer, the spender and the listener together do to the recorded totals of the store
  they share. \<open>accounts rows k rows'\<close>: no authorization disappears, no total decreases, and the
  totals together grow by \<open>k\<close>. Caching, locking and a tick of the listener account for 0, a paid
  spend for its amount.
\<close>

definition accounts :: "rows \<Rightarrow> int \<Rightarrow> rows \<Rightarrow> bool" where
  "accounts rows k rows' \<longleftrightarrow> store_wf rows' \<and> totalSpent rows' = totalSpent rows + k \<and>
     (\<forall>i r. lookupRow rows i = Some r \<longrightarrow> (\<exists>r'. lookupRow rows' i = Some r' \<and> spent r \<le> spent r'))"

definition settled :: "world \<Rightarrow> world \<Rightarrow> bool" where
  "settled w w' \<longleftrightarrow> (store_wf (w_rows w) \<longrightarrow> accounts (w_rows w) 0 (w_rows w'))"

lemma accounts_refl: "store_wf rows \<Longrightarrow> accounts rows 0 rows"
  by (simp add: accounts_def)

lemma accounts_wf: "accounts rows k rows' \<Longrightarrow> store_wf rows'"
  by (simp add: accounts_def)

lemma accounts_trans:
  assumes "accounts a j b" and "accounts b k c"
  shows "accounts a (j + k) c"
  using assms unfolding accounts_def by (metis (no_types, lifting) add.assoc order_trans)

lemma preorder_settled [simp, moves_intros]: "preorder_rel settled"
  unfolding preorder_rel_def settled_def
  using accounts_trans [of _ 0 _ 0] by (auto intro: accounts_refl accounts_wf)

lemma settled_same_rows: "w_rows w' = w_rows w \<Longrightarrow> settled w w'"
  by (simp add: settled_def accounts_refl)

lemma moves_calm_settled: "moves calm m \<Longrightarrow> moves settled m"
  by (auto simp: moves_def calm_def intro: settled_same_rows)

section \<open>Caching and locking\<close>

lemma spent_upserted:
  assumes "spent a = 0"
  shows "spent (upserted old a) = (case old of None \<Rightarrow> 0 | Some r \<Rightarrow> spent r)"
  using assms by (auto simp: upserted_def refreshed_def spent_def orZero_Nil split: option.split)

lemma upsert_accounts:
  assumes wf: "store_wf rows" and a: "readable a" "spent a = 0" and up: "ms_Upsert a rows = (e, rows')"
  shows "accounts rows 0 rows'"
proof -
  let ?i = "rowId a" and ?f = "\<lambda>m j. spent (the (m j :: authorization option))"
  let ?r = "upserted (lookupRow rows ?i) a"
  from ms.upsert_law [OF wf a(1) up] have wf': "store_wf rows'" and l: "lookupRow rows' = (lookupRow rows)(?i \<mapsto> ?r)"
    by simp_all
  have s: "spent ?r = (case lookupRow rows ?i of None \<Rightarrow> 0 | Some r \<Rightarrow> spent r)"
    by (rule spent_upserted [OF a(2)])
  have "totalSpent rows' = totalSpent rows"
  proof (cases "lookupRow rows ?i")
    case None
    then have i: "?i \<notin> dom (lookupRow rows)" by auto
    have "totalSpent rows' = (\<Sum>j\<in>insert ?i (dom (lookupRow rows)). ?f (lookupRow rows') j)"
      unfolding totalSpent_def l by simp
    also have "\<dots> = spent ?r + (\<Sum>j\<in>dom (lookupRow rows). ?f (lookupRow rows') j)"
      using i by (simp add: sum.insert [OF finite_dom_lookup] l)
    also have "(\<Sum>j\<in>dom (lookupRow rows). ?f (lookupRow rows') j) = totalSpent rows"
      unfolding totalSpent_def using i by (intro sum.cong) (auto simp: l)
    finally show ?thesis using s None by simp
  next
    case (Some r)
    have "dom (lookupRow rows') = dom (lookupRow rows)" using l Some by auto
    then show ?thesis
      unfolding totalSpent_def using s Some by (intro sum.cong) (auto simp: l)
  qed
  with wf' s show ?thesis unfolding accounts_def l by auto
qed

lemma lock_accounts:
  assumes "store_wf rows"
  shows "accounts rows 0 (ms_MarkLocked ow ag tk rows)"
  using locked_total_within(1) [OF assms] ms.lock_law [OF assms]
  by (auto simp: accounts_def lockedBy_def spent_def)

lemma fresh_rows [simp]:
  "spent (eventRow ev block) = 0" "spent (cachedRow params sig owner now) = 0"
  by (simp_all add: spent_def eventRow_def cachedRow_def orZero_Nil)

lemma upsert_settled:
  "readable a \<Longrightarrow> spent a = 0 \<Longrightarrow> moves settled (st_Upsert memory_store a)"
  using upsert_accounts [OF _ _ _ prod.collapse [symmetric]]
  by (auto simp: moves_def settled_def memory_store_eval)

lemma lock_settled: "moves settled (st_MarkLocked memory_store ow ag tk)"
  by (auto simp: moves_def settled_def memory_store_eval intro: lock_accounts)

section \<open>The operations\<close>

lemma VerifyAndCache_settled:
  assumes "VerifyAndCache E (Some memory_store) params sigHex owner agent now w = Some (r, w')"
  shows "settled w w'"
proof (cases r)
  case (Ok u)
  from VerifyAndCache_Ok [OF assms [unfolded Ok]] obtain e where
    "st_Upsert memory_store (cachedRow params (normalizeSigHex sigHex) owner now) w = Some (Ok e, w')" by blast
  then show ?thesis using movesD [OF upsert_settled] by force
qed (use VerifyAndCache_not_Ok [OF assms] in \<open>simp_all add: settled_same_rows\<close>)

lemma Tick_settled:
  assumes ports: "loop_ports N l"
  shows "moves settled (Tick E l)"
proof -
  let ?l = "el_defaults l"
  have lp: "loop_ports N ?l" using ports by simp
  have f: "el_RPC ?l = Some (env_rpc N)" "el_Watermark ?l = Some (env_watermark N)" "el_Store ?l = Some memory_store"
    using lp by (simp_all add: loop_ports_def)
  have ap: "moves settled (applyPermit2 E ?l lg)" for lg
    unfolding applyPermit2_def f option.sel
    by (intro moves_intros upsert_settled lock_settled) simp_all
  have tt: "moves settled (tickTransfers E ?l a b)" for a b
    by (rule moves_calm_settled [OF tickTransfers_calm [OF lp]])
  have rows: "moves (same w_rows) (wm_Get (env_watermark N))" "moves (same w_rows) (wm_Set (env_watermark N) b)" for b
    by (auto simp: env_watermark_def moves_def same_def io_bind_Some_iff ask_Some_iff)
  then have wm: "moves settled (wm_Get (env_watermark N))" "moves settled (wm_Set (env_watermark N) b)" for b
    by (auto simp: moves_def same_def intro: settled_same_rows)
  show ?thesis
    unfolding Tick_def tickWindow_def Let_def f option.sel
    by (intro moves_intros ap tt wm moves_calm_settled [OF env_rpc_calm(2)] moves_calm_settled [OF env_rpc_calm(3)])
qed

lemma booked_accounts:
  assumes b: "booked rows row amount rows'" and "0 < amount"
  shows "accounts rows amount rows'"
proof -
  have l: "lookupRow rows (rowId row) = Some row" "lookupRow rows' = (lookupRow rows)(rowId row \<mapsto> bumped row amount)"
    and wf: "store_wf rows'" using b by (simp_all add: booked_def)
  with assms(2) booked_total [OF b] show ?thesis
    by (auto simp: accounts_def ms.spent_bumped)
qed

lemma Spend_Ok_accounts:
  assumes "spend_ports N s" and "honest_signer s" and "store_wf (w_rows w)"
    and "Spend E (env_runtime N) (Some s) (Some amount) now w = Some (Ok res, w')"
  shows "accounts (w_rows w) amount (w_rows w')"
proof -
  from Spend_Ok_outcome [OF assms] obtain "0 < amount" "spent_ok E s amount now w (Ok res) w'" by auto
  moreover from this obtain row where "booked (w_rows w) row amount (w_rows w')"
    unfolding spent_ok_def by blast
  ultimately show ?thesis by (intro booked_accounts)
qed

lemma Spend_Err_settled:
  assumes "spend_ports N s" and "honest_signer s"
    and "Spend E (env_runtime N) (Some s) amt now w = Some (Err e, w')"
  shows "settled w w'"
  unfolding settled_def
  using Spend_Err_calm [OF assms(1,2) _ assms(3)] by (simp add: calm_def accounts_refl)

end
