(* ===== verification/GoCrypto.thy ===== *)
theory GoCrypto
  imports GoBig
begin

text \<open>
  The standard-library functions the passkey path and the service use: SHA-256 (\<open>crypto/sha256\<close>),
  the unpadded URL-safe base64 decoder (\<open>encoding/base64\<close>), the part of the DER decoder
  (\<open>encoding/asn1\<close>) that reads a structure of two integers, and P-256 (\<open>crypto/elliptic\<close>,
  \<open>crypto/ecdsa\<close>). They are written out, so that what the program computes with them can be
  evaluated; \<open>sha256_abc\<close> checks the hash on the standard's test vector.
\<close>

unbundle bit_operations_syntax

section \<open>SHA-256\<close>

definition sha_K :: "u32 list" where
  "sha_K =
    [0x428a2f98, 0x71374491, 0xb5c0fbcf, 0xe9b5dba5, 0x3956c25b, 0x59f111f1, 0x923f82a4, 0xab1c5ed5,
     0xd807aa98, 0x12835b01, 0x243185be, 0x550c7dc3, 0x72be5d74, 0x80deb1fe, 0x9bdc06a7, 0xc19bf174,
     0xe49b69c1, 0xefbe4786, 0x0fc19dc6, 0x240ca1cc, 0x2de92c6f, 0x4a7484aa, 0x5cb0a9dc, 0x76f988da,
     0x983e5152, 0xa831c66d, 0xb00327c8, 0xbf597fc7, 0xc6e00bf3, 0xd5a79147, 0x06ca6351, 0x14292967,
     0x27b70a85, 0x2e1b2138, 0x4d2c6dfc, 0x53380d13, 0x650a7354, 0x766a0abb, 0x81c2c92e, 0x92722c85,
     0xa2bfe8a1, 0xa81a664b, 0xc24b8b70, 0xc76c51a3, 0xd192e819, 0xd6990624, 0xf40e3585, 0x106aa070,
     0x19a4c116, 0x1e376c08, 0x2748774c, 0x34b0bcb5, 0x391c0cb3, 0x4ed8aa4a, 0x5b9cca4f, 0x682e6ff3,
     0x748f82ee, 0x78a5636f, 0x84c87814, 0x8cc70208, 0x90befffa, 0xa4506ceb, 0xbef9a3f7, 0xc67178f2]"

definition sha_H0 :: "u32 list" where
  "sha_H0 = [0x6a09e667, 0xbb67ae85, 0x3c6ef372, 0xa54ff53a, 0x510e527f, 0x9b05688c, 0x1f83d9ab, 0x5be0cd19]"

definition rotr :: "nat \<Rightarrow> u32 \<Rightarrow> u32" where
  "rotr n x = drop_bit n x OR push_bit (32 - n) x"

definition word32 :: "bytes \<Rightarrow> u32" where
  "word32 b = foldl (\<lambda>a x. push_bit 8 a OR ucast x) 0 b"

definition bytes32 :: "u32 \<Rightarrow> bytes" where
  "bytes32 w = [ucast (drop_bit 24 w), ucast (drop_bit 16 w), ucast (drop_bit 8 w), ucast w]"

fun sha_words :: "nat \<Rightarrow> bytes \<Rightarrow> u32 list" where
  "sha_words 0 b = []"
| "sha_words (Suc n) b = word32 (take 4 b) # sha_words n (drop 4 b)"

text \<open>The message schedule, newest word first.\<close>

fun sha_extend :: "nat \<Rightarrow> u32 list \<Rightarrow> u32 list" where
  "sha_extend 0 ws = ws"
| "sha_extend (Suc n) ws =
     (let w2 = ws ! 1; w7 = ws ! 6; w15 = ws ! 14; w16 = ws ! 15;
          s1 = rotr 17 w2 XOR rotr 19 w2 XOR drop_bit 10 w2;
          s0 = rotr 7 w15 XOR rotr 18 w15 XOR drop_bit 3 w15 in
      sha_extend n ((s1 + w7 + s0 + w16) # ws))"

type_synonym sha_state = "u32 \<times> u32 \<times> u32 \<times> u32 \<times> u32 \<times> u32 \<times> u32 \<times> u32"

fun sha_round :: "sha_state \<Rightarrow> u32 \<times> u32 \<Rightarrow> sha_state" where
  "sha_round (a, b, c, d, e, f, g, h) (k, w) =
     (let t1 = h + (rotr 6 e XOR rotr 11 e XOR rotr 25 e) + ((e AND f) XOR (NOT e AND g)) + k + w;
          t2 = (rotr 2 a XOR rotr 13 a XOR rotr 22 a) + ((a AND b) XOR (a AND c) XOR (b AND c)) in
      (t1 + t2, a, b, c, d + t1, e, f, g))"

definition sha_block :: "u32 list \<Rightarrow> bytes \<Rightarrow> u32 list" where
  "sha_block H blk =
     (let ws = rev (sha_extend 48 (rev (sha_words 16 blk)));
          (a, b, c, d, e, f, g, h) =
            foldl sha_round (H ! 0, H ! 1, H ! 2, H ! 3, H ! 4, H ! 5, H ! 6, H ! 7) (zip sha_K ws) in
      [H ! 0 + a, H ! 1 + b, H ! 2 + c, H ! 3 + d, H ! 4 + e, H ! 5 + f, H ! 6 + g, H ! 7 + h])"

definition sha_pad :: "bytes \<Rightarrow> bytes" where
  "sha_pad m =
     m @ [0x80] @ replicate ((119 - length m mod 64) mod 64) 0 @ beBytes 8 (8 * length m)"

fun sha_blocks :: "nat \<Rightarrow> u32 list \<Rightarrow> bytes \<Rightarrow> u32 list" where
  "sha_blocks 0 H m = H"
| "sha_blocks (Suc n) H m = sha_blocks n (sha_block H (take 64 m)) (drop 64 m)"

definition sha256 :: "bytes \<Rightarrow> bytes" where
  "sha256 m =
     (let p = sha_pad m in
      concat (map bytes32 (sha_blocks (length p div 64) sha_H0 p)))"

lemma sha_pad_blocks: "64 dvd length (sha_pad m)"
proof -
  have "(l + 1 + (119 - l mod 64) mod 64 + 8) mod 64 = 0" for l :: nat
  proof -
    obtain r where r_def: "r = l mod 64" by blast
    have r: "r < 64" by (simp add: r_def)
    have m: "(119 - r) mod 64 = (if r < 56 then 55 - r else 119 - r)"
      using r by (auto simp: mod_if)
    have "(l + 1 + (119 - r) mod 64 + 8) mod 64 = (r + (9 + (119 - r) mod 64)) mod 64"
      unfolding r_def mod_add_left_eq by (rule arg_cong [where f = "\<lambda>n. n mod 64"]) simp
    also have "r + (9 + (119 - r) mod 64) = (if r < 56 then 64 else 128)"
      using r by (simp add: m)
    also have "(if r < 56 then 64 else 128) mod 64 = (0 :: nat)" by simp
    finally show ?thesis unfolding r_def .
  qed
  moreover have "length (sha_pad m) = length m + 1 + (119 - length m mod 64) mod 64 + 8"
    by (simp only: sha_pad_def length_append length_replicate length_beBytes list.size)
  ultimately show ?thesis by (simp only: dvd_eq_mod_eq_0)
qed

lemma length_sha_block [simp]: "length (sha_block H b) = 8"
  by (simp add: sha_block_def Let_def split: prod.split)

lemma length_sha_blocks: "length H = 8 \<Longrightarrow> length (sha_blocks n H m) = 8"
  by (induction n arbitrary: H m) simp_all

lemma length_sha256 [simp]: "length (sha256 m) = 32"
proof -
  have "length (concat (map bytes32 ws)) = 4 * length ws" for ws
    by (induction ws) (simp_all add: bytes32_def)
  moreover have "length (sha_blocks n sha_H0 p) = 8" for n p
    by (rule length_sha_blocks) (simp add: sha_H0_def)
  ultimately show ?thesis by (simp add: sha256_def Let_def)
qed

section \<open>base64.RawURLEncoding\<close>

definition b64Val :: "char \<Rightarrow> nat option" where
  "b64Val c =
     (let n = code c in
      if 65 \<le> n \<and> n \<le> 90 then Some (n - 65)
      else if 97 \<le> n \<and> n \<le> 122 then Some (n - 71)
      else if 48 \<le> n \<and> n \<le> 57 then Some (n + 4)
      else if n = 45 then Some 62
      else if n = 95 then Some 63
      else None)"

definition b64Error :: "bytes res" where
  "b64Error = Err (External ''illegal base64 data'')"

fun b64Groups :: "nat list \<Rightarrow> bytes res" where
  "b64Groups (a # b # c # d # r) =
     res_bind (b64Groups r) (\<lambda>bs.
       Ok (beBytes 3 (a * 262144 + b * 4096 + c * 64 + d) @ bs))"
| "b64Groups [a, b, c] = Ok (beBytes 2 ((a * 262144 + b * 4096 + c * 64) div 256))"
| "b64Groups [a, b] = Ok (beBytes 1 ((a * 262144 + b * 4096) div 65536))"
| "b64Groups [a] = b64Error"
| "b64Groups [] = Ok []"

text \<open>Line breaks are skipped; any other character outside the alphabet is an error.\<close>

definition b64Decode :: "string \<Rightarrow> bytes res" where
  "b64Decode s =
     (let vs = map b64Val (filter (\<lambda>c. code c \<noteq> 10 \<and> code c \<noteq> 13) s) in
      if None \<in> set vs then b64Error else b64Groups (map the vs))"

section \<open>DER\<close>

definition derError :: "string \<Rightarrow> 'a res" where
  "derError s = Err (External s)"

text \<open>The length octets: short form, or the minimal long form below \<open>2^31\<close>.\<close>

fun derLongLength :: "nat \<Rightarrow> nat \<Rightarrow> bytes \<Rightarrow> (nat \<times> bytes) res" where
  "derLongLength 0 len b = (if len < 128 then derError ''non-minimal length'' else Ok (len, b))"
| "derLongLength (Suc n) len [] = derError ''truncated tag or length''"
| "derLongLength (Suc n) len (x # b) =
     (if len \<ge> 2 ^ 23 then derError ''length too large''
      else
        let len' = len * 256 + unat x in
        if len' = 0 then derError ''superfluous leading zeros in length''
        else derLongLength n len' b)"

definition derLength :: "bytes \<Rightarrow> (nat \<times> bytes) res" where
  "derLength b =
     (case b of
        [] \<Rightarrow> derError ''truncated tag or length''
      | x # r \<Rightarrow>
          if unat x < 128 then Ok (unat x, r)
          else if unat x = 128 then derError ''indefinite length found (not DER)''
          else derLongLength (unat x - 128) 0 r)"

text \<open>An element with the expected identifier octet: its contents and what follows.\<close>

definition derElement :: "byte \<Rightarrow> bytes \<Rightarrow> (bytes \<times> bytes) res" where
  "derElement tag b =
     (case b of
        [] \<Rightarrow> derError ''sequence truncated''
      | t # r \<Rightarrow>
          res_bind (derLength r) (\<lambda>(len, c).
          if t \<noteq> tag then derError ''tags don't match''
          else if length c < len then derError ''data truncated''
          else Ok (take len c, drop len c)))"

text \<open>The contents of an INTEGER: non-empty, minimal, two's complement.\<close>

definition derInteger :: "bytes \<Rightarrow> int res" where
  "derInteger c =
     (case c of
        [] \<Rightarrow> derError ''empty integer''
      | [x] \<Rightarrow> Ok (if unat x < 128 then int (beNat c) else int (beNat c) - 256)
      | x # y # _ \<Rightarrow>
          if x = 0 \<and> unat y < 128 \<or> x = 255 \<and> unat y \<ge> 128 then
            derError ''integer not minimally-encoded''
          else Ok (if unat x < 128 then int (beNat c) else int (beNat c) - 256 ^ length c))"

text \<open>
  \<open>asn1.Unmarshal\<close> into a structure of two integers: extra bytes inside the SEQUENCE are ignored,
  the bytes after it are returned.
\<close>

definition derTwoIntegers :: "bytes \<Rightarrow> ((int \<times> int) \<times> bytes) res" where
  "derTwoIntegers b =
     res_bind (derElement 0x30 b) (\<lambda>(body, rest).
     res_bind (derElement 0x02 body) (\<lambda>(rc, body').
     res_bind (derInteger rc) (\<lambda>r.
     res_bind (derElement 0x02 body') (\<lambda>(sc, _).
     res_bind (derInteger sc) (\<lambda>s.
     Ok ((r, s), rest))))))"

section \<open>P-256\<close>

definition p256_P :: int where
  "p256_P = 0xffffffff00000001000000000000000000000000ffffffffffffffffffffffff"

definition p256N :: int where
  "p256N = 0xffffffff00000000ffffffffffffffffbce6faada7179e84f3b9cac2fc632551"

definition p256_B :: int where
  "p256_B = 0x5ac635d8aa3a93e7b3ebbd55769886bc651d06b0cc53b0f63bce3c3e27d2604b"

definition p256_G :: "int \<times> int" where
  "p256_G =
    (0x6b17d1f2e12c4247f8bce6e563a440f277037d812deb33a0f4a13945d898c296,
     0x4fe342e2fe1a7f9b8ee7eb4a7c0f9e162bce33576b315ececbb6406837bf51f5)"

text \<open>\<open>IsOnCurve\<close>: coordinates in range, and the curve equation; \<open>(0, 0)\<close> does not satisfy it.\<close>

definition isOnCurve :: "int \<Rightarrow> int \<Rightarrow> bool" where
  "isOnCurve x y \<longleftrightarrow> 0 \<le> x \<and> x < p256_P \<and> 0 \<le> y \<and> y < p256_P \<and>
     (y * y) mod p256_P = (x * x * x - 3 * x + p256_B) mod p256_P"

text \<open>Modular powers by squaring; the inverse modulo a prime is the power \<open>m - 2\<close>.\<close>

function modPow :: "int \<Rightarrow> nat \<Rightarrow> int \<Rightarrow> int" where
  "modPow b e m =
     (if e = 0 then 1 mod m
      else let h = modPow (b * b mod m) (e div 2) m in if even e then h else h * b mod m)"
  by pat_completeness auto
termination by (relation "measure (\<lambda>(b, e, m). e)") auto

declare modPow.simps [simp del]

definition modInv :: "int \<Rightarrow> int \<Rightarrow> int" where
  "modInv a m = modPow (a mod m) (nat (m - 2)) m"

text \<open>Affine points, with \<open>None\<close> the point at infinity.\<close>

type_synonym point = "(int \<times> int) option"

definition ecAdd :: "point \<Rightarrow> point \<Rightarrow> point" where
  "ecAdd P Q =
     (case (P, Q) of
        (None, _) \<Rightarrow> Q
      | (_, None) \<Rightarrow> P
      | (Some (x1, y1), Some (x2, y2)) \<Rightarrow>
          if x1 = x2 \<and> (y1 + y2) mod p256_P = 0 then None
          else
            let l = (if x1 = x2 then (3 * x1 * x1 - 3) * modInv (2 * y1) p256_P
                     else (y2 - y1) * modInv (x2 - x1) p256_P) mod p256_P;
                x3 = (l * l - x1 - x2) mod p256_P in
            Some (x3, (l * (x1 - x3) - y1) mod p256_P))"

function ecMul :: "nat \<Rightarrow> point \<Rightarrow> point" where
  "ecMul k P =
     (if k = 0 then None
      else let h = ecMul (k div 2) (ecAdd P P) in if even k then h else ecAdd h P)"
  by pat_completeness auto
termination by (relation "measure (\<lambda>(k, P). k)") auto

declare ecMul.simps [simp del]

text \<open>\<open>ecdsa.Verify\<close> on P-256: the leftmost 32 bytes of the digest count.\<close>

definition ecdsaVerify :: "int \<times> int \<Rightarrow> bytes \<Rightarrow> int \<Rightarrow> int \<Rightarrow> bool" where
  "ecdsaVerify Q digest r s \<longleftrightarrow>
     0 < r \<and> r < p256N \<and> 0 < s \<and> s < p256N \<and>
     (let e = int (beNat (take 32 digest)); w = modInv s p256N;
          u1 = e * w mod p256N; u2 = r * w mod p256N in
      case ecAdd (ecMul (nat u1) (Some p256_G)) (ecMul (nat u2) (Some Q)) of
        None \<Rightarrow> False
      | Some (x, y) \<Rightarrow> x mod p256N = r)"

section \<open>The standard's test vector\<close>

lemma sha256_abc:
  "sha256 [0x61, 0x62, 0x63] =
    [0xba, 0x78, 0x16, 0xbf, 0x8f, 0x01, 0xcf, 0xea, 0x41, 0x41, 0x40, 0xde, 0x5d, 0xae, 0x22, 0x23,
     0xb0, 0x03, 0x61, 0xa3, 0x96, 0x17, 0x7a, 0x9c, 0xb4, 0x10, 0xff, 0x61, 0xf2, 0x00, 0x15, 0xad]"
  by code_simp

end
