(* ===== verification/GoJson.thy ===== *)
theory GoJson
  imports GoBig
begin

text \<open>
  Go's \<open>encoding/json\<close>, as far as the program uses it: reading a JSON text (\<open>Decoder.Decode\<close>
  takes the first value of a stream, \<open>Unmarshal\<close> the whole text), and storing a value into the
  fields of a structure. Reading follows the scanner of the package: white space, the number
  grammar, escapes and surrogate pairs, the replacement of invalid UTF-8, and its nesting limit.

  Storing follows the package's rules: member names match a field up to case, later members win,
  \<open>null\<close> leaves a scalar as it was, unknown members are skipped, and a value of another kind or out
  of the field's range makes the call return an error. A slice keeps its backing array
  between the members that are stored into it.
\<close>

section \<open>Values\<close>

datatype json =
    JNull | JBool bool | JNum string | JStr string | JArr "json list" | JObj "(string \<times> json) list"

section \<open>Strings\<close>

text \<open>The UTF-8 form of a code point, and the length of the well-formed sequence at the front.\<close>

definition utf8Encode :: "nat \<Rightarrow> string" where
  "utf8Encode n =
     (if n < 0x80 then [char_of n]
      else if n < 0x800 then [char_of (0xC0 + n div 64), char_of (0x80 + n mod 64)]
      else if n < 0x10000 then
        [char_of (0xE0 + n div 4096), char_of (0x80 + n div 64 mod 64), char_of (0x80 + n mod 64)]
      else
        [char_of (0xF0 + n div 262144), char_of (0x80 + n div 4096 mod 64),
         char_of (0x80 + n div 64 mod 64), char_of (0x80 + n mod 64)])"

definition replacementChar :: string where
  "replacementChar = utf8Encode 0xFFFD"

definition contByte :: "nat \<Rightarrow> nat \<Rightarrow> char \<Rightarrow> bool" where
  "contByte lo hi c \<longleftrightarrow> lo \<le> code c \<and> code c \<le> hi"

definition utf8Len :: "string \<Rightarrow> nat" where
  "utf8Len s =
     (case s of
        [] \<Rightarrow> 0
      | a # r \<Rightarrow>
          if code a < 0x80 then 1
          else if 0xC2 \<le> code a \<and> code a \<le> 0xDF then
            (case r of b # _ \<Rightarrow> if contByte 0x80 0xBF b then 2 else 0 | _ \<Rightarrow> 0)
          else if 0xE0 \<le> code a \<and> code a \<le> 0xEF then
            (case r of
               b # c # _ \<Rightarrow>
                 if contByte (if code a = 0xE0 then 0xA0 else 0x80) (if code a = 0xED then 0x9F else 0xBF) b
                    \<and> contByte 0x80 0xBF c then 3 else 0
             | _ \<Rightarrow> 0)
          else if 0xF0 \<le> code a \<and> code a \<le> 0xF4 then
            (case r of
               b # c # d # _ \<Rightarrow>
                 if contByte (if code a = 0xF0 then 0x90 else 0x80) (if code a = 0xF4 then 0x8F else 0xBF) b
                    \<and> contByte 0x80 0xBF c \<and> contByte 0x80 0xBF d then 4 else 0
             | _ \<Rightarrow> 0)
          else 0)"

definition hex4 :: "string \<Rightarrow> (nat \<times> string) option" where
  "hex4 s =
     (case s of
        a # b # c # d # r \<Rightarrow>
          (case (hexVal a, hexVal b, hexVal c, hexVal d) of
             (Some x, Some y, Some z, Some w) \<Rightarrow> Some (x * 4096 + y * 256 + z * 16 + w, r)
           | _ \<Rightarrow> None)
      | _ \<Rightarrow> None)"

text \<open>What follows a backslash.\<close>

definition lowSurrogate :: "string \<Rightarrow> (nat \<times> string) option" where
  "lowSurrogate s =
     (case s of
        a # b # r \<Rightarrow>
          if a = CHR 0x5C \<and> b = CHR ''u'' then
            (case hex4 r of
               Some (v, q) \<Rightarrow> if 0xDC00 \<le> v \<and> v < 0xE000 then Some (v, q) else None
             | None \<Rightarrow> None)
          else None
      | _ \<Rightarrow> None)"

definition jsonEscape :: "string \<Rightarrow> (string \<times> string) option" where
  "jsonEscape s =
     (case s of
        [] \<Rightarrow> None
      | c # r \<Rightarrow>
          if c = CHR 0x22 \<or> c = CHR 0x5C \<or> c = CHR ''/'' then Some ([c], r)
          else if c = CHR ''b'' then Some ([char_of (8 :: nat)], r)
          else if c = CHR ''f'' then Some ([char_of (12 :: nat)], r)
          else if c = CHR ''n'' then Some ([char_of (10 :: nat)], r)
          else if c = CHR ''r'' then Some ([char_of (13 :: nat)], r)
          else if c = CHR ''t'' then Some ([char_of (9 :: nat)], r)
          else if c = CHR ''u'' then
            (case hex4 r of
               None \<Rightarrow> None
             | Some (v, q) \<Rightarrow>
                 if 0xD800 \<le> v \<and> v < 0xDC00 then
                   (case lowSurrogate q of
                      Some (l, q') \<Rightarrow> Some (utf8Encode (0x10000 + (v - 0xD800) * 1024 + (l - 0xDC00)), q')
                    | None \<Rightarrow> Some (replacementChar, q))
                 else if 0xDC00 \<le> v \<and> v < 0xE000 then Some (replacementChar, q)
                 else Some (utf8Encode v, q))
          else None)"

lemma hex4_length: "hex4 s = Some (v, r) \<Longrightarrow> length r < length s"
  by (auto simp: hex4_def split: list.splits option.splits)

lemma lowSurrogate_length: "lowSurrogate s = Some (v, r) \<Longrightarrow> length r < length s"
  by (auto simp: lowSurrogate_def dest!: hex4_length split: list.splits option.splits if_splits)

lemma jsonEscape_length: "jsonEscape s = Some (t, r) \<Longrightarrow> length r < length s"
  by (auto simp: jsonEscape_def dest!: hex4_length lowSurrogate_length
      split: list.splits option.splits if_splits)

text \<open>The characters of a string literal after its opening quote, and the rest of the text.\<close>

definition consString :: "string \<Rightarrow> (string \<times> string) option \<Rightarrow> (string \<times> string) option" where
  "consString t p = map_option (\<lambda>(u, q). (t @ u, q)) p"

function jsonString :: "string \<Rightarrow> (string \<times> string) option" where
  "jsonString [] = None"
| "jsonString (c # r) =
     (if c = CHR 0x22 then Some ([], r)
      else if code c < 32 then None
      else if c = CHR 0x5C then
        (case jsonEscape r of None \<Rightarrow> None | Some (t, q) \<Rightarrow> consString t (jsonString q))
      else if utf8Len (c # r) = 0 then consString replacementChar (jsonString r)
      else consString (take (utf8Len (c # r)) (c # r)) (jsonString (drop (utf8Len (c # r) - 1) r)))"
  by pat_completeness auto
termination by (relation "measure length") (auto dest: jsonEscape_length)

lemma jsonString_length: "jsonString s = Some (t, r) \<Longrightarrow> length r < length s"
proof (induction s arbitrary: t r rule: jsonString.induct)
  case (2 c s)
  show ?case
  proof (cases "c = CHR 0x22 \<or> code c < 32")
    case True
    with "2.prems" show ?thesis by (auto split: if_splits)
  next
    case False
    obtain q u where q: "jsonString q = Some (u, r)" and le: "length q \<le> length s"
      and ih: "\<And>t r. jsonString q = Some (t, r) \<Longrightarrow> length r < length q"
    proof (cases "c = CHR 0x5C")
      case True
      with False "2.prems" obtain x q u where "jsonEscape s = Some (x, q)" "jsonString q = Some (u, r)"
        by (auto simp: consString_def split: option.splits)
      with True False "2.IH"(1) jsonEscape_length [of s x q] show ?thesis by (intro that) auto
    next
      case bs: False
      show ?thesis
      proof (cases "utf8Len (c # s) = 0")
        case True
        with bs False "2.prems" obtain u where "jsonString s = Some (u, r)"
          by (auto simp: consString_def)
        with True bs False "2.IH"(2) show ?thesis by (intro that [of s]) auto
      next
        case u: False
        with bs False "2.prems" obtain u where "jsonString (drop (utf8Len (c # s) - 1) s) = Some (u, r)"
          by (auto simp: consString_def)
        with u bs False "2.IH"(3) show ?thesis by (intro that [of "drop (utf8Len (c # s) - 1) s"]) auto
      qed
    qed
    from ih [OF q] le show ?thesis by simp
  qed
qed simp

declare jsonString.simps [simp del]

section \<open>Tokens\<close>

definition jsonSpace :: "char \<Rightarrow> bool" where
  "jsonSpace c \<longleftrightarrow> code c \<in> {9, 10, 13, 32}"

text \<open>A number: sign, integer part without leading zeros, fraction, exponent.\<close>

definition numInt :: "string \<Rightarrow> (string \<times> string) option" where
  "numInt s =
     (case s of
        [] \<Rightarrow> None
      | c # r \<Rightarrow>
          if c = CHR ''0'' then Some ([c], r)
          else if isDigit c then Some (takeWhile isDigit s, dropWhile isDigit s)
          else None)"

definition numDigits :: "string \<Rightarrow> string \<Rightarrow> (string \<times> string) option" where
  "numDigits p s = (if takeWhile isDigit s = [] then None else Some (p @ takeWhile isDigit s, dropWhile isDigit s))"

definition numFrac :: "string \<Rightarrow> (string \<times> string) option" where
  "numFrac s = (case s of c # r \<Rightarrow> if c = CHR ''.'' then numDigits [c] r else Some ([], s) | [] \<Rightarrow> Some ([], s))"

definition numExp :: "string \<Rightarrow> (string \<times> string) option" where
  "numExp s =
     (case s of
        c # r \<Rightarrow>
          if c = CHR ''e'' \<or> c = CHR ''E'' then
            (case r of
               d # q \<Rightarrow> if d = CHR ''+'' \<or> d = CHR ''-'' then numDigits [c, d] q else numDigits [c] r
             | [] \<Rightarrow> None)
          else Some ([], s)
      | [] \<Rightarrow> Some ([], s))"

definition jsonNumber :: "string \<Rightarrow> (string \<times> string) option" where
  "jsonNumber s =
     (let (sg, s1) = (if hasPrefix s ''-'' then (''-'', drop 1 s) else ([], s)) in
      case numInt s1 of None \<Rightarrow> None
      | Some (i, s2) \<Rightarrow>
          (case numFrac s2 of None \<Rightarrow> None
           | Some (f, s3) \<Rightarrow>
               (case numExp s3 of None \<Rightarrow> None | Some (e, s4) \<Rightarrow> Some (sg @ i @ f @ e, s4))))"

datatype token = TkArr | TkArrEnd | TkObj | TkObjEnd | TkComma | TkColon | TkVal json

definition jsonToken :: "string \<Rightarrow> (token \<times> string) option" where
  "jsonToken s0 =
     (case dropWhile jsonSpace s0 of
        [] \<Rightarrow> None
      | c # r \<Rightarrow>
          if c = CHR ''['' then Some (TkArr, r)
          else if c = CHR '']'' then Some (TkArrEnd, r)
          else if c = CHR ''{'' then Some (TkObj, r)
          else if c = CHR ''}'' then Some (TkObjEnd, r)
          else if c = CHR '','' then Some (TkComma, r)
          else if c = CHR '':'' then Some (TkColon, r)
          else if c = CHR 0x22 then map_option (\<lambda>(t, q). (TkVal (JStr t), q)) (jsonString r)
          else if hasPrefix (c # r) ''null'' then Some (TkVal JNull, drop 3 r)
          else if hasPrefix (c # r) ''true'' then Some (TkVal (JBool True), drop 3 r)
          else if hasPrefix (c # r) ''false'' then Some (TkVal (JBool False), drop 4 r)
          else map_option (\<lambda>(t, q). (TkVal (JNum t), q)) (jsonNumber (c # r)))"

lemma dropWhile_le: "length (dropWhile P s) \<le> length s"
  by (rule length_dropWhile_le)

lemma numInt_length: "numInt s = Some (t, r) \<Longrightarrow> length r < length s"
  using dropWhile_le [of isDigit "tl s"] by (auto simp: numInt_def split: list.splits if_splits)

lemma numDigits_length: "numDigits p s = Some (t, r) \<Longrightarrow> length r \<le> length s"
  using dropWhile_le [of isDigit s] by (auto simp: numDigits_def split: if_splits)

lemma numFrac_length: "numFrac s = Some (t, r) \<Longrightarrow> length r \<le> length s"
  by (auto simp: numFrac_def dest: numDigits_length split: list.splits if_splits)

lemma numExp_length: "numExp s = Some (t, r) \<Longrightarrow> length r \<le> length s"
  by (auto simp: numExp_def dest: numDigits_length split: list.splits if_splits)

lemma jsonNumber_length: "jsonNumber s = Some (t, r) \<Longrightarrow> length r < length s"
  by (auto simp: jsonNumber_def Let_def dest!: numInt_length numFrac_length numExp_length
      split: option.splits if_splits) linarith+

lemma jsonToken_length:
  assumes "jsonToken s = Some (t, r)"
  shows "length r < length s"
proof (cases "dropWhile jsonSpace s")
  case Nil
  with assms show ?thesis by (simp add: jsonToken_def)
next
  case (Cons c q)
  then have "Suc (length q) \<le> length s" using dropWhile_le [of jsonSpace s] by simp
  moreover have "length r \<le> length q"
    using assms Cons
    by (auto simp: jsonToken_def dest!: jsonString_length jsonNumber_length split: if_splits)
  ultimately show ?thesis by simp
qed

section \<open>Values of a text\<close>

text \<open>The open arrays and objects, innermost first, and what the scanner expects next.\<close>

datatype frame = InArr "json list" | InObj "(string \<times> json) list" string

datatype want = WValue | WFirst | WKey bool | WColon | WMore

datatype outcome = Stop | Done json | Go "frame list" want

definition maxNestingDepth :: nat where
  "maxNestingDepth = 10000"

fun putValue :: "frame list \<Rightarrow> json \<Rightarrow> outcome" where
  "putValue [] v = Done v"
| "putValue (InArr vs # st) v = Go (InArr (vs @ [v]) # st) WMore"
| "putValue (InObj ms k # st) v = Go (InObj (ms @ [(k, v)]) k # st) WMore"

definition pushFrame :: "frame \<Rightarrow> want \<Rightarrow> frame list \<Rightarrow> outcome" where
  "pushFrame f w st = (if length st < maxNestingDepth then Go (f # st) w else Stop)"

fun jsonStep :: "frame list \<Rightarrow> want \<Rightarrow> token \<Rightarrow> outcome" where
  "jsonStep st WValue (TkVal v) = putValue st v"
| "jsonStep st WValue TkArr = pushFrame (InArr []) WFirst st"
| "jsonStep st WValue TkObj = pushFrame (InObj [] []) (WKey True) st"
| "jsonStep st WFirst (TkVal v) = putValue st v"
| "jsonStep st WFirst TkArr = pushFrame (InArr []) WFirst st"
| "jsonStep st WFirst TkObj = pushFrame (InObj [] []) (WKey True) st"
| "jsonStep (InArr vs # st) WFirst TkArrEnd = putValue st (JArr vs)"
| "jsonStep (InObj ms k # st) (WKey b) (TkVal (JStr s)) = Go (InObj ms s # st) WColon"
| "jsonStep (InObj ms k # st) (WKey True) TkObjEnd = putValue st (JObj ms)"
| "jsonStep st WColon TkColon = Go st WValue"
| "jsonStep (InArr vs # st) WMore TkComma = Go (InArr vs # st) WValue"
| "jsonStep (InArr vs # st) WMore TkArrEnd = putValue st (JArr vs)"
| "jsonStep (InObj ms k # st) WMore TkComma = Go (InObj ms k # st) (WKey False)"
| "jsonStep (InObj ms k # st) WMore TkObjEnd = putValue st (JObj ms)"
| "jsonStep _ _ _ = Stop"

function jsonRun :: "frame list \<Rightarrow> want \<Rightarrow> string \<Rightarrow> (json \<times> string) option" where
  "jsonRun st w s =
     (case jsonToken s of
        None \<Rightarrow> None
      | Some (t, r) \<Rightarrow>
          (case jsonStep st w t of Stop \<Rightarrow> None | Done v \<Rightarrow> Some (v, r) | Go st' w' \<Rightarrow> jsonRun st' w' r))"
  by pat_completeness auto
termination by (relation "measure (\<lambda>(st, w, s). length s)") (auto dest: jsonToken_length)

declare jsonRun.simps [simp del]

definition jsonError :: "'a res" where
  "jsonError = Err (External ''json'')"

text \<open>\<open>json.NewDecoder(r).Decode\<close> and \<open>json.Unmarshal\<close>, up to the value read.\<close>

definition jsonDecode :: "string \<Rightarrow> json res" where
  "jsonDecode s = (case jsonRun [] WValue s of None \<Rightarrow> jsonError | Some (v, _) \<Rightarrow> Ok v)"

definition jsonUnmarshal :: "string \<Rightarrow> json res" where
  "jsonUnmarshal s =
     (case jsonRun [] WValue s of
        None \<Rightarrow> jsonError
      | Some (v, r) \<Rightarrow> if dropWhile jsonSpace r = [] then Ok v else jsonError)"

section \<open>Storing into fields\<close>

text \<open>
  Names are compared up to case. The letters k and s have one more variant each (the Kelvin sign
  and the long s); no other rune folds to an ASCII letter.
\<close>

fun foldName :: "string \<Rightarrow> string" where
  "foldName (a # b # c # s) =
     (if code a = 0xE2 \<and> code b = 0x84 \<and> code c = 0xAA then CHR ''k'' # foldName s
      else if code a = 0xC5 \<and> code b = 0xBF then CHR ''s'' # foldName (c # s)
      else lowerChar a # foldName (b # c # s))"
| "foldName [a, b] = (if code a = 0xC5 \<and> code b = 0xBF then ''s'' else [lowerChar a, lowerChar b])"
| "foldName [a] = [lowerChar a]"
| "foldName [] = []"

text \<open>The value a field has after the members of an object are stored, in their order.\<close>

fun jsonField :: "string \<Rightarrow> (json \<Rightarrow> 'a \<Rightarrow> 'a res) \<Rightarrow> (string \<times> json) list \<Rightarrow> 'a \<Rightarrow> 'a res" where
  "jsonField name put [] x = Ok x"
| "jsonField name put ((k, v) # ms) x =
     (if foldName k = foldName name then res_bind (put v x) (jsonField name put ms)
      else jsonField name put ms x)"

text \<open>The members of a value stored into a structure: \<open>null\<close> stores nothing.\<close>

definition jsonMembers :: "json \<Rightarrow> (string \<times> json) list res" where
  "jsonMembers j = (case j of JNull \<Rightarrow> Ok [] | JObj ms \<Rightarrow> Ok ms | _ \<Rightarrow> jsonError)"

definition putString :: "json \<Rightarrow> string \<Rightarrow> string res" where
  "putString j x = (case j of JNull \<Rightarrow> Ok x | JStr s \<Rightarrow> Ok s | _ \<Rightarrow> jsonError)"

text \<open>\<open>ParseUint\<close> and \<open>ParseInt\<close> of the number's text: a fraction or an exponent is an error.\<close>

definition putUint :: "json \<Rightarrow> 'a::len word \<Rightarrow> 'a word res" where
  "putUint j x =
     (case j of
        JNull \<Rightarrow> Ok x
      | JNum s \<Rightarrow>
          (case (if s = [] then None else digitsNat 10 0 s) of
             Some n \<Rightarrow> if n < 2 ^ LENGTH('a) then Ok (word_of_nat n) else jsonError
           | None \<Rightarrow> jsonError)
      | _ \<Rightarrow> jsonError)"

definition putInt64 :: "json \<Rightarrow> i64 \<Rightarrow> i64 res" where
  "putInt64 j x =
     (case j of
        JNull \<Rightarrow> Ok x
      | JNum s \<Rightarrow>
          (case setString 10 s of
             Some n \<Rightarrow> if - (2 ^ 63) \<le> n \<and> n < 2 ^ 63 then Ok (word_of_int n) else jsonError
           | None \<Rightarrow> jsonError)
      | _ \<Rightarrow> jsonError)"

text \<open>
  A slice is its elements and what its backing array still holds after them. An array is decoded into
  the backing array, so that where an object repeats an array member, an element starts from the one
  that was stored at its index before, and from the zero value \<open>z\<close> at a new index; \<open>null\<close> and the
  empty array let the backing array go.
\<close>

type_synonym 'a slice = "'a list \<times> 'a list"

fun putElems :: "(json \<Rightarrow> 'a \<Rightarrow> 'a res) \<Rightarrow> 'a \<Rightarrow> json list \<Rightarrow> 'a list \<Rightarrow> 'a slice res" where
  "putElems put z [] old = Ok ([], old)"
| "putElems put z (v # vs) old =
     res_bind (put v (case old of [] \<Rightarrow> z | x # _ \<Rightarrow> x)) (\<lambda>x.
     res_bind (putElems put z vs (tl old)) (\<lambda>(xs, rest). Ok (x # xs, rest)))"

definition putSlice :: "(json \<Rightarrow> 'a \<Rightarrow> 'a res) \<Rightarrow> 'a \<Rightarrow> json \<Rightarrow> 'a slice \<Rightarrow> 'a slice res" where
  "putSlice put z j s =
     (case j of
        JNull \<Rightarrow> Ok ([], [])
      | JArr vs \<Rightarrow> if vs = [] then Ok ([], []) else putElems put z vs (fst s @ snd s)
      | _ \<Rightarrow> jsonError)"

definition jsonList :: "string \<Rightarrow> (json \<Rightarrow> 'a \<Rightarrow> 'a res) \<Rightarrow> 'a \<Rightarrow> (string \<times> json) list \<Rightarrow> 'a list res" where
  "jsonList name put z ms = res_bind (jsonField name (putSlice put z) ms ([], [])) (\<lambda>s. Ok (fst s))"

lemmas jsonList_eval = jsonList_def putSlice_def

section \<open>Reading back\<close>

text \<open>A text with white space, escapes, nesting and a tail; and some texts that are not JSON.\<close>

definition demo_json :: string where
  "demo_json =
     '' { '' @ [CHR 0x22] @ ''a'' @ [CHR 0x22] @ '' : [1, -2.5e3, true], '' @
     [CHR 0x22] @ ''b'' @ [CHR 0x22] @ '':'' @ [CHR 0x22, CHR 0x5C] @ ''u0041'' @ [CHR 0x22] @ ''} x''"

lemmas json_eval = jsonString.simps jsonDecode_def jsonUnmarshal_def jsonRun.simps jsonToken_def jsonSpace_def code_def
  pushFrame_def maxNestingDepth_def jsonNumber_def numInt_def numFrac_def numExp_def numDigits_def
  isDigit_def hasPrefix_def consString_def utf8Len_def jsonEscape_def hex4_def hexVal_def utf8Encode_def
  jsonError_def

lemma jsonDecode_demo:
  "jsonDecode demo_json =
     Ok (JObj [(''a'', JArr [JNum ''1'', JNum ''-2.5e3'', JBool True]), (''b'', JStr [char_of (65 :: nat)])])"
  unfolding demo_json_def by (simp add: json_eval)

text \<open>Three arrays under one name: the stale second element of the first comes back in the third.\<close>

lemma jsonList_repeats:
  "jsonList ''a'' putString []
     [(''a'', JArr [JStr ''p'', JStr ''q'']), (''a'', JArr [JStr ''r'']), (''a'', JArr [JNull, JNull, JNull])] =
   Ok [''r'', ''q'', []]"
  by (simp add: jsonList_eval putString_def)

lemma jsonUnmarshal_rejects:
  "jsonUnmarshal (''null'' @ ''x'') = jsonError" "jsonDecode ''[1,]'' = jsonError"
  "jsonDecode [] = jsonError" "jsonDecode ''[01]'' = jsonError" "jsonDecode ''{a:1}'' = jsonError"
  by (simp_all add: json_eval)

lemma jsonMembers_not_Panic [simp]: "jsonMembers j \<noteq> Panic"
  by (simp add: jsonMembers_def jsonError_def split: json.split)

lemma jsonDecode_not_Panic [simp]: "jsonDecode s \<noteq> Panic" "jsonUnmarshal s \<noteq> Panic"
  by (simp_all add: jsonDecode_def jsonUnmarshal_def jsonError_def split: option.split)

lemma putUint_num [simp]:
  "putUint (JNum (showNat n)) (x :: 'a::len word) =
     (if n < 2 ^ LENGTH('a) then Ok (word_of_nat n) else jsonError)"
  by (simp add: putUint_def)

end
