(* ===== verification/Passkey.thy ===== *)
theory Passkey
  imports GoCrypto GoJson Permit2 World
begin

text \<open>
  The passkey path: \<open>src/p256.go\<close> (P-256 helpers), \<open>src/webauthn.go\<close> (decoding an assertion),
  \<open>src/erc1271.go\<close> (the signature blob of a Coinbase Smart Wallet) and \<open>src/smartaccount.go\<close>
  (owner encodings, factory calldata, counterfactual address). ABI packing and the node are library
  parameters; hashing, DER, base64, JSON and P-256 are the standard library's, written out in
  \<open>GoCrypto\<close> and \<open>GoJson\<close>.
\<close>

section \<open>p256.go\<close>

definition p256NDiv2 :: int where
  "p256NDiv2 = p256N div 2"

definition NormalizeLowS :: "int option \<Rightarrow> int option" where
  "NormalizeLowS s =
     (case s of None \<Rightarrow> None | Some v \<Rightarrow> if v > p256NDiv2 then Some (p256N - v) else Some v)"

definition IsLowS :: "int option \<Rightarrow> bool" where
  "IsLowS s = (case s of None \<Rightarrow> False | Some v \<Rightarrow> v \<le> p256NDiv2)"

definition VerifyP256 :: "int option \<Rightarrow> int option \<Rightarrow> bytes \<Rightarrow> int option \<Rightarrow> int option \<Rightarrow> bool" where
  "VerifyP256 x y digest r s =
     (case (x, y, r, s) of
        (Some x, Some y, Some r, Some s) \<Rightarrow>
          if \<not> isOnCurve x y then False else ecdsaVerify (x, y) digest r s
      | _ \<Rightarrow> False)"

definition xyOf :: "bytes \<Rightarrow> (int \<times> int) res" where
  "xyOf pub =
     (let x = int (beNat (take 32 pub)); y = int (beNat (drop 32 pub)) in
      if \<not> isOnCurve x y then Err (Errorf ''aiggwallet p256: point not on curve'' [])
      else Ok (x, y))"

definition ParseP256PublicKeyXY :: "bytes \<Rightarrow> (int \<times> int) res" where
  "ParseP256PublicKeyXY pub =
     (if length pub = 65 then
        if hd pub \<noteq> 0x04 then Err (Errorf ''aiggwallet p256: 65-byte key must start with 0x04'' [])
        else xyOf (tl pub)
      else if length pub = 64 then xyOf pub
      else Err (Errorf ''aiggwallet p256: public key must be 64 or 65 bytes (got %d)'' [showNat (length pub)]))"

section \<open>webauthn.go\<close>

record assertion =
  wa_AuthenticatorData :: bytes
  wa_ClientDataJSON :: bytes
  wa_Signature :: bytes

definition DecodeECDSASignatureDER :: "bytes \<Rightarrow> (int \<times> int) res" where
  "DecodeECDSASignatureDER der =
     res_bind (res_wrap ''aiggwallet webauthn: DER signature: %w'' [] (derTwoIntegers der)) (\<lambda>((r, s), rest).
     if rest \<noteq> [] then Err (Errorf ''aiggwallet webauthn: trailing bytes after DER signature'' [])
     else if r \<le> 0 \<or> s \<le> 0 then Err (Errorf ''aiggwallet webauthn: invalid r/s'' [])
     else Ok (r, s))"

definition SignedDigest :: "assertion \<Rightarrow> bytes" where
  "SignedDigest a = sha256 (wa_AuthenticatorData a @ sha256 (wa_ClientDataJSON a))"

text \<open>The structure \<open>cd\<close> of the client data: its \<open>type\<close> and \<open>challenge\<close> members.\<close>

definition decodeClientData :: "bytes \<Rightarrow> (string \<times> string) res" where
  "decodeClientData b =
     res_bind (jsonUnmarshal (bytesString b)) (\<lambda>j.
     res_bind (jsonMembers j) (\<lambda>ms.
     res_bind (jsonField ''type'' putString ms []) (\<lambda>ty.
     res_bind (jsonField ''challenge'' putString ms []) (\<lambda>challenge. Ok (ty, challenge)))))"

definition Challenge :: "assertion \<Rightarrow> bytes res" where
  "Challenge a =
     res_bind (res_wrap ''aiggwallet webauthn: clientDataJSON: %w'' [] (decodeClientData (wa_ClientDataJSON a)))
     (\<lambda>(ty, challenge).
     if ty \<noteq> ''webauthn.get'' then Err (Errorf ''aiggwallet webauthn: type %q != webauthn.get'' [ty])
     else res_wrap ''aiggwallet webauthn: challenge base64url: %w'' [] (b64Decode challenge))"

definition challengeMarker :: bytes where
  "challengeMarker = stringBytes (CHR 0x22 # ''challenge'' @ [CHR 0x22, CHR '':'', CHR 0x22])"

definition typeMarker :: bytes where
  "typeMarker = stringBytes (CHR 0x22 # ''type'' @ [CHR 0x22, CHR '':'', CHR 0x22] @ ''webauthn.get'' @ [CHR 0x22])"

definition clientDataIndices :: "bytes \<Rightarrow> (nat \<times> nat) res" where
  "clientDataIndices clientDataJSON =
     (case indexOf clientDataJSON challengeMarker of
        None \<Rightarrow> Err (Errorf ''aiggwallet webauthn: challenge field not found in clientDataJSON'' [])
      | Some ci \<Rightarrow>
          (case indexOf clientDataJSON typeMarker of
             None \<Rightarrow> Err (Errorf ''aiggwallet webauthn: type field not found in clientDataJSON'' [])
           | Some ti \<Rightarrow> Ok (ci, ti)))"

section \<open>erc1271.go\<close>

definition webAuthnAuthArgs :: "eth_lib \<Rightarrow> (string \<times> abi_type) list res" where
  "webAuthnAuthArgs E =
     res_bind (mustABIType E ''tuple''
       [(''authenticatorData'', AbiType ''bytes'' []), (''clientDataJSON'', AbiType ''string'' []),
        (''challengeIndex'', AbiType ''uint256'' []), (''typeIndex'', AbiType ''uint256'' []),
        (''r'', AbiType ''uint256'' []), (''s'', AbiType ''uint256'' [])]) (\<lambda>t. Ok [([], t)])"

definition signatureWrapperArgs :: "eth_lib \<Rightarrow> (string \<times> abi_type) list res" where
  "signatureWrapperArgs E =
     res_bind (mustABIType E ''tuple''
       [(''ownerIndex'', AbiType ''uint256'' []), (''signatureData'', AbiType ''bytes'' [])]) (\<lambda>t. Ok [([], t)])"

definition webAuthnTuple :: "bytes \<Rightarrow> bytes \<Rightarrow> nat \<Rightarrow> nat \<Rightarrow> int \<Rightarrow> int \<Rightarrow> abi_val" where
  "webAuthnTuple authenticatorData clientDataJSON challengeIndex typeIndex r s =
     AbiTuple
       [(''authenticatorData'', AbiBytes authenticatorData),
        (''clientDataJSON'', AbiString (bytesString clientDataJSON)),
        (''challengeIndex'', AbiBig (int challengeIndex)), (''typeIndex'', AbiBig (int typeIndex)),
        (''r'', AbiBig r), (''s'', AbiBig s)]"

definition EncodeWebAuthnAuth ::
  "eth_lib \<Rightarrow> bytes \<Rightarrow> bytes \<Rightarrow> nat \<Rightarrow> nat \<Rightarrow> int \<Rightarrow> int \<Rightarrow> bytes res" where
  "EncodeWebAuthnAuth E authenticatorData clientDataJSON challengeIndex typeIndex r s =
     res_bind (webAuthnAuthArgs E) (\<lambda>args.
     abiPack E args [webAuthnTuple authenticatorData clientDataJSON challengeIndex typeIndex r s])"

definition EncodeSignatureWrapper :: "eth_lib \<Rightarrow> u64 \<Rightarrow> bytes \<Rightarrow> bytes res" where
  "EncodeSignatureWrapper E ownerIndex signatureData =
     res_bind (signatureWrapperArgs E) (\<lambda>args.
     abiPack E args
       [AbiTuple [(''ownerIndex'', AbiBig (uint ownerIndex)), (''signatureData'', AbiBytes signatureData)]])"

definition BuildCSWPasskeySignature :: "eth_lib \<Rightarrow> assertion \<Rightarrow> u64 \<Rightarrow> bytes res" where
  "BuildCSWPasskeySignature E a ownerIndex =
     res_bind (DecodeECDSASignatureDER (wa_Signature a)) (\<lambda>(r, s0).
     let s = the (NormalizeLowS (Some s0)) in
     res_bind (clientDataIndices (wa_ClientDataJSON a)) (\<lambda>(challengeIndex, typeIndex).
     res_bind (res_wrap ''aiggwallet erc1271: encode WebAuthnAuth: %w'' []
       (EncodeWebAuthnAuth E (wa_AuthenticatorData a) (wa_ClientDataJSON a) challengeIndex typeIndex r s)) (\<lambda>inner.
     res_wrap ''aiggwallet erc1271: encode SignatureWrapper: %w'' []
       (EncodeSignatureWrapper E ownerIndex inner))))"

section \<open>smartaccount.go\<close>

definition CoinbaseSmartWalletFactory :: string where
  "CoinbaseSmartWalletFactory = ''0x0BA5ED0c6AA8c49038F819E587E2633c4A9F428a''"

definition EOAOwnerBytes :: "address \<Rightarrow> bytes" where
  "EOAOwnerBytes a = replicate 12 0 @ addressBytes a"

text \<open>\<open>FillBytes\<close> panics on a number of more than 32 bytes.\<close>

definition PasskeyOwnerBytes :: "int \<Rightarrow> int \<Rightarrow> bytes res" where
  "PasskeyOwnerBytes x y =
     res_bind (fillBytes 32 x) (\<lambda>xb. res_bind (fillBytes 32 y) (\<lambda>yb. Ok (xb @ yb)))"

definition cswFactoryArgs :: "eth_lib \<Rightarrow> (string \<times> abi_type) list res" where
  "cswFactoryArgs E =
     res_bind (mustABIType E ''bytes[]'' []) (\<lambda>t1.
     res_bind (mustABIType E ''uint256'' []) (\<lambda>t2. Ok [([], t1), ([], t2)]))"

definition CreateAccountCalldata :: "eth_lib \<Rightarrow> bytes list \<Rightarrow> u64 \<Rightarrow> bytes res" where
  "CreateAccountCalldata E owners nonce =
     res_bind (cswFactoryArgs E) (\<lambda>args.
     res_bind (res_wrap ''aiggwallet smartaccount: pack createAccount: %w'' []
       (abiPack E args [AbiBytesArray owners, AbiBig (uint nonce)])) (\<lambda>packed.
     Ok (funcSelector E ''createAccount(bytes[],uint256)'' @ packed)))"

definition GetAddressCalldata :: "eth_lib \<Rightarrow> bytes list \<Rightarrow> u64 \<Rightarrow> bytes res" where
  "GetAddressCalldata E owners nonce =
     res_bind (cswFactoryArgs E) (\<lambda>args.
     res_bind (res_wrap ''aiggwallet smartaccount: pack getAddress: %w'' []
       (abiPack E args [AbiBytesArray owners, AbiBig (uint nonce)])) (\<lambda>packed.
     Ok (funcSelector E ''getAddress(bytes[],uint256)'' @ packed)))"

definition CounterfactualAddress ::
  "eth_lib \<Rightarrow> 'w base_rpc option \<Rightarrow> bytes list \<Rightarrow> u64 \<Rightarrow> ('w, address) io" where
  "CounterfactualAddress E rpc owners nonce =
     (case rpc of
        None \<Rightarrow> fail (Errorf ''aiggwallet smartaccount: nil rpc'' [])
      | Some c \<Rightarrow>
          io_bind (lift (GetAddressCalldata E owners nonce)) (\<lambda>data.
          io_bind (io_wrap ''aiggwallet smartaccount: getAddress call: %w'' []
            (rpc_CallContract c
               \<lparr>cm_From = None, cm_To = Some (hexToAddress E CoinbaseSmartWalletFactory), cm_Value = None,
                cm_Data = data, cm_GasFeeCap = None, cm_GasTipCap = None\<rparr> None)) (\<lambda>out.
          if length out < 32 then
            fail (Errorf ''aiggwallet smartaccount: getAddress returned %d bytes'' [showNat (length out)])
          else ret (bytesToAddress E (take 20 (drop 12 out))))))"

section \<open>DER round trip\<close>

text \<open>
  The DER text of a signature: each integer on as many octets as its bits and a sign bit need,
  which is the minimal two's-complement encoding.
\<close>

definition derIntBytes :: "nat \<Rightarrow> bytes" where
  "derIntBytes n = beBytes (natBits n div 8 + 1) n"

definition derInt :: "nat \<Rightarrow> bytes" where
  "derInt n = 0x02 # word_of_nat (length (derIntBytes n)) # derIntBytes n"

definition derSignature :: "nat \<Rightarrow> nat \<Rightarrow> bytes" where
  "derSignature r s = 0x30 # word_of_nat (length (derInt r @ derInt s)) # derInt r @ derInt s"

lemma length_derIntBytes: "n < 2 ^ 256 \<Longrightarrow> length (derIntBytes n) \<le> 33"
proof -
  assume "n < 2 ^ 256"
  then have "natBits n \<le> 256" by (simp only: natBits_le_iff)
  then show ?thesis by (simp add: derIntBytes_def)
qed

lemma natBits_less: "n < 2 ^ natBits n"
  using natBits_le_iff by blast

lemma natBits_ge: "n \<noteq> 0 \<Longrightarrow> 2 ^ (natBits n - 1) \<le> n"
proof (rule ccontr)
  assume "n \<noteq> 0" and "\<not> 2 ^ (natBits n - 1) \<le> n"
  then have "natBits n \<le> natBits n - 1" by (simp add: natBits_le_iff not_le)
  moreover have "natBits n \<noteq> 0" using \<open>n \<noteq> 0\<close> natBits_less [of n] by (cases "natBits n") auto
  ultimately show False by simp
qed

text \<open>The leading octets of a big-endian number.\<close>

lemma beBytes_hd: "beBytes (Suc k) n = word_of_nat (n div 256 ^ k mod 256) # beBytes k n"
proof (induction k arbitrary: n)
  case (Suc k)
  have "beBytes (Suc (Suc k)) n = beBytes (Suc k) (n div 256) @ [word_of_nat (n mod 256)]" by simp
  also have "beBytes (Suc k) (n div 256) = word_of_nat (n div 256 div 256 ^ k mod 256) # beBytes k (n div 256)"
    by (rule Suc.IH)
  also have "n div 256 div 256 ^ k = n div 256 ^ Suc k" by (simp add: div_mult2_eq)
  finally show ?case by simp
qed simp

lemma unat_byte: "x < 256 \<Longrightarrow> unat (word_of_nat x :: byte) = x"
  by (simp add: unat_of_nat take_bit_nat_eq_self)

text \<open>
  The octets of an encoded integer: the first is below 128, so the number is not negative, and it is
  not a zero in front of an octet below 128, so the encoding is minimal.
\<close>

lemma octets_upper:
  assumes "natBits n div 8 = k"
  shows "n < 128 * 256 ^ k"
proof -
  have "n < 2 ^ natBits n" by (rule natBits_less)
  also have "(2 :: nat) ^ natBits n \<le> 2 ^ (7 + 8 * k)" using assms by (intro power_increasing) linarith+
  also have "(2 :: nat) ^ (7 + 8 * k) = 128 * 256 ^ k" by (simp add: power_mult power_add)
  finally show ?thesis .
qed

lemma octets_lower:
  assumes "0 < n" and "natBits n div 8 = Suc j"
  shows "128 * 256 ^ j \<le> n"
proof -
  have "(128 :: nat) * 256 ^ j = 2 ^ (7 + 8 * j)" by (simp add: power_mult power_add)
  also have "\<dots> \<le> 2 ^ (natBits n - 1)" using assms(2) by (intro power_increasing) linarith+
  also have "\<dots> \<le> n" using assms(1) by (intro natBits_ge) simp
  finally show ?thesis .
qed

lemma octets_minimal:
  assumes "0 < n" and "natBits n div 8 = Suc j" and "n div 256 ^ Suc j = 0"
  shows "128 \<le> n div 256 ^ j mod 256"
proof -
  have "n div 256 ^ j div 256 = 0"
    using assms(3) div_mult2_eq [of n "256 ^ j" 256] by (simp add: mult.commute)
  moreover have "128 \<le> n div 256 ^ j"
    using octets_lower [OF assms(1,2)] by (simp add: less_eq_div_iff_mult_less_eq)
  ultimately show ?thesis by simp
qed

lemma derInteger_bytes:
  assumes n: "0 < n"
  shows "derInteger (derIntBytes n) = Ok (int n)"
proof -
  obtain k where k: "natBits n div 8 = k" by blast
  note up = octets_upper [OF k]
  have hd: "n div 256 ^ k < 128" using up by (simp add: div_less_iff_less_mult)
  have be: "derIntBytes n = word_of_nat (n div 256 ^ k) # beBytes k n"
    using beBytes_hd [of k n] hd by (simp add: derIntBytes_def k)
  have x: "unat (word_of_nat (n div 256 ^ k) :: byte) = n div 256 ^ k" using hd by (intro unat_byte) simp
  have "128 * 256 ^ k \<le> (256 :: nat) ^ Suc k" by simp
  with up have "n < 256 ^ (natBits n div 8 + 1)" unfolding k by simp
  then have val: "beNat (derIntBytes n) = n" unfolding derIntBytes_def by (rule beNat_beBytes_less)
  show ?thesis
  proof (cases k)
    case 0
    then show ?thesis using be val x hd by (simp add: derInteger_def)
  next
    case (Suc j)
    have y: "unat (word_of_nat (n div 256 ^ j mod 256) :: byte) = n div 256 ^ j mod 256"
      by (rule unat_byte) simp
    have not255: "(word_of_nat (n div 256 ^ k) :: byte) \<noteq> 255"
    proof
      assume "(word_of_nat (n div 256 ^ k) :: byte) = 255"
      then have "unat (word_of_nat (n div 256 ^ k) :: byte) = 255" by simp
      with x hd show False by simp
    qed
    have minimal: "\<not> (word_of_nat (n div 256 ^ k) = (0 :: byte) \<and> n div 256 ^ j mod 256 < 128)"
    proof
      assume a: "word_of_nat (n div 256 ^ k) = (0 :: byte) \<and> n div 256 ^ j mod 256 < 128"
      then have "n div 256 ^ Suc j = 0" using x Suc by simp
      with octets_minimal [OF n] k a Suc show False by simp
    qed
    have "derIntBytes n = word_of_nat (n div 256 ^ k) # word_of_nat (n div 256 ^ j mod 256) # beBytes j n"
      using be beBytes_hd [of j n] by (simp add: Suc)
    then show ?thesis
      using minimal not255 x y hd val by (auto simp: derInteger_def)
  qed
qed

lemma derElement_append:
  assumes "length c < 128"
  shows "derElement t (t # word_of_nat (length c) # c @ rest) = Ok (c, rest)"
proof -
  have "unat (word_of_nat (length c) :: byte) = length c" using assms by (intro unat_byte) simp
  with assms show ?thesis by (simp add: derElement_def derLength_def)
qed

lemma derElement_derInt:
  "n < 2 ^ 256 \<Longrightarrow> derElement 0x02 (derInt n @ rest) = Ok (derIntBytes n, rest)"
  using length_derIntBytes [of n] by (simp add: derInt_def derElement_append)

lemma length_derInt: "n < 2 ^ 256 \<Longrightarrow> length (derInt n) \<le> 35"
  using length_derIntBytes [of n] by (simp add: derInt_def)

lemma derTwoIntegers_derSignature:
  assumes "0 < r" "r < 2 ^ 256" "0 < s" "s < 2 ^ 256"
  shows "derTwoIntegers (derSignature r s @ rest) = Ok ((int r, int s), rest)"
proof -
  have "length (derInt r @ derInt s) < 128"
    using length_derInt [of r] length_derInt [of s] assms by simp
  then have seq: "derElement 0x30 (derSignature r s @ rest) = Ok (derInt r @ derInt s, rest)"
    using derElement_append [of "derInt r @ derInt s" "0x30" rest] by (simp add: derSignature_def)
  have "derElement 0x02 (derInt r @ derInt s) = Ok (derIntBytes r, derInt s)"
    using assms by (simp only: derElement_derInt)
  moreover have "derElement 0x02 (derInt s) = Ok (derIntBytes s, [])"
    using derElement_derInt [of s "[]"] assms by simp
  ultimately show ?thesis
    using assms seq by (simp add: derTwoIntegers_def derInteger_bytes)
qed

text \<open>
  C34: decoding the DER text of a signature gives back its two numbers: every pair in the range of
  P-256 signatures survives the round trip, and any trailing bytes are rejected.
\<close>

theorem der_signature_roundtrip:
  assumes "0 < r" "r < 2 ^ 256" "0 < s" "s < 2 ^ 256"
  shows "DecodeECDSASignatureDER (derSignature r s) = Ok (int r, int s) \<and>
    (\<forall>rest. rest \<noteq> [] \<longrightarrow>
       DecodeECDSASignatureDER (derSignature r s @ rest) =
         Err (Errorf ''aiggwallet webauthn: trailing bytes after DER signature'' []))"
  using derTwoIntegers_derSignature [OF assms, of "[]"] derTwoIntegers_derSignature [OF assms] assms
  by (simp add: DecodeECDSASignatureDER_def)

theorem der_signature_roundtrip_witness:
  "DecodeECDSASignatureDER (derSignature 128 1) = Ok (128, 1)"
  using der_signature_roundtrip [of 128 1] by simp

text \<open>Whatever is decoded is positive.\<close>

lemma DecodeECDSASignatureDER_positive:
  "DecodeECDSASignatureDER der = Ok (r, s) \<Longrightarrow> 0 < r \<and> 0 < s"
  by (auto simp: DecodeECDSASignatureDER_def io_ok split: if_splits)

section \<open>Low s\<close>

lemma p256N_pos: "p256N > 2" and p256N_odd: "2 * p256NDiv2 + 1 = p256N"
  by (simp_all add: p256N_def p256NDiv2_def)

text \<open>
  For every \<open>s\<close> below the group order, normalizing gives the low one of \<open>s\<close> and \<open>N - s\<close>: it is
  positive and accepted by \<open>IsLowS\<close>, it is congruent to \<open>s\<close> or to \<open>- s\<close>, nothing else in that pair is
  low, and normalizing again changes nothing.
\<close>

lemma normalize_low_s:
  assumes "0 < s" "s < p256N"
  shows "\<exists>l. NormalizeLowS (Some s) = Some l \<and> 0 < l \<and> IsLowS (Some l) \<and> (l = s \<or> l = p256N - s) \<and>
     (\<forall>m. (m = s \<or> m = p256N - s) \<and> IsLowS (Some m) \<longrightarrow> m = l) \<and>
     NormalizeLowS (Some l) = Some l"
proof (intro exI conjI)
  let ?l = "if s > p256NDiv2 then p256N - s else s"
  show "NormalizeLowS (Some s) = Some ?l" by (simp add: NormalizeLowS_def)
  show "0 < ?l" "IsLowS (Some ?l)" "?l = s \<or> ?l = p256N - s"
    "\<forall>m. (m = s \<or> m = p256N - s) \<and> IsLowS (Some m) \<longrightarrow> m = ?l" "NormalizeLowS (Some ?l) = Some ?l"
    using assms p256N_odd by (auto simp: IsLowS_def NormalizeLowS_def)
qed

lemma normalize_low_s_of:
  assumes "0 < s" "s < p256N" and l: "NormalizeLowS (Some s) = Some l"
  shows "0 < l \<and> (l = s \<or> l = p256N - s) \<and> NormalizeLowS (Some l) = Some l \<and>
    (\<forall>m. (m = s \<or> m = p256N - s) \<and> IsLowS (Some m) \<longrightarrow> m = l)"
proof -
  from normalize_low_s [OF assms(1,2)] obtain l' where l': "NormalizeLowS (Some s) = Some l'" "0 < l'"
    "l' = s \<or> l' = p256N - s" "\<forall>m. (m = s \<or> m = p256N - s) \<and> IsLowS (Some m) \<longrightarrow> m = l'"
    "NormalizeLowS (Some l') = Some l'"
    by (elim exE conjE)
  have "l' = l" using l l'(1) by (simp only: option.inject)
  with l' show ?thesis by (simp only: simp_thms)
qed

lemma normalize_low_s_demo:
  "\<exists>l. NormalizeLowS (Some (p256N - 1)) = Some l \<and> 0 < l \<and> IsLowS (Some l)"
  using normalize_low_s [of "p256N - 1"] p256N_pos by fastforce

text \<open>Beyond the group order it is not: a decoded \<open>s\<close> may be larger, and its "low" form is negative.\<close>

lemma normalize_oversized_s:
  "NormalizeLowS (Some (p256N + 5)) = Some (- 5) \<and> IsLowS (Some (- 5))"
  by (simp add: NormalizeLowS_def IsLowS_def p256N_def p256NDiv2_def)

lemma NormalizeLowS_low: "0 < s \<Longrightarrow> \<exists>l. NormalizeLowS (Some s) = Some l \<and> IsLowS (Some l)"
  using p256N_odd by (auto simp: NormalizeLowS_def IsLowS_def)

section \<open>The smart wallet's signature\<close>

text \<open>\<open>firstAt s p i\<close>: the pattern \<open>p\<close> stands at \<open>i\<close>, and nowhere before.\<close>

definition firstAt :: "'a list \<Rightarrow> 'a list \<Rightarrow> nat \<Rightarrow> bool" where
  "firstAt s p i \<longleftrightarrow>
     i + length p \<le> length s \<and> take (length p) (drop i s) = p \<and>
     (\<forall>j<i. take (length p) (drop j s) \<noteq> p)"

lemma indexOf_firstAt: "indexOf s p = Some i \<Longrightarrow> firstAt s p i"
  by (simp add: firstAt_def indexOf_Some indexOf_first)

lemma clientDataIndices_firstAt:
  "clientDataIndices j = Ok (ci, ti) \<Longrightarrow> firstAt j challengeMarker ci \<and> firstAt j typeMarker ti"
  by (auto simp: clientDataIndices_def indexOf_firstAt split: option.splits)

text \<open>
  C35: a signature blob for the smart wallet is built from exactly the assertion's data. The inner
  structure carries the authenticator data, the client data, the offsets at which the challenge
  and the type member first appear in the client data, the \<open>r\<close> of the DER signature, and an \<open>l\<close>
  that \<open>IsLowS\<close> accepts; when the signature's \<open>s\<close> is below the group order, \<open>l\<close> is positive and the
  only low one of \<open>s\<close> and \<open>N - s\<close>, and normalizing it again changes nothing. The outer structure
  carries the owner index and the inner blob.
\<close>

theorem csw_signature_contents:
  assumes "BuildCSWPasskeySignature E a ownerIndex = Ok blob"
  shows "\<exists>r s l ci ti inner args args'.
     DecodeECDSASignatureDER (wa_Signature a) = Ok (r, s) \<and>
     NormalizeLowS (Some s) = Some l \<and> IsLowS (Some l) \<and>
     (s < p256N \<longrightarrow> 0 < l \<and> (l = s \<or> l = p256N - s) \<and> NormalizeLowS (Some l) = Some l \<and>
        (\<forall>m. (m = s \<or> m = p256N - s) \<and> IsLowS (Some m) \<longrightarrow> m = l)) \<and>
     firstAt (wa_ClientDataJSON a) challengeMarker ci \<and> firstAt (wa_ClientDataJSON a) typeMarker ti \<and>
     webAuthnAuthArgs E = Ok args \<and> signatureWrapperArgs E = Ok args' \<and>
     abiPack E args [webAuthnTuple (wa_AuthenticatorData a) (wa_ClientDataJSON a) ci ti r l] = Ok inner \<and>
     abiPack E args'
       [AbiTuple [(''ownerIndex'', AbiBig (uint ownerIndex)), (''signatureData'', AbiBytes inner)]] = Ok blob"
proof -
  from assms obtain r s ci ti inner args args' where
    der: "DecodeECDSASignatureDER (wa_Signature a) = Ok (r, s)" and
    ix: "clientDataIndices (wa_ClientDataJSON a) = Ok (ci, ti)" and
    args: "webAuthnAuthArgs E = Ok args" "signatureWrapperArgs E = Ok args'" and
    inner: "abiPack E args [webAuthnTuple (wa_AuthenticatorData a) (wa_ClientDataJSON a) ci ti r
              (the (NormalizeLowS (Some s)))] = Ok inner" and
    outer: "abiPack E args'
       [AbiTuple [(''ownerIndex'', AbiBig (uint ownerIndex)), (''signatureData'', AbiBytes inner)]] = Ok blob"
    by (auto simp: BuildCSWPasskeySignature_def EncodeWebAuthnAuth_def EncodeSignatureWrapper_def
        Let_def io_ok)
  from DecodeECDSASignatureDER_positive [OF der] have s: "0 < s" by simp
  then obtain l where l: "NormalizeLowS (Some s) = Some l" "IsLowS (Some l)"
    using NormalizeLowS_low by blast
  have low: "s < p256N \<longrightarrow> 0 < l \<and> (l = s \<or> l = p256N - s) \<and> NormalizeLowS (Some l) = Some l \<and>
      (\<forall>m. (m = s \<or> m = p256N - s) \<and> IsLowS (Some m) \<longrightarrow> m = l)"
    by (rule impI, rule normalize_low_s_of [OF s _ l(1)])
  have "abiPack E args [webAuthnTuple (wa_AuthenticatorData a) (wa_ClientDataJSON a) ci ti r l] = Ok inner"
    using inner l(1) by simp
  with der l low clientDataIndices_firstAt [OF ix] args outer show ?thesis
    by (intro exI [of _ r] exI [of _ s] exI [of _ l] exI [of _ ci] exI [of _ ti] exI [of _ inner]
        exI [of _ args] exI [of _ args'] conjI) (assumption | elim conjE, assumption)+
qed

definition demo_assertion :: assertion where
  "demo_assertion =
     \<lparr>wa_AuthenticatorData = [1, 2],
      wa_ClientDataJSON = [0x7b] @ typeMarker @ [0x2c] @ challengeMarker @ [0x41, 0x22, 0x7d],
      wa_Signature = derSignature 128 1\<rparr>"

lemma demo_blob: "BuildCSWPasskeySignature demo_lib demo_assertion 0 = Ok [9]"
proof -
  have der: "DecodeECDSASignatureDER (derSignature 128 1) = Ok (128, 1)"
    using derTwoIntegers_derSignature [of 128 1 "[]"] by (simp add: DecodeECDSASignatureDER_def)
  have ix: "clientDataIndices (wa_ClientDataJSON demo_assertion) = Ok (23, 1)" by code_simp
  show ?thesis
    unfolding BuildCSWPasskeySignature_def ix
    by (simp add: demo_assertion_def der [simplified] EncodeWebAuthnAuth_def EncodeSignatureWrapper_def
        webAuthnAuthArgs_def signatureWrapperArgs_def mustABIType_def demo_simps)
qed

theorem csw_signature_contents_witness:
  "\<exists>r s l. DecodeECDSASignatureDER (wa_Signature demo_assertion) = Ok (r, s) \<and>
     NormalizeLowS (Some s) = Some l \<and> IsLowS (Some l)"
  using csw_signature_contents [OF demo_blob] by blast

section \<open>Owner encodings\<close>

lemma p256_P_less: "p256_P < 2 ^ 256"
  by (simp add: p256_P_def)

text \<open>
  C36: the 64-byte owner encoding of a passkey on the curve exists, and parsing it, bare or with the
  SEC1 prefix, gives back the point; a key with another prefix is refused, and whatever parses is a
  point of the curve whose encoding is the key's last 64 bytes.
\<close>

theorem passkey_encoding_roundtrip:
  assumes "isOnCurve x y"
  shows "\<exists>ob. PasskeyOwnerBytes x y = Ok ob \<and> length ob = 64 \<and>
     ParseP256PublicKeyXY ob = Ok (x, y) \<and> ParseP256PublicKeyXY (0x04 # ob) = Ok (x, y) \<and>
     (\<forall>b. b \<noteq> 0x04 \<longrightarrow> \<not> isOk (ParseP256PublicKeyXY (b # ob))) \<and>
     (\<forall>pub. ParseP256PublicKeyXY pub = Ok (x, y) \<longrightarrow> pub = ob \<or> pub = 0x04 # ob)"
proof -
  have r: "0 \<le> x" "x < 2 ^ 256" "0 \<le> y" "y < 2 ^ 256"
    using assms p256_P_less by (auto simp: isOnCurve_def)
  have e: "(256 :: nat) ^ 32 = 2 ^ 256" by simp
  have n: "nat x < 256 ^ 32" "nat y < 256 ^ 32"
    using r unfolding e by (simp_all add: nat_less_iff)
  obtain ob where ob_def: "ob = beBytes 32 (nat x) @ beBytes 32 (nat y)" by blast
  have ob: "PasskeyOwnerBytes x y = Ok ob" "length ob = 64"
    using r n by (simp_all add: PasskeyOwnerBytes_def fillBytes_def ob_def)
  have xy: "xyOf ob = Ok (x, y)"
    using r n assms by (simp add: xyOf_def ob_def beNat_beBytes_less)
  have recode: "b = ob" if "xyOf b = Ok (x, y)" "length b = 64" for b
  proof -
    from that have v: "int (beNat (take 32 b)) = x" "int (beNat (drop 32 b)) = y"
      by (auto simp: xyOf_def Let_def split: if_splits)
    have "beBytes 32 (nat x) = take 32 b" "beBytes 32 (nat y) = drop 32 b"
      using that by (simp_all add: v [symmetric])
    then show ?thesis by (simp add: ob_def)
  qed
  have "pub = ob \<or> pub = 0x04 # ob" if p: "ParseP256PublicKeyXY pub = Ok (x, y)" for pub
  proof (cases "length pub = 65")
    case True
    then obtain h t where ht: "pub = h # t" "length t = 64" by (cases pub) auto
    with p show ?thesis using recode [of t] by (auto simp: ParseP256PublicKeyXY_def split: if_splits)
  next
    case False
    with p show ?thesis using recode [of pub] by (auto simp: ParseP256PublicKeyXY_def split: if_splits)
  qed
  with ob xy show ?thesis by (auto simp: ParseP256PublicKeyXY_def)
qed

lemma p256_G_on_curve: "isOnCurve (fst p256_G) (snd p256_G)"
  by code_simp

theorem passkey_encoding_roundtrip_witness:
  "\<exists>ob. PasskeyOwnerBytes (fst p256_G) (snd p256_G) = Ok ob \<and>
     ParseP256PublicKeyXY ob = Ok (fst p256_G, snd p256_G)"
  using passkey_encoding_roundtrip [OF p256_G_on_curve] by blast

lemma PasskeyOwnerBytes_cases:
  "PasskeyOwnerBytes x y = Panic \<longleftrightarrow> 2 ^ 256 \<le> \<bar>x\<bar> \<or> 2 ^ 256 \<le> \<bar>y\<bar>"
  "PasskeyOwnerBytes x y \<noteq> Err e"
proof -
  have e: "(256 :: nat) ^ 32 = 2 ^ 256" by simp
  have "nat \<bar>z\<bar> < 256 ^ 32 \<longleftrightarrow> \<bar>z\<bar> < 2 ^ 256" for z :: int
    unfolding e by (simp add: nat_less_iff)
  then show "PasskeyOwnerBytes x y = Panic \<longleftrightarrow> 2 ^ 256 \<le> \<bar>x\<bar> \<or> 2 ^ 256 \<le> \<bar>y\<bar>" "PasskeyOwnerBytes x y \<noteq> Err e"
    by (auto simp: PasskeyOwnerBytes_def fillBytes_def not_less)
qed

text \<open>A negative coordinate is encoded as its absolute value, so it does not determine the point.\<close>

lemma owner_bytes_sign:
  "PasskeyOwnerBytes (- x) y = PasskeyOwnerBytes x y" "PasskeyOwnerBytes x (- y) = PasskeyOwnerBytes x y"
  by (simp_all add: PasskeyOwnerBytes_def fillBytes_def)

text \<open>An account owner is one 32-byte word: twelve zeros and the address.\<close>

lemma EOAOwnerBytes_word: "length (EOAOwnerBytes a) = 32 \<and> beNat (EOAOwnerBytes a) = unat a"
  by (simp add: EOAOwnerBytes_def beNat_zeros)

text \<open>A signature is accepted only for a point of the curve and numbers in the group's range.\<close>

lemma VerifyP256_range:
  "VerifyP256 x y d r s \<Longrightarrow>
     \<exists>x' y' r' s'. x = Some x' \<and> y = Some y' \<and> r = Some r' \<and> s = Some s' \<and> isOnCurve x' y' \<and>
       0 < r' \<and> r' < p256N \<and> 0 < s' \<and> s' < p256N"
  by (auto simp: VerifyP256_def ecdsaVerify_def split: option.splits if_splits)

lemma length_SignedDigest [simp]: "length (SignedDigest a) = 32"
  by (simp add: SignedDigest_def)

section \<open>The factory\<close>

text \<open>
  The address the factory is asked for and the account it is told to create are given by the same
  packed arguments: the two calldata differ in the selector only.
\<close>

lemma factory_calldata_agree:
  "(\<exists>p. CreateAccountCalldata E owners n = Ok p) \<longleftrightarrow> (\<exists>p. GetAddressCalldata E owners n = Ok p)"
  "CreateAccountCalldata E owners n = Ok p \<Longrightarrow> GetAddressCalldata E owners n = Ok q \<Longrightarrow>
     \<exists>t. p = funcSelector E ''createAccount(bytes[],uint256)'' @ t \<and>
         q = funcSelector E ''getAddress(bytes[],uint256)'' @ t"
  by (auto simp: CreateAccountCalldata_def GetAddressCalldata_def io_ok)

text \<open>Asking for the address changes no more than the node's view call does.\<close>

lemma CounterfactualAddress_moves:
  assumes "preorder_rel R" and "\<And>c m b. rpc = Some c \<Longrightarrow> moves R (rpc_CallContract c m b)"
  shows "moves R (CounterfactualAddress E rpc owners n)"
  unfolding CounterfactualAddress_def by (intro moves_intros assms) auto

end
