(* ===== verification/SeedSource.thy ===== *)
theory SeedSource
  imports Derive GoJson
begin

text \<open>
  \<open>src/seedsource.go\<close>: the port through which the master seed is obtained, as the locale
  \<open>master_seed_source\<close> with the law every source keeps (a seed has 16 to 64 bytes), and its three
  implementations: a fixed seed, an environment variable, and the sealed store of a TEE fetched over
  HTTP. Reading the environment and the HTTP exchange are parameters; the request that is sent, the
  limit on the body, and the decoding of the answer are the code's.
\<close>

section \<open>The sources\<close>

definition DefaultTEEMasterSeedPath :: string where
  "DefaultTEEMasterSeedPath = ''/sub2api/v1/platform/master-seed''"

definition validateSeed :: "bytes \<Rightarrow> unit res" where
  "validateSeed seed =
     (if length seed < 16 \<or> length seed > 64 then
        Err (Errorf ''aiggwallet: master seed must be 16-64 bytes (got %d)'' [showNat (length seed)])
      else Ok ())"

definition static_MasterSeed :: "bytes \<Rightarrow> ('w, bytes) io" where
  "static_MasterSeed seed =
     (if length seed = 0 then fail ErrMasterSeedNotConfigured
      else io_bind (lift (validateSeed seed)) (\<lambda>_. ret seed))"

record env_source =
  es_Var :: string
  es_Getenv :: "(string \<Rightarrow> string) option"

definition env_MasterSeed :: "env_source \<Rightarrow> ('w, bytes) io" where
  "env_MasterSeed s =
     (case es_Getenv s of
        None \<Rightarrow> fail (Errorf ''aiggwallet: EnvMasterSeedSource.Getenv not set'' [])
      | Some get \<Rightarrow>
          let raw = trimSpace (get (es_Var s)) in
          if raw = [] then fail ErrMasterSeedNotConfigured
          else
            io_bind (lift (res_wrap ''aiggwallet: env master seed bad hex: %w'' []
              (hexDecode (trimPrefix raw ''0x'')))) (\<lambda>seed.
            io_bind (lift (validateSeed seed)) (\<lambda>_. ret seed)))"

text \<open>
  \<open>net/http\<close>: building a request checks its URL; a response carries a stream, of which a prefix can
  be read before an error, if it has one.
\<close>

record http_request =
  hr_Method :: string
  hr_URL :: string
  hr_Authorization :: string

record http_response =
  hp_StatusCode :: int
  hp_Body :: bytes
  hp_BodyError :: "error option"

record 'w http_client =
  hc_NewRequest :: "string \<Rightarrow> unit res"
  hc_Do :: "http_request \<Rightarrow> ('w, http_response) io"

record 'w tee_source =
  ts_BaseURL :: string
  ts_ServiceToken :: string
  ts_Path :: string
  ts_HTTPClient :: "'w http_client option"

text \<open>\<open>io.ReadAll(io.LimitReader(body, n))\<close>.\<close>

definition readLimited :: "nat \<Rightarrow> http_response \<Rightarrow> bytes res" where
  "readLimited n r =
     (if length (hp_Body r) \<ge> n then Ok (take n (hp_Body r))
      else case hp_BodyError r of Some e \<Rightarrow> Err e | None \<Rightarrow> Ok (hp_Body r))"

definition decodeSeedPayload :: "bytes \<Rightarrow> string res" where
  "decodeSeedPayload body =
     res_bind (jsonUnmarshal (bytesString body)) (\<lambda>j.
     res_bind (jsonMembers j) (\<lambda>ms. jsonField ''seed_hex'' putString ms []))"

definition seedOfResponse :: "http_response \<Rightarrow> bytes res" where
  "seedOfResponse resp =
     res_bind (res_wrap ''aiggwallet: tee master seed read body: %w'' [] (readLimited (2 ^ 14) resp)) (\<lambda>body.
     if hp_StatusCode resp \<noteq> 200 then
       Err (Errorf ''aiggwallet: tee master seed status %d: %s'' [showInt (hp_StatusCode resp), bytesString body])
     else
       res_bind (res_wrap ''aiggwallet: tee master seed decode: %w'' [] (decodeSeedPayload body)) (\<lambda>seedHex.
       if trimSpace seedHex = [] then Err (Errorf ''aiggwallet: tee returned empty seed_hex'' [])
       else
         res_bind (res_wrap ''aiggwallet: tee master seed bad hex: %w'' []
           (hexDecode (trimPrefix seedHex ''0x''))) (\<lambda>seed.
         res_bind (validateSeed seed) (\<lambda>_. Ok seed))))"

definition teeRequest :: "'w tee_source \<Rightarrow> http_request" where
  "teeRequest s =
     (let path = (if ts_Path s = [] then DefaultTEEMasterSeedPath else ts_Path s) in
      \<lparr>hr_Method = ''GET'', hr_URL = trimRightSlash (ts_BaseURL s) @ path,
       hr_Authorization = ''Bearer '' @ ts_ServiceToken s\<rparr>)"

text \<open>The parameter \<open>dflt\<close> is the client with a timeout of 15 seconds.\<close>

definition tee_MasterSeed :: "'w http_client \<Rightarrow> 'w tee_source option \<Rightarrow> ('w, bytes) io" where
  "tee_MasterSeed dflt src =
     (case src of
        None \<Rightarrow> fail ErrMasterSeedNotConfigured
      | Some s \<Rightarrow>
          if trimSpace (ts_BaseURL s) = [] \<or> trimSpace (ts_ServiceToken s) = [] then
            fail ErrMasterSeedNotConfigured
          else
            let req = teeRequest s;
                client = (case ts_HTTPClient s of Some c \<Rightarrow> c | None \<Rightarrow> dflt) in
            io_bind (lift (res_wrap ''aiggwallet: tee master seed build request: %w'' []
              (hc_NewRequest client (hr_URL req)))) (\<lambda>_.
            io_bind (io_wrap ''aiggwallet: tee master seed request: %w'' [] (hc_Do client req)) (\<lambda>resp.
            lift (seedOfResponse resp))))"

section \<open>The port\<close>

text \<open>\<open>MasterSeedSource\<close>: what a source returns is a seed the derivation accepts.\<close>

locale master_seed_source =
  fixes src :: "('w, bytes) io"
  assumes seed_law: "src w = Some (Ok s, w') \<Longrightarrow> validateSeed s = Ok ()"
begin

lemma seed_length: "src w = Some (Ok s, w') \<Longrightarrow> 16 \<le> length s \<and> length s \<le> 64"
  using seed_law [of w s w'] by (auto simp: validateSeed_def split: if_splits)

text \<open>Deriving from it fails only on the path or in the library, never on the seed's length.\<close>

lemma seed_derives:
  assumes "src w = Some (Ok s, w')" and "is \<noteq> []" and "\<forall>i\<in>set is. i < 0x80000000"
    and "\<And>k. bip32_chain E k (map hardened is) = Ok (child k)" and "newMasterKey E s = Ok k"
    and "length (bk_Key (child k)) = 32" and "toECDSA E (bk_Key (child k)) = Ok priv"
  shows "deriveHardened E s is =
    Ok \<lparr>ak_PrivateKey = bk_Key (child k), ak_Address = addressHex E (pubkeyToAddress E (ek_PublicKey priv)),
        ak_DerivationPath = path_text is\<rparr>"
proof -
  have find: "find (\<lambda>i. 0x80000000 \<le> i) is = None"
    using assms(3) by (auto simp: find_None_iff not_le)
  have walk: "childWalk E k ''m'' is = Ok (child k, path_text is)"
    using assms(4) by (simp add: childWalk_Ok_iff path_text_def)
  show ?thesis
    using seed_length [OF assms(1)] assms(2,5,6,7) find walk by (simp add: deriveHardened_def)
qed

end

lemma validateSeed_Ok_iff: "validateSeed s = Ok u \<longleftrightarrow> 16 \<le> length s \<and> length s \<le> 64"
  by (auto simp: validateSeed_def)

interpretation static: master_seed_source "static_MasterSeed seed" for seed
  by unfold_locales (auto simp: static_MasterSeed_def io_ok dest!: sym [of "Ok _"] split: if_splits)

interpretation envvar: master_seed_source "env_MasterSeed s" for s
  by unfold_locales
    (auto simp: env_MasterSeed_def Let_def io_ok dest!: sym [of "Ok _"] split: if_splits option.splits)

lemma seedOfResponse_valid: "seedOfResponse r = Ok s \<Longrightarrow> validateSeed s = Ok ()"
  by (auto simp: seedOfResponse_def io_ok split: if_splits)

interpretation tee: master_seed_source "tee_MasterSeed dflt s" for dflt s
  by unfold_locales
    (auto simp: tee_MasterSeed_def Let_def io_ok dest!: sym [of "Ok _"] seedOfResponse_valid
      split: if_splits option.splits)

section \<open>The texts of a seed\<close>

text \<open>The body the TEE answers with, for a text without quotes and escapes.\<close>

definition quoted :: "string \<Rightarrow> string" where
  "quoted t = CHR 0x22 # t @ [CHR 0x22]"

definition seedBody :: "string \<Rightarrow> string" where
  "seedBody t = ''{'' @ quoted ''seed_hex'' @ '':'' @ quoted t @ ''}''"

definition plainText :: "string \<Rightarrow> bool" where
  "plainText t \<longleftrightarrow> (\<forall>c\<in>set t. 32 \<le> code c \<and> code c < 128 \<and> c \<noteq> CHR 0x22 \<and> c \<noteq> CHR 0x5C)"

lemma jsonString_plain: "plainText t \<Longrightarrow> jsonString (t @ CHR 0x22 # r) = Some (t, r)"
proof (induction t)
  case (Cons c t)
  then have "utf8Len (c # t @ CHR 0x22 # r) = 1" by (simp add: plainText_def utf8Len_def)
  with Cons show ?case by (simp add: plainText_def consString_def jsonString.simps)
qed (simp add: jsonString.simps)

lemma jsonUnmarshal_seedBody:
  assumes "plainText t"
  shows "jsonUnmarshal (seedBody t) = Ok (JObj [(''seed_hex'', JStr t)])"
proof -
  have key: "jsonString (''seed_hex'' @ CHR 0x22 # r) = Some (''seed_hex'', r)" for r
    by (rule jsonString_plain) (simp add: plainText_def code_def)
  have val: "jsonString (t @ CHR 0x22 # r) = Some (t, r)" for r
    using assms by (rule jsonString_plain)
  show ?thesis
    using key [unfolded append_Cons append_Nil] val
    by (simp add: jsonUnmarshal_def seedBody_def quoted_def jsonRun.simps jsonToken_def jsonSpace_def code_def
        pushFrame_def maxNestingDepth_def)
qed

lemma hexText_plain: "\<forall>c\<in>set t. isHexChar c \<or> c = CHR ''x'' \<Longrightarrow> plainText t"
  by (auto simp: plainText_def isHexChar_iff code_def)

lemma trimPrefix_hex: "\<forall>c\<in>set t. isHexChar c \<Longrightarrow> trimPrefix t ''0x'' = t"
  by (auto simp: trimPrefix_def isHexChar_iff code_def elim!: hasPrefixE)

text \<open>The two texts of a seed: hexadecimal, with or without its prefix.\<close>

definition seedText :: "bytes \<Rightarrow> string \<Rightarrow> bool" where
  "seedText seed t \<longleftrightarrow> t = hexEncode seed \<or> t = ''0x'' @ hexEncode seed"

lemma seedText_decodes: "seedText seed t \<Longrightarrow> hexDecode (trimPrefix t ''0x'') = Ok seed"
  using hexEncode_hex [of seed] trimPrefix_append [of "''0x''" "hexEncode seed"]
  by (auto simp: seedText_def trimPrefix_hex)

lemma seedText_plain: "seedText seed t \<Longrightarrow> plainText t"
proof (rule hexText_plain)
  assume "seedText seed t"
  moreover have "isHexChar (CHR ''0'')" by (simp add: isHexChar_iff code_def)
  ultimately show "\<forall>c\<in>set t. isHexChar c \<or> c = CHR ''x''"
    using hexEncode_hex [of seed] by (auto simp: seedText_def)
qed

lemma seedText_nonempty: "seedText seed t \<Longrightarrow> seed \<noteq> [] \<Longrightarrow> t \<noteq> []"
  by (cases seed) (auto simp: seedText_def)

lemma plain_of_seedText: "seedText seed t \<Longrightarrow> \<forall>c\<in>set t. plain c"
  using hexEncode_hex [of seed] isHexChar_plain by (auto simp: seedText_def plain_def code_def)

lemma seedBody_response:
  assumes "seedText seed t" and "validateSeed seed = Ok ()"
  shows "seedOfResponse \<lparr>hp_StatusCode = 200, hp_Body = stringBytes (seedBody t), hp_BodyError = None\<rparr> = Ok seed"
proof -
  have len: "16 \<le> length seed \<and> length seed \<le> 64" using assms(2) by (simp add: validateSeed_Ok_iff)
  then have "seed \<noteq> []" by auto
  then have t: "t \<noteq> []" by (rule seedText_nonempty [OF assms(1)])
  have "length t \<le> 130" using assms(1) len by (auto simp: seedText_def)
  then have short: "length (seedBody t) < 2 ^ 14" by (simp add: seedBody_def quoted_def)
  have trim: "trimSpace t = t" using plain_of_seedText [OF assms(1)] by (rule trimSpace_all_plain)
  show ?thesis
    using short trim t assms(2)
    by (simp add: seedOfResponse_def readLimited_def decodeSeedPayload_def
        jsonUnmarshal_seedBody [OF seedText_plain [OF assms(1)]] jsonMembers_def putString_def
        seedText_decodes [OF assms(1)])
qed

text \<open>
  C32: the three sources agree on what a seed is. A seed of 16 to 64 bytes is returned unchanged by the
  fixed source, by the environment variable that holds its text (white space and the prefix aside),
  and by the TEE whose answer carries its text; and whatever any of the sources returns has 16 to 64
  bytes. A source that is not configured fails with the sentinel, and does not reach the network.
\<close>

theorem seed_sources_agree:
  assumes "16 \<le> length seed" and "length seed \<le> 64" and "seedText seed t"
  shows "static_MasterSeed seed w = Some (Ok seed, w) \<and>
    (\<forall>get v. trimSpace (get v) = t \<longrightarrow>
       env_MasterSeed \<lparr>es_Var = v, es_Getenv = Some get\<rparr> w = Some (Ok seed, w)) \<and>
    (\<forall>dflt s c w'. ts_HTTPClient s = Some c \<longrightarrow> trimSpace (ts_BaseURL s) \<noteq> [] \<longrightarrow>
       trimSpace (ts_ServiceToken s) \<noteq> [] \<longrightarrow> hc_NewRequest c (hr_URL (teeRequest s)) = Ok () \<longrightarrow>
       hc_Do c (teeRequest s) w =
         Some (Ok \<lparr>hp_StatusCode = 200, hp_Body = stringBytes (seedBody t), hp_BodyError = None\<rparr>, w') \<longrightarrow>
       tee_MasterSeed dflt (Some s) w = Some (Ok seed, w')) \<and>
    (\<forall>dflt s x seed' w'. static_MasterSeed seed' w = Some (Ok x, w') \<or> env_MasterSeed e w = Some (Ok x, w') \<or>
       tee_MasterSeed dflt s w = Some (Ok x, w') \<longrightarrow> 16 \<le> length x \<and> length x \<le> 64) \<and>
    (\<forall>dflt s. s = None \<or> trimSpace (ts_BaseURL (the s)) = [] \<or> trimSpace (ts_ServiceToken (the s)) = [] \<longrightarrow>
       tee_MasterSeed dflt s w = Some (Err ErrMasterSeedNotConfigured, w))"
proof -
  have v: "validateSeed seed = Ok ()" using assms(1,2) by (simp add: validateSeed_Ok_iff)
  have sd: "seed \<noteq> []" using assms(1) by auto
  then have ne: "t \<noteq> []" by (rule seedText_nonempty [OF assms(3)])
  have 1: "static_MasterSeed seed w = Some (Ok seed, w)"
    using v sd by (simp add: static_MasterSeed_def io_eval io_bind_lift)
  have 2: "env_MasterSeed \<lparr>es_Var = v, es_Getenv = Some get\<rparr> w = Some (Ok seed, w)" if "trimSpace (get v) = t" for get v
    using that ne \<open>validateSeed seed = Ok ()\<close>
    by (simp add: env_MasterSeed_def seedText_decodes [OF assms(3)] io_eval io_bind_lift)
  have 3: "tee_MasterSeed dflt (Some s) w = Some (Ok seed, w')"
    if "ts_HTTPClient s = Some c" "trimSpace (ts_BaseURL s) \<noteq> []" "trimSpace (ts_ServiceToken s) \<noteq> []"
      "hc_NewRequest c (hr_URL (teeRequest s)) = Ok ()" "hc_Do c (teeRequest s) w =
         Some (Ok \<lparr>hp_StatusCode = 200, hp_Body = stringBytes (seedBody t), hp_BodyError = None\<rparr>, w')"
    for dflt s c w'
    using that seedBody_response [OF assms(3) v]
    by (simp add: tee_MasterSeed_def Let_def io_bind_lift io_wrap_def io_eval)
  have 4: "16 \<le> length x \<and> length x \<le> 64"
    if "static_MasterSeed seed' w = Some (Ok x, w') \<or> env_MasterSeed e w = Some (Ok x, w') \<or>
       tee_MasterSeed dflt s w = Some (Ok x, w')" for dflt s x seed' w'
    using that by (elim disjE) (erule static.seed_length envvar.seed_length tee.seed_length)+
  have 5: "tee_MasterSeed dflt s w = Some (Err ErrMasterSeedNotConfigured, w)"
    if "s = None \<or> trimSpace (ts_BaseURL (the s)) = [] \<or> trimSpace (ts_ServiceToken (the s)) = []" for dflt s
    using that by (auto simp: tee_MasterSeed_def fail_def split: option.splits)
  from 1 2 3 4 5 show ?thesis by blast
qed

theorem seed_sources_agree_witness:
  "env_MasterSeed \<lparr>es_Var = ''SEED'', es_Getenv = Some (\<lambda>_. ''0x'' @ hexEncode (replicate 16 1))\<rparr> (0 :: nat) =
     Some (Ok (replicate 16 1), 0)"
proof -
  have t: "seedText (replicate 16 1) (''0x'' @ hexEncode (replicate 16 1))" by (simp add: seedText_def)
  have trim: "trimSpace (''0x'' @ hexEncode (replicate 16 1)) = ''0x'' @ hexEncode (replicate 16 1)"
    using plain_of_seedText [OF t] by (rule trimSpace_all_plain)
  have env: "env_MasterSeed \<lparr>es_Var = v, es_Getenv = Some get\<rparr> (0 :: nat) = Some (Ok (replicate 16 1), 0)"
    if "trimSpace (get v) = ''0x'' @ hexEncode (replicate 16 1)" for get v
    using that seed_sources_agree [where w = "0 :: nat", OF _ _ t, THEN conjunct2, THEN conjunct1] by simp
  show ?thesis by (rule env) (rule trim)
qed

end
