(* ===== verification/SvcCore.thy ===== *)
theory SvcCore
  imports SeedSource Passkey
begin

text \<open>
  The shared part of \<open>src/cmd/wallet-svc\<close>: the configuration the service is started with
  (\<open>main\<close>, \<open>loadMasterSeed\<close>, \<open>envOr\<close>), Bearer authorisation, and the key selector. A request is its
  method, path, authorisation header and body; an answer is a status and the JSON value that
  \<open>writeJSON\<close> encodes. Global variables of the program are the record \<open>svc\<close>.
\<close>

section \<open>Texts of errors\<close>

text \<open>
  \<open>Error()\<close>: a format with its arguments in order; \<open>%w\<close> takes the wrapped error. \<open>%q\<close> quotes ASCII
  text as Go does and leaves other bytes as they are.
\<close>

definition quoteChar :: "char \<Rightarrow> string" where
  "quoteChar c =
     (if c = CHR 0x22 \<or> c = CHR 0x5C then [CHR 0x5C, c]
      else if code c = 7 then CHR 0x5C # ''a'' else if code c = 8 then CHR 0x5C # ''b''
      else if code c = 9 then CHR 0x5C # ''t'' else if code c = 10 then CHR 0x5C # ''n''
      else if code c = 11 then CHR 0x5C # ''v'' else if code c = 12 then CHR 0x5C # ''f''
      else if code c = 13 then CHR 0x5C # ''r''
      else if code c < 32 \<or> code c = 127 then CHR 0x5C # ''x'' @ [hexDigit (code c div 16), hexDigit (code c mod 16)]
      else [c])"

definition goQuote :: "string \<Rightarrow> string" where
  "goQuote s = CHR 0x22 # concat (map quoteChar s) @ [CHR 0x22]"

fun fillFormat :: "string \<Rightarrow> string \<Rightarrow> string list \<Rightarrow> string" where
  "fillFormat inner (p # c # f) as =
     (if p \<noteq> CHR ''%'' then p # fillFormat inner (c # f) as
      else if c = CHR ''w'' then inner @ fillFormat inner f as
      else case as of
             [] \<Rightarrow> p # fillFormat inner (c # f) []
           | a # as' \<Rightarrow> (if c = CHR ''q'' then goQuote a else a) @ fillFormat inner f as')"
| "fillFormat inner f as = f"

fun errText :: "error \<Rightarrow> string" where
  "errText (Errorf f as) = fillFormat [] f as"
| "errText (Wrap f as e) = fillFormat (errText e) f as"
| "errText ErrNoAuthorization = ''agentwallet: no active authorization''"
| "errText ErrAuthorizationMissingSignature = ''agentwallet: authorization missing signature (re-authorize)''"
| "errText ErrAllowanceExceeded = ''agentwallet: spend exceeds remaining allowance''"
| "errText ErrReceiptTimeout = ''agentwallet rpc: receipt wait timed out''"
| "errText ErrSignerNotConfigured = ''agentwallet: signer not configured''"
| "errText ErrMasterSeedNotConfigured = ''aiggwallet: master seed not configured''"
| "errText NotFound = ''not found''"
| "errText (External s) = s"

section \<open>Requests, answers, ports\<close>

record request =
  rq_Method :: string
  rq_Path :: string
  rq_Authorization :: string \<comment> \<open>empty when the header is absent\<close>
  rq_Body :: string          \<comment> \<open>what can be read of the body\<close>

record response =
  rs_Code :: nat
  rs_Body :: json

definition answer :: "nat \<Rightarrow> (string \<times> json) list \<Rightarrow> ('w, response) io" where
  "answer c ms = ret \<lparr>rs_Code = c, rs_Body = JObj ms\<rparr>"

definition refuse :: "nat \<Rightarrow> string \<Rightarrow> ('w, response) io" where
  "refuse c e = answer c [(''error'', JStr e)]"

text \<open>
  The clock, the random source, and the third-party decoder of a typed-data value (the value that is
  stored, and the value already there).
\<close>

record 'w svc_port =
  vp_now :: "('w, i64) io"
  vp_rand :: "nat \<Rightarrow> ('w, bytes) io"
  vp_typedData :: "json \<Rightarrow> typed_data \<Rightarrow> typed_data res"

record 'w svc =
  sv_seed :: bytes
  sv_authToken :: string
  sv_allowGenericSign :: bool
  sv_allowSignTx :: bool
  sv_gccToken :: string
  sv_gccName :: string
  sv_gccVersion :: string
  sv_payTo :: string
  sv_chainID :: i64
  sv_maxValue :: "int option" \<comment> \<open>nil is no cap\<close>
  sv_timeoutSecs :: i64
  sv_cswRPC :: "'w base_rpc option"
  sv_listen :: string

abbreviation coin :: u32 where
  "coin \<equiv> DefaultCoinType"

definition networkStr :: "'w svc \<Rightarrow> string" where
  "networkStr V = ''eip155:'' @ showI (sv_chainID V)"

section \<open>Start-up\<close>

definition envOr :: "(string \<Rightarrow> string) \<Rightarrow> string \<Rightarrow> string \<Rightarrow> string" where
  "envOr getenv k def = (let v = trimSpace (getenv k) in if v \<noteq> [] then v else def)"

text \<open>\<open>strconv.ParseInt(s, 10, 64)\<close>, its error ignored: zero on bad syntax, clamped out of range.\<close>

fun parseUint64 :: "nat \<Rightarrow> string \<Rightarrow> nat option" where
  "parseUint64 acc [] = Some acc"
| "parseUint64 acc (c # s) =
     (if \<not> isDigit c then None
      else
        let n = acc * 10 + (code c - 48) in
        if n \<ge> 2 ^ 64 then Some (2 ^ 64 - 1) else parseUint64 n s)"

definition parseInt64 :: "string \<Rightarrow> i64" where
  "parseInt64 s =
     (let (neg, ds) = (case s of c # t \<Rightarrow> if c = CHR ''-'' then (True, t) else if c = CHR ''+'' then (False, t)
                         else (False, s) | [] \<Rightarrow> (False, [])) in
      if ds = [] then 0
      else case parseUint64 0 ds of
             None \<Rightarrow> 0
           | Some n \<Rightarrow>
               if \<not> neg \<and> n \<ge> 2 ^ 63 then 0x7FFFFFFFFFFFFFFF
               else if neg \<and> n > 2 ^ 63 then 0x8000000000000000
               else word_of_int (if neg then - int n else int n))"

text \<open>The parameter \<open>dflt\<close> is the HTTP client a source without one uses.\<close>

definition loadMasterSeed :: "'w http_client \<Rightarrow> (string \<Rightarrow> string) \<Rightarrow> ('w, bytes) io" where
  "loadMasterSeed dflt getenv =
     (let base = envOr getenv ''WALLET_TEE_BASE_URL'' [] in
      if base \<noteq> [] then
        tee_MasterSeed dflt (Some \<lparr>ts_BaseURL = base, ts_ServiceToken = envOr getenv ''WALLET_TEE_TOKEN'' [],
          ts_Path = envOr getenv ''WALLET_TEE_PATH'' [], ts_HTTPClient = None\<rparr>)
      else env_MasterSeed \<lparr>es_Var = ''WALLET_MASTER_SEED'', es_Getenv = Some getenv\<rparr>)"

definition maxValueOf :: "(string \<Rightarrow> string) \<Rightarrow> int option" where
  "maxValueOf getenv =
     (let mv = envOr getenv ''WALLET_MAX_VALUE'' [] in if mv \<noteq> [] then setString 10 mv else None)"

definition cswRPCOf :: "(string \<Rightarrow> ('w, 'w eth_client) io) \<Rightarrow> (string \<Rightarrow> string) \<Rightarrow> ('w, 'w base_rpc option) io" where
  "cswRPCOf dial getenv =
     (let u = envOr getenv ''WALLET_CSW_RPC_URL'' [] in
      if u = [] then ret None
      else io_try (NewBaseRPC dial u) (\<lambda>_. ret None) (\<lambda>rpc. ret (Some rpc)))"

text \<open>\<open>main\<close> up to the point where it listens; a seed that cannot be loaded is fatal.\<close>

definition startService ::
  "'w http_client \<Rightarrow> (string \<Rightarrow> ('w, 'w eth_client) io) \<Rightarrow> (string \<Rightarrow> string) \<Rightarrow> ('w, 'w svc) io" where
  "startService dflt dial getenv =
     io_bind (loadMasterSeed dflt getenv) (\<lambda>seed.
     io_bind (cswRPCOf dial getenv) (\<lambda>rpc.
     ret \<lparr>sv_seed = seed,
          sv_authToken = envOr getenv ''WALLET_AUTH_TOKEN'' [],
          sv_allowGenericSign = (getenv ''WALLET_ALLOW_GENERIC_SIGN'' = ''1''),
          sv_allowSignTx = (getenv ''WALLET_ALLOW_SIGN_TX'' = ''1''),
          sv_gccToken = envOr getenv ''WALLET_GCC_TOKEN'' [],
          sv_gccName = envOr getenv ''WALLET_GCC_NAME'' ''Guaranteed Capacity Credit'',
          sv_gccVersion = envOr getenv ''WALLET_GCC_VERSION'' ''1'',
          sv_payTo = envOr getenv ''WALLET_PAY_TO'' [],
          sv_chainID = parseInt64 (envOr getenv ''WALLET_CHAIN_ID'' ''84532''),
          sv_maxValue = maxValueOf getenv,
          sv_timeoutSecs = parseInt64 (envOr getenv ''WALLET_TIMEOUT_SECONDS'' ''300''),
          sv_cswRPC = rpc,
          sv_listen = envOr getenv ''WALLET_LISTEN'' '':8091''\<rparr>))"

text \<open>What is loaded at start-up is a seed of the port.\<close>

interpretation startup: master_seed_source "loadMasterSeed dflt getenv" for dflt getenv
  by unfold_locales (auto simp: loadMasterSeed_def Let_def dest: tee.seed_law envvar.seed_law split: if_splits)

lemma parseUint64_digits:
  "(\<forall>c\<in>set s. isDigit c) \<Longrightarrow> \<exists>n. parseUint64 acc s = Some n"
  by (induction s arbitrary: acc) (auto simp: Let_def)

section \<open>Authorisation\<close>

definition bearer :: string where
  "bearer = ''Bearer ''"

definition authed :: "'w svc \<Rightarrow> request \<Rightarrow> bool" where
  "authed V r \<longleftrightarrow>
     (if sv_authToken V = [] then False
      else
        let h = rq_Authorization r in
        if length h \<le> length bearer \<or> \<not> equalFold (take (length bearer) h) bearer then False
        else trimSpace (drop (length bearer) h) = sv_authToken V)"

text \<open>The checks every handler but \<open>/healthz\<close> starts with.\<close>

definition guarded :: "'w svc \<Rightarrow> request \<Rightarrow> ('w, response) io \<Rightarrow> ('w, response) io" where
  "guarded V r k =
     (if rq_Method r \<noteq> ''POST'' then refuse 405 ''method''
      else if \<not> authed V r then refuse 401 ''unauthorized''
      else k)"

lemma authed_iff:
  "authed V r \<longleftrightarrow> sv_authToken V \<noteq> [] \<and>
     (\<exists>scheme rest. rq_Authorization r = scheme @ rest \<and> length scheme = 7 \<and> rest \<noteq> [] \<and>
        equalFold scheme ''Bearer '' \<and> trimSpace rest = sv_authToken V)"
proof -
  have l: "length bearer = 7" by (simp add: bearer_def)
  have split: "length h > 7 \<and> equalFold (take 7 h) p \<and> trimSpace (drop 7 h) = t \<longleftrightarrow>
      (\<exists>scheme rest. h = scheme @ rest \<and> length scheme = 7 \<and> rest \<noteq> [] \<and>
         equalFold scheme p \<and> trimSpace rest = t)" for h t p
  proof
    assume a: "length h > 7 \<and> equalFold (take 7 h) p \<and> trimSpace (drop 7 h) = t"
    then have "h = take 7 h @ drop 7 h \<and> length (take 7 h) = 7 \<and> drop 7 h \<noteq> []" by simp
    with a show "\<exists>scheme rest. h = scheme @ rest \<and> length scheme = 7 \<and> rest \<noteq> [] \<and>
         equalFold scheme p \<and> trimSpace rest = t" by blast
  qed auto
  have "authed V r \<longleftrightarrow> sv_authToken V \<noteq> [] \<and> (length (rq_Authorization r) > 7 \<and>
      equalFold (take 7 (rq_Authorization r)) bearer \<and> trimSpace (drop 7 (rq_Authorization r)) = sv_authToken V)"
    by (simp add: authed_def l Let_def not_le)
  then show ?thesis unfolding split by (simp only: bearer_def)
qed

section \<open>The key selector\<close>

record key_selector =
  ks_Subject :: string
  ks_Owner :: u32
  ks_Agent :: u32
  ks_Path :: "u32 list"

definition accountFor :: "eth_lib \<Rightarrow> string \<Rightarrow> u32" where
  "accountFor E subject =
     (let h = keccak256 E (stringBytes subject);
          v = push_bit 24 (ucast (h ! 0)) OR push_bit 16 (ucast (h ! 1)) OR push_bit 8 (ucast (h ! 2)) OR
              ucast (h ! 3) in
      v AND 0x7fffffff)"

definition deriveKey :: "eth_lib \<Rightarrow> 'w svc \<Rightarrow> key_selector \<Rightarrow> agent_key res" where
  "deriveKey E V sel =
     (if ks_Path sel \<noteq> [] then DerivePath E (sv_seed V) (ks_Path sel)
      else if ks_Subject sel \<noteq> [] then Derive E (sv_seed V) coin (accountFor E (ks_Subject sel))
      else if ks_Owner sel \<ge> 1 then DeriveAgent E (sv_seed V) coin (ks_Owner sel) (ks_Agent sel)
      else Err (Errorf ''selector_required: provide subject | path | owner(>=1)+agent'' []))"

definition decodeSelector :: "(string \<times> json) list \<Rightarrow> key_selector res" where
  "decodeSelector ms =
     res_bind (jsonField ''subject'' putString ms []) (\<lambda>subject.
     res_bind (jsonField ''owner'' putUint ms 0) (\<lambda>owner.
     res_bind (jsonField ''agent'' putUint ms 0) (\<lambda>agent.
     res_bind (jsonList ''path'' putUint 0 ms) (\<lambda>path.
     Ok \<lparr>ks_Subject = subject, ks_Owner = owner, ks_Agent = agent, ks_Path = path\<rparr>))))"

text \<open>\<open>json.NewDecoder(r.Body).Decode(&req)\<close> for a request structure.\<close>

definition decodeBody :: "((string \<times> json) list \<Rightarrow> 'a res) \<Rightarrow> request \<Rightarrow> 'a res" where
  "decodeBody f r = res_bind (jsonDecode (rq_Body r)) (\<lambda>j. res_bind (jsonMembers j) f)"

text \<open>The indices a selector stands for.\<close>

definition selected :: "eth_lib \<Rightarrow> key_selector \<Rightarrow> u32 list" where
  "selected E sel =
     (if ks_Path sel \<noteq> [] then ks_Path sel
      else if ks_Subject sel \<noteq> [] then [bip44Purpose, coin, accountFor E (ks_Subject sel)]
      else [bip44Purpose, coin, ks_Owner sel, ks_Agent sel])"

lemma deriveKey_Ok_iff [io_ok]:
  "deriveKey E V sel = Ok k \<longleftrightarrow>
     deriveHardened E (sv_seed V) (selected E sel) = Ok k \<and>
     (ks_Path sel = [] \<longrightarrow>
        (if ks_Subject sel = [] then 1 \<le> ks_Owner sel else accountFor E (ks_Subject sel) \<noteq> 0))"
  by (auto simp: deriveKey_def selected_def DerivePath_def DeriveAgent_def Derive_Ok_iff deriveHardened_Ok_iff
      word_gt_0)

lemma deriveKey_key:
  "deriveKey E V sel = Ok k \<Longrightarrow> \<exists>priv. toECDSA E (ak_PrivateKey k) = Ok priv \<and>
     ak_Address k = addressHex E (pubkeyToAddress E (ek_PublicKey priv))"
  by (auto simp: io_ok)

end
