(* ===== verification/WalletSvc.thy ===== *)
theory WalletSvc
  imports SvcCore TypedData
begin

text \<open>
  The handlers of \<open>src/cmd/wallet-svc\<close> (\<open>main.go\<close>, \<open>derive.go\<close>, \<open>signtx.go\<close>, \<open>csw.go\<close>) and their
  routes. Every handler is an operation on a world that answers a request; an early \<open>return\<close> after
  \<open>writeJSON\<close> is the answer, and a panic of a library call is the outcome \<open>Panic\<close> (the server drops the
  connection). The properties say who is answered, and what a signing endpoint can have signed.
\<close>

section \<open>Addresses\<close>

text \<open>An error of the key derivation is the caller's fault, with the error's text.\<close>

definition withDerived ::
  "string \<Rightarrow> agent_key res \<Rightarrow> (agent_key \<Rightarrow> ('w, response) io) \<Rightarrow> ('w, response) io" where
  "withDerived prefix r k = io_try (lift r) (\<lambda>e. refuse 400 (prefix @ errText e)) k"

definition addressAnswer :: "agent_key \<Rightarrow> ('w, response) io" where
  "addressAnswer key =
     answer 200 [(''address'', JStr (ak_Address key)), (''derivationPath'', JStr (ak_DerivationPath key))]"

definition addressHandler :: "eth_lib \<Rightarrow> 'w svc \<Rightarrow> request \<Rightarrow> ('w, response) io" where
  "addressHandler E V r =
     guarded V r (
     io_try (lift (decodeBody decodeSelector r)) (\<lambda>_. refuse 400 ''bad_request'') (\<lambda>sel.
     withDerived [] (deriveKey E V sel) addressAnswer))"

definition decodeAgentAddr :: "(string \<times> json) list \<Rightarrow> (u32 \<times> u32) res" where
  "decodeAgentAddr ms =
     res_bind (jsonField ''owner'' putUint ms 0) (\<lambda>owner.
     res_bind (jsonField ''agent'' putUint ms 0) (\<lambda>agent. Ok (owner, agent)))"

definition agentAddressHandler :: "eth_lib \<Rightarrow> 'w svc \<Rightarrow> request \<Rightarrow> ('w, response) io" where
  "agentAddressHandler E V r =
     guarded V r (
     io_try (lift (decodeBody decodeAgentAddr r)) (\<lambda>_. refuse 400 ''bad_request'') (\<lambda>(owner, agent).
     withDerived [] (DeriveAgent E (sv_seed V) coin owner agent) addressAnswer))"

definition decodePathAddr :: "(string \<times> json) list \<Rightarrow> u32 list res" where
  "decodePathAddr ms = jsonList ''path'' putUint 0 ms"

definition pathAddressHandler :: "eth_lib \<Rightarrow> 'w svc \<Rightarrow> request \<Rightarrow> ('w, response) io" where
  "pathAddressHandler E V r =
     guarded V r (
     io_try (lift (decodeBody decodePathAddr r)) (\<lambda>_. refuse 400 ''path_required'') (\<lambda>path.
     if path = [] then refuse 400 ''path_required''
     else withDerived [] (DerivePath E (sv_seed V) path) addressAnswer))"

section \<open>Signing a payment\<close>

record eip3009_req =
  er_Selector :: key_selector
  er_Value :: string
  er_ValidAfter :: i64
  er_ValidBefore :: i64
  er_Nonce :: string

definition decodeEip3009 :: "(string \<times> json) list \<Rightarrow> eip3009_req res" where
  "decodeEip3009 ms =
     res_bind (decodeSelector ms) (\<lambda>sel.
     res_bind (jsonField ''value'' putString ms []) (\<lambda>value.
     res_bind (jsonField ''validAfter'' putInt64 ms 0) (\<lambda>after.
     res_bind (jsonField ''validBefore'' putInt64 ms 0) (\<lambda>before.
     res_bind (jsonField ''nonce'' putString ms []) (\<lambda>nonce.
     Ok \<lparr>er_Selector = sel, er_Value = value, er_ValidAfter = after, er_ValidBefore = before,
         er_Nonce = nonce\<rparr>)))))"

definition randomNonce :: "'w svc_port \<Rightarrow> ('w, string) io" where
  "randomNonce P = io_bind (vp_rand P 32) (\<lambda>b. ret (''0x'' @ hexEncode b))"

definition eip3009_params_of ::
  "'w svc \<Rightarrow> string \<Rightarrow> int \<Rightarrow> i64 \<Rightarrow> i64 \<Rightarrow> string \<Rightarrow> eip3009_params" where
  "eip3009_params_of V sender value validAfter validBefore nonce =
     \<lparr>tp_Token = sv_gccToken V, tp_From = sender, tp_To = sv_payTo V, tp_Value = showInt value,
      tp_ValidAfter = validAfter, tp_ValidBefore = validBefore, tp_Nonce = nonce, tp_ChainID = sv_chainID V\<rparr>"

text \<open>The x402 wire of a payment.\<close>

definition eip3009_answer ::
  "'w svc \<Rightarrow> string \<Rightarrow> int \<Rightarrow> i64 \<Rightarrow> i64 \<Rightarrow> string \<Rightarrow> signed_payload \<Rightarrow> (string \<times> json) list" where
  "eip3009_answer V sender value validAfter validBefore nonce sp =
     (let authorization = JObj
            [(''from'', JStr sender), (''to'', JStr (sv_payTo V)), (''value'', JStr (showInt value)),
             (''validAfter'', JStr (showI validAfter)), (''validBefore'', JStr (showI validBefore)),
             (''nonce'', JStr nonce)];
          payload = JObj
            [(''x402Version'', JNum ''2''),
             (''accepted'', JObj
                [(''scheme'', JStr ''exact''), (''network'', JStr (networkStr V)),
                 (''amount'', JStr (showInt value)), (''asset'', JStr (sv_gccToken V)),
                 (''payTo'', JStr (sv_payTo V))]),
             (''payload'', JObj [(''signature'', JStr (sp_Signature sp)), (''authorization'', authorization)])];
          requirements = JObj
            [(''scheme'', JStr ''exact''), (''network'', JStr (networkStr V)), (''asset'', JStr (sv_gccToken V)),
             (''amount'', JStr (showInt value)), (''maxTimeoutSeconds'', JNum (showI (sv_timeoutSecs V))),
             (''payTo'', JStr (sv_payTo V)),
             (''extra'', JObj
                [(''name'', JStr (sv_gccName V)), (''version'', JStr (sv_gccVersion V)),
                 (''verifyingContract'', JStr (sv_gccToken V))])] in
      [(''address'', JStr sender), (''signature'', JStr (sp_Signature sp)), (''digest'', JStr (sp_Digest sp)),
       (''payload'', payload), (''requirements'', requirements)])"

definition signFailed :: "error \<Rightarrow> ('w, response) io" where
  "signFailed e = answer 400 [(''error'', JStr ''sign_failed''), (''detail'', JStr (errText e))]"

text \<open>From the validated request on: the validity window, the nonce, the key, the signature.\<close>

definition eip3009_nonce :: "'w svc_port \<Rightarrow> eip3009_req \<Rightarrow> ('w, string) io" where
  "eip3009_nonce P req =
     (let nonce = trimSpace (er_Nonce req) in if nonce = [] then randomNonce P else ret nonce)"

definition eip3009_sign ::
  "eth_lib \<Rightarrow> 'w svc \<Rightarrow> eip3009_req \<Rightarrow> int \<Rightarrow> i64 \<Rightarrow> string \<Rightarrow> ('w, response) io" where
  "eip3009_sign E V req value now nonce =
     (let validAfter = (if er_ValidAfter req = 0 then now - 10 else er_ValidAfter req);
          validBefore = (if er_ValidBefore req = 0 then now + sv_timeoutSecs V else er_ValidBefore req) in
      withDerived [] (deriveKey E V (er_Selector req)) (\<lambda>key.
      io_try (lift (BuildEIP3009TypedData
          (eip3009_params_of V (ak_Address key) value validAfter validBefore nonce) (sv_gccName V) (sv_gccVersion V)))
        signFailed (\<lambda>td.
      io_try (lift (SignTypedData E (ak_PrivateKey key) td)) signFailed (\<lambda>sp.
      answer 200 (eip3009_answer V (ak_Address key) value validAfter validBefore nonce sp)))))"

definition signEip3009Handler :: "eth_lib \<Rightarrow> 'w svc_port \<Rightarrow> 'w svc \<Rightarrow> request \<Rightarrow> ('w, response) io" where
  "signEip3009Handler E P V r =
     guarded V r (
     if sv_gccToken V = [] \<or> sv_payTo V = [] \<or> sv_chainID V = 0 then
       answer 501 [(''error'', JStr ''eip3009_not_configured''),
                   (''hint'', JStr ''set WALLET_GCC_TOKEN, WALLET_PAY_TO, WALLET_CHAIN_ID'')]
     else
     io_try (lift (decodeBody decodeEip3009 r)) (\<lambda>_. refuse 400 ''selector_and_value_required'') (\<lambda>req.
     if er_Value req = [] then refuse 400 ''selector_and_value_required''
     else case setString 10 (er_Value req) of
       None \<Rightarrow> refuse 400 ''bad_value''
     | Some value \<Rightarrow>
         if value < 0 then refuse 400 ''bad_value''
         else if sv_maxValue V \<noteq> None \<and> value > the (sv_maxValue V) then
           answer 403 [(''error'', JStr ''value_exceeds_max''), (''max'', JStr (showInt (the (sv_maxValue V))))]
         else
           io_bind (vp_now P) (\<lambda>now.
           io_try (eip3009_nonce P req) (\<lambda>_. refuse 500 ''nonce_gen'') (\<lambda>nonce.
           eip3009_sign E V req value now nonce))))"

section \<open>Generic signing\<close>

definition zeroTypedData :: typed_data where
  "zeroTypedData = \<lparr>td_Types = [], td_PrimaryType = [],
     td_Domain = \<lparr>dom_Name = [], dom_Version = [], dom_ChainId = None, dom_VerifyingContract = [], dom_Salt = []\<rparr>,
     td_Message = []\<rparr>"

definition putTypedData :: "'w svc_port \<Rightarrow> json \<Rightarrow> typed_data \<Rightarrow> typed_data res" where
  "putTypedData P j x = (case j of JNull \<Rightarrow> Ok x | _ \<Rightarrow> vp_typedData P j x)"

definition decodeSignReq :: "'w svc_port \<Rightarrow> (string \<times> json) list \<Rightarrow> (key_selector \<times> typed_data) res" where
  "decodeSignReq P ms =
     res_bind (decodeSelector ms) (\<lambda>sel.
     res_bind (jsonField ''typedData'' (putTypedData P) ms zeroTypedData) (\<lambda>td. Ok (sel, td)))"

definition signHandler :: "eth_lib \<Rightarrow> 'w svc_port \<Rightarrow> 'w svc \<Rightarrow> request \<Rightarrow> ('w, response) io" where
  "signHandler E P V r =
     guarded V r (
     if \<not> sv_allowGenericSign V then
       answer 403 [(''error'', JStr ''generic_sign_disabled''),
                   (''hint'', JStr ''use /sign/eip3009 (scoped) or set WALLET_ALLOW_GENERIC_SIGN=1 (dev)'')]
     else
     io_try (lift (decodeBody (decodeSignReq P) r)) (\<lambda>_. refuse 400 ''bad_request'') (\<lambda>(sel, td).
     withDerived [] (deriveKey E V sel) (\<lambda>key.
     io_try (lift (SignTypedData E (ak_PrivateKey key) td)) signFailed (\<lambda>sp.
     answer 200 [(''address'', JStr (ak_Address key)), (''signature'', JStr (sp_Signature sp)),
                 (''digest'', JStr (sp_Digest sp))]))))"

section \<open>Signing a transaction\<close>

record sign_tx_req =
  xr_Owner :: u32
  xr_Agent :: u32
  xr_Path :: "u32 list"
  xr_ChainID :: i64
  xr_Nonce :: u64
  xr_To :: string
  xr_Data :: string
  xr_Value :: string
  xr_Gas :: u64
  xr_GasTipCap :: string
  xr_GasFeeCap :: string

definition decodeSignTx :: "(string \<times> json) list \<Rightarrow> sign_tx_req res" where
  "decodeSignTx ms =
     res_bind (jsonField ''owner'' putUint ms 0) (\<lambda>owner.
     res_bind (jsonField ''agent'' putUint ms 0) (\<lambda>agent.
     res_bind (jsonList ''path'' putUint 0 ms) (\<lambda>path.
     res_bind (jsonField ''chainID'' putInt64 ms 0) (\<lambda>chainID.
     res_bind (jsonField ''nonce'' putUint ms 0) (\<lambda>nonce.
     res_bind (jsonField ''to'' putString ms []) (\<lambda>to.
     res_bind (jsonField ''data'' putString ms []) (\<lambda>data.
     res_bind (jsonField ''value'' putString ms []) (\<lambda>value.
     res_bind (jsonField ''gas'' putUint ms 0) (\<lambda>gas.
     res_bind (jsonField ''gasTipCap'' putString ms []) (\<lambda>tip.
     res_bind (jsonField ''gasFeeCap'' putString ms []) (\<lambda>feeCap.
     Ok \<lparr>xr_Owner = owner, xr_Agent = agent, xr_Path = path, xr_ChainID = chainID, xr_Nonce = nonce,
         xr_To = to, xr_Data = data, xr_Value = value, xr_Gas = gas, xr_GasTipCap = tip,
         xr_GasFeeCap = feeCap\<rparr>)))))))))))"

definition parseHexBytes :: "string \<Rightarrow> bytes res" where
  "parseHexBytes s = hexDecode (trimPrefix (trimSpace s) ''0x'')"

definition decWeiOrZero :: "string \<Rightarrow> int option" where
  "decWeiOrZero s0 =
     (let s = trimSpace s0 in
      if s = [] then Some 0
      else case setString 10 s of None \<Rightarrow> None | Some v \<Rightarrow> if v < 0 then None else Some v)"

definition signTxKey :: "eth_lib \<Rightarrow> 'w svc \<Rightarrow> sign_tx_req \<Rightarrow> agent_key res" where
  "signTxKey E V req =
     (if xr_Path req \<noteq> [] then DerivePath E (sv_seed V) (xr_Path req)
      else DeriveAgent E (sv_seed V) coin (xr_Owner req) (xr_Agent req))"

definition signTxOf :: "eth_lib \<Rightarrow> sign_tx_req \<Rightarrow> bytes \<Rightarrow> int \<Rightarrow> int \<Rightarrow> int \<Rightarrow> transaction" where
  "signTxOf E req data value tip feeCap =
     NewTx \<lparr>tx_ChainID = sint (xr_ChainID req), tx_Nonce = xr_Nonce req, tx_GasTipCap = tip,
            tx_GasFeeCap = feeCap, tx_Gas = xr_Gas req, tx_To = hexToAddress E (xr_To req),
            tx_Value = value, tx_Data = data\<rparr>"

definition sign_tx_with ::
  "eth_lib \<Rightarrow> 'w svc \<Rightarrow> sign_tx_req \<Rightarrow> bytes \<Rightarrow> int \<Rightarrow> int \<Rightarrow> int \<Rightarrow> ('w, response) io" where
  "sign_tx_with E V req data value tip feeCap =
     withDerived ''derive: '' (signTxKey E V req) (\<lambda>key.
     io_try (lift (toECDSA E (ak_PrivateKey key))) (\<lambda>e. refuse 500 (''to-ecdsa: '' @ errText e)) (\<lambda>priv.
     io_try (lift (signTx E (signTxOf E req data value tip feeCap) (sint (xr_ChainID req)) priv))
       (\<lambda>e. refuse 500 (''sign: '' @ errText e)) (\<lambda>sgn.
     io_try (lift (marshalTx E sgn)) (\<lambda>e. refuse 500 (''marshal: '' @ errText e)) (\<lambda>raw.
     answer 200 [(''from'', JStr (ak_Address key)), (''rawSignedTx'', JStr (''0x'' @ hexEncode raw)),
                 (''hash'', JStr (hashHex E (txHash E sgn)))]))))"

definition signTxHandler :: "eth_lib \<Rightarrow> 'w svc \<Rightarrow> request \<Rightarrow> ('w, response) io" where
  "signTxHandler E V r =
     guarded V r (
     if \<not> sv_allowSignTx V then
       answer 403 [(''error'', JStr ''sign_tx_disabled''), (''hint'', JStr ''set WALLET_ALLOW_SIGN_TX=1'')]
     else
     io_try (lift (decodeBody decodeSignTx r)) (\<lambda>_. refuse 400 ''bad_request'') (\<lambda>req.
     if sint (xr_ChainID req) \<le> 0 \<or> xr_Gas req = 0 \<or> \<not> isHexAddress E (xr_To req) then
       refuse 400 ''chainID>0, gas>0, valid to required''
     else
     io_try (lift (parseHexBytes (xr_Data req))) (\<lambda>_. refuse 400 ''bad_data_hex'') (\<lambda>data.
     case (decWeiOrZero (xr_Value req), decWeiOrZero (xr_GasTipCap req), decWeiOrZero (xr_GasFeeCap req)) of
       (Some value, Some tip, Some feeCap) \<Rightarrow> sign_tx_with E V req data value tip feeCap
     | _ \<Rightarrow> refuse 400 ''bad value/gasTipCap/gasFeeCap (decimal wei)'')))"

section \<open>Smart accounts\<close>

record csw_erc1271_req =
  cq_AuthenticatorData :: string
  cq_ClientDataJSON :: string
  cq_Signature :: string
  cq_OwnerIndex :: u64

definition decodeCswErc1271 :: "(string \<times> json) list \<Rightarrow> csw_erc1271_req res" where
  "decodeCswErc1271 ms =
     res_bind (jsonField ''authenticatorData'' putString ms []) (\<lambda>ad.
     res_bind (jsonField ''clientDataJSON'' putString ms []) (\<lambda>cdj.
     res_bind (jsonField ''signature'' putString ms []) (\<lambda>sig.
     res_bind (jsonField ''ownerIndex'' putUint ms 0) (\<lambda>ix.
     Ok \<lparr>cq_AuthenticatorData = ad, cq_ClientDataJSON = cdj, cq_Signature = sig, cq_OwnerIndex = ix\<rparr>))))"

text \<open>A non-empty hexadecimal field.\<close>

definition nonEmptyHex :: "string \<Rightarrow> bytes option" where
  "nonEmptyHex s = (case parseHexBytes s of Ok b \<Rightarrow> if b = [] then None else Some b | _ \<Rightarrow> None)"

definition challengeMember :: "assertion \<Rightarrow> (string \<times> json) list" where
  "challengeMember a = (case Challenge a of Ok ch \<Rightarrow> [(''challenge'', JStr (''0x'' @ hexEncode ch))] | _ \<Rightarrow> [])"

definition cswErc1271Handler :: "eth_lib \<Rightarrow> 'w svc \<Rightarrow> request \<Rightarrow> ('w, response) io" where
  "cswErc1271Handler E V r =
     guarded V r (
     io_try (lift (decodeBody decodeCswErc1271 r)) (\<lambda>_. refuse 400 ''bad_request'') (\<lambda>req.
     case (nonEmptyHex (cq_AuthenticatorData req), nonEmptyHex (cq_ClientDataJSON req),
           nonEmptyHex (cq_Signature req)) of
       (Some ad, Some cdj, Some sig) \<Rightarrow>
         let a = \<lparr>wa_AuthenticatorData = ad, wa_ClientDataJSON = cdj, wa_Signature = sig\<rparr> in
         io_try (lift (BuildCSWPasskeySignature E a (cq_OwnerIndex req)))
           (\<lambda>e. answer 400 [(''error'', JStr ''build_failed''), (''detail'', JStr (errText e))]) (\<lambda>blob.
         answer 200 ((''erc1271'', JStr (''0x'' @ hexEncode blob)) # challengeMember a))
     | _ \<Rightarrow> refuse 400 ''authenticatorData/clientDataJSON/signature must be non-empty hex''))"

record csw_owner =
  co_X :: string
  co_Y :: string
  co_Address :: string

definition putOwner :: "json \<Rightarrow> csw_owner \<Rightarrow> csw_owner res" where
  "putOwner j z =
     res_bind (jsonMembers j) (\<lambda>ms.
     res_bind (jsonField ''x'' putString ms (co_X z)) (\<lambda>x.
     res_bind (jsonField ''y'' putString ms (co_Y z)) (\<lambda>y.
     res_bind (jsonField ''address'' putString ms (co_Address z)) (\<lambda>a.
     Ok \<lparr>co_X = x, co_Y = y, co_Address = a\<rparr>))))"

definition decodeCswAccount :: "(string \<times> json) list \<Rightarrow> (csw_owner list \<times> u64) res" where
  "decodeCswAccount ms =
     res_bind (jsonList ''owners'' putOwner \<lparr>co_X = [], co_Y = [], co_Address = []\<rparr> ms) (\<lambda>owners.
     res_bind (jsonField ''nonce'' putUint ms 0) (\<lambda>nonce. Ok (owners, nonce)))"

definition parseBigHex :: "string \<Rightarrow> int option" where
  "parseBigHex s = setString 16 (trimPrefix (trimSpace s) ''0x'')"

definition badOwner :: "string \<Rightarrow> nat \<Rightarrow> response" where
  "badOwner e i = \<lparr>rs_Code = 400, rs_Body = JObj [(''error'', JStr e), (''index'', JStr (showNat i))]\<rparr>"

text \<open>One turn of the loop over the owners: their encoding, or the answer it returns with.\<close>

definition cswOwnerBytes :: "eth_lib \<Rightarrow> nat \<Rightarrow> csw_owner \<Rightarrow> (response + bytes) res" where
  "cswOwnerBytes E i ow =
     (if trimSpace (co_Address ow) \<noteq> [] then
        (if \<not> isHexAddress E (co_Address ow) then Ok (Inl (badOwner ''bad_owner_address'' i))
         else Ok (Inr (EOAOwnerBytes (hexToAddress E (co_Address ow)))))
      else
        (case (parseBigHex (co_X ow), parseBigHex (co_Y ow)) of
           (Some x, Some y) \<Rightarrow> res_bind (PasskeyOwnerBytes x y) (\<lambda>b. Ok (Inr b))
         | _ \<Rightarrow> Ok (Inl (badOwner ''bad_owner_xy'' i))))"

fun cswOwners :: "eth_lib \<Rightarrow> nat \<Rightarrow> csw_owner list \<Rightarrow> (response + bytes list) res" where
  "cswOwners E i [] = Ok (Inr [])"
| "cswOwners E i (ow # ows) =
     res_bind (cswOwnerBytes E i ow) (\<lambda>x.
     case x of
       Inl rsp \<Rightarrow> Ok (Inl rsp)
     | Inr b \<Rightarrow>
         res_bind (cswOwners E (Suc i) ows) (\<lambda>y.
         Ok (case y of Inl rsp \<Rightarrow> Inl rsp | Inr bs \<Rightarrow> Inr (b # bs))))"

definition counterfactualMember ::
  "eth_lib \<Rightarrow> 'w svc \<Rightarrow> bytes list \<Rightarrow> u64 \<Rightarrow> ('w, (string \<times> json) list) io" where
  "counterfactualMember E V owners nonce =
     (if sv_cswRPC V = None then ret []
      else io_try (CounterfactualAddress E (sv_cswRPC V) owners nonce)
        (\<lambda>e. ret [(''addressError'', JStr (errText e))]) (\<lambda>a. ret [(''address'', JStr (addressHex E a))]))"

definition cswAccountHandler :: "eth_lib \<Rightarrow> 'w svc \<Rightarrow> request \<Rightarrow> ('w, response) io" where
  "cswAccountHandler E V r =
     guarded V r (
     io_try (lift (decodeBody decodeCswAccount r)) (\<lambda>_. refuse 400 ''owners_required'') (\<lambda>(specs, nonce).
     if specs = [] then refuse 400 ''owners_required''
     else
     io_bind (lift (cswOwners E 0 specs)) (\<lambda>x.
     case x of
       Inl rsp \<Rightarrow> ret rsp
     | Inr owners \<Rightarrow>
         io_try (lift (CreateAccountCalldata E owners nonce)) (\<lambda>e. refuse 500 (errText e)) (\<lambda>create.
         io_try (lift (GetAddressCalldata E owners nonce)) (\<lambda>e. refuse 500 (errText e)) (\<lambda>getAddr.
         io_bind (counterfactualMember E V owners nonce) (\<lambda>extra.
         answer 200
           ([(''factory'', JStr CoinbaseSmartWalletFactory),
             (''ownerBytes'', JArr (map (\<lambda>b. JStr (''0x'' @ hexEncode b)) owners)),
             (''createAccountCalldata'', JStr (''0x'' @ hexEncode create)),
             (''getAddressCalldata'', JStr (''0x'' @ hexEncode getAddr))] @ extra)))))))"

section \<open>Routes\<close>

definition healthHandler :: "'w svc \<Rightarrow> ('w, response) io" where
  "healthHandler V =
     answer 200
       [(''ok'', JBool True), (''genericSign'', JBool (sv_allowGenericSign V)),
        (''signTx'', JBool (sv_allowSignTx V)),
        (''eip3009'', JBool (sv_gccToken V \<noteq> [] \<and> sv_payTo V \<noteq> [])), (''network'', JStr (networkStr V)),
        (''csw'', JBool True), (''cswAddressResolution'', JBool (sv_cswRPC V \<noteq> None))]"

text \<open>The registered paths; for any other one the multiplexer answers itself.\<close>

definition serve :: "eth_lib \<Rightarrow> 'w svc_port \<Rightarrow> 'w svc \<Rightarrow> request \<Rightarrow> ('w, response) io option" where
  "serve E P V r =
     (if rq_Path r = ''/healthz'' then Some (healthHandler V)
      else if rq_Path r = ''/address'' then Some (addressHandler E V r)
      else if rq_Path r = ''/address/agent'' then Some (agentAddressHandler E V r)
      else if rq_Path r = ''/address/path'' then Some (pathAddressHandler E V r)
      else if rq_Path r = ''/sign/eip3009'' then Some (signEip3009Handler E P V r)
      else if rq_Path r = ''/sign'' then Some (signHandler E P V r)
      else if rq_Path r = ''/sign/tx'' then Some (signTxHandler E V r)
      else if rq_Path r = ''/csw/erc1271'' then Some (cswErc1271Handler E V r)
      else if rq_Path r = ''/csw/account'' then Some (cswAccountHandler E V r)
      else None)"

section \<open>Who is answered\<close>

lemma guarded_cases:
  assumes "guarded V r k w = Some (res, w')"
  shows "(rq_Method r \<noteq> ''POST'' \<and> refuse 405 ''method'' w = Some (res, w')) \<or>
    (rq_Method r = ''POST'' \<and> \<not> authed V r \<and> refuse 401 ''unauthorized'' w = Some (res, w')) \<or>
    (rq_Method r = ''POST'' \<and> authed V r \<and> k w = Some (res, w'))"
  using assms by (auto simp: guarded_def split: if_splits)

text \<open>Every route but \<open>/healthz\<close> is guarded.\<close>

lemma serve_guarded:
  assumes "serve E P V r = Some h" and "rq_Path r \<noteq> ''/healthz''"
  shows "\<exists>k. h = guarded V r k"
proof -
  have "h \<in> {addressHandler E V r, agentAddressHandler E V r, pathAddressHandler E V r,
      signEip3009Handler E P V r, signHandler E P V r, signTxHandler E V r, cswErc1271Handler E V r,
      cswAccountHandler E V r}"
    using assms unfolding serve_def by (simp only: insert_iff split: if_splits) simp_all
  then show ?thesis
    unfolding addressHandler_def agentAddressHandler_def pathAddressHandler_def signEip3009Handler_def
      signHandler_def signTxHandler_def cswErc1271Handler_def cswAccountHandler_def by blast
qed

text \<open>
  C8: nobody without the token is served. A request to any registered path but \<open>/healthz\<close> that is not
  a POST is answered 405, one that is not authorised 401, both with nothing done to the world, so any
  other answer or effect means a POST whose authorisation header is the scheme \<open>Bearer\<close> and the
  configured token, which is not empty: a service without a token serves no one.
\<close>

theorem service_answers_only_authorised_posts:
  assumes "serve E P V r = Some h" and "rq_Path r \<noteq> ''/healthz''" and "h w = Some (res, w')"
  shows "(rq_Method r \<noteq> ''POST'' \<and> w' = w \<and> (\<exists>b. res = Ok \<lparr>rs_Code = 405, rs_Body = b\<rparr>)) \<or>
    (rq_Method r = ''POST'' \<and> \<not> authed V r \<and> w' = w \<and> (\<exists>b. res = Ok \<lparr>rs_Code = 401, rs_Body = b\<rparr>)) \<or>
    (rq_Method r = ''POST'' \<and> sv_authToken V \<noteq> [] \<and>
      (\<exists>scheme rest. rq_Authorization r = scheme @ rest \<and> length scheme = 7 \<and>
         equalFold scheme ''Bearer '' \<and> trimSpace rest = sv_authToken V))"
proof -
  obtain k where "h = guarded V r k" using serve_guarded [OF assms(1,2)] by blast
  with assms(3) have "guarded V r k w = Some (res, w')" by simp
  from guarded_cases [OF this] show ?thesis
    unfolding authed_iff [of V r] by (auto simp: refuse_def answer_def)
qed

section \<open>Going through a handler that served\<close>

text \<open>\<open>avoids c h\<close>: no answer of \<open>h\<close> has the status \<open>c\<close>, whatever it starts from.\<close>

definition avoids :: "nat \<Rightarrow> ('w, response) io \<Rightarrow> bool" where
  "avoids c h \<longleftrightarrow> (\<forall>w rsp w'. h w = Some (Ok rsp, w') \<longrightarrow> rs_Code rsp \<noteq> c)"

named_theorems avoids_intros \<open>rules for the statuses a handler does not answer with\<close>

lemma answer_Ok_iff [io_ok]: "answer c ms w = Some (Ok rsp, w') \<longleftrightarrow> rsp = \<lparr>rs_Code = c, rs_Body = JObj ms\<rparr> \<and> w' = w"
  by (auto simp: answer_def)

lemma avoids_answer [simp, avoids_intros]: "d \<noteq> c \<Longrightarrow> avoids c (answer d ms)"
  by (simp add: avoids_def answer_Ok_iff)

lemma avoids_refuse [simp, avoids_intros]: "d \<noteq> c \<Longrightarrow> avoids c (refuse d e)"
  by (simp add: refuse_def)

lemma avoids_signFailed [simp, avoids_intros]: "400 \<noteq> c \<Longrightarrow> avoids c (signFailed e)"
  by (simp add: signFailed_def)

lemma avoids_try [avoids_intros]:
  "(\<And>e. avoids c (h e)) \<Longrightarrow> (\<And>a. avoids c (k a)) \<Longrightarrow> avoids c (io_try m h k)"
  unfolding avoids_def io_try_Ok_iff by blast

lemma avoids_bind [avoids_intros]: "(\<And>a. avoids c (k a)) \<Longrightarrow> avoids c (io_bind m k)"
  unfolding avoids_def io_bind_Ok_iff by blast

lemma avoids_derived [avoids_intros]: "400 \<noteq> c \<Longrightarrow> (\<And>a. avoids c (k a)) \<Longrightarrow> avoids c (withDerived p r k)"
  unfolding withDerived_def by (intro avoids_try) simp_all

lemma avoids_if [avoids_intros]:
  "(b \<Longrightarrow> avoids c h) \<Longrightarrow> (\<not> b \<Longrightarrow> avoids c k) \<Longrightarrow> avoids c (if b then h else k)"
  by simp

lemma avoids_option [avoids_intros]:
  "avoids c h \<Longrightarrow> (\<And>a. avoids c (k a)) \<Longrightarrow> avoids c (case x of None \<Rightarrow> h | Some a \<Rightarrow> k a)"
  by (simp split: option.split)

lemma avoids_guarded [avoids_intros]:
  "405 \<noteq> c \<Longrightarrow> 401 \<noteq> c \<Longrightarrow> avoids c k \<Longrightarrow> avoids c (guarded V r k)"
  by (simp add: guarded_def)

lemma guarded_served:
  assumes "guarded V r k w = Some (Ok rsp, w')" and "rs_Code rsp = 200"
  shows "k w = Some (Ok rsp, w')"
  using guarded_cases [OF assms(1)] assms(2) by (auto simp: refuse_def io_ok)

lemma try_served:
  assumes "io_try m h k w = Some (Ok rsp, w')" and "rs_Code rsp = 200" and "\<And>e. avoids 200 (h e)"
  obtains a v where "m w = Some (Ok a, v)" and "k a v = Some (Ok rsp, w')"
  using assms unfolding io_try_Ok_iff avoids_def by blast

lemma try_lift_served:
  assumes "io_try (lift x) h k w = Some (Ok rsp, w')" and "rs_Code rsp = 200" and "\<And>e. avoids 200 (h e)"
  obtains a where "x = Ok a" and "k a w = Some (Ok rsp, w')"
  using assms by (elim try_served) auto

lemma withDerived_served:
  assumes "withDerived p x k w = Some (Ok rsp, w')" and "rs_Code rsp = 200"
  obtains a where "x = Ok a" and "k a w = Some (Ok rsp, w')"
  using assms unfolding withDerived_def by (elim try_lift_served) auto

lemma bind_served:
  assumes "io_bind m k w = Some (Ok rsp, w')"
  obtains a v where "m w = Some (Ok a, v)" and "k a v = Some (Ok rsp, w')"
  using assms by (auto simp: io_bind_Ok_iff)

section \<open>What is signed\<close>

text \<open>The signing tail of \<open>/sign/eip3009\<close>.\<close>

lemma eip3009_sign_served:
  assumes law: "sign_recover_law E"
    and run: "eip3009_sign E V req value now nonce w = Some (Ok rsp, w')" "rs_Code rsp = 200"
  obtains key va vb td sp where "deriveKey E V (er_Selector req) = Ok key"
    and "BuildEIP3009TypedData (eip3009_params_of V (ak_Address key) value va vb nonce)
           (sv_gccName V) (sv_gccVersion V) = Ok td"
    and "RecoverTypedDataSigner E td (sp_Signature sp) = Ok (ak_Address key)"
    and "rs_Body rsp = JObj (eip3009_answer V (ak_Address key) value va vb nonce sp)"
proof -
  from run obtain key va vb td sp where
    key: "deriveKey E V (er_Selector req) = Ok key" and
    td: "BuildEIP3009TypedData (eip3009_params_of V (ak_Address key) value va vb nonce)
           (sv_gccName V) (sv_gccVersion V) = Ok td" and
    sp: "SignTypedData E (ak_PrivateKey key) td = Ok sp" and
    body: "rs_Body rsp = JObj (eip3009_answer V (ak_Address key) value va vb nonce sp)"
    unfolding eip3009_sign_def Let_def
    by (elim withDerived_served try_lift_served; (simp; fail)?) (auto simp: io_ok)
  obtain priv where priv: "toECDSA E (ak_PrivateKey key) = Ok priv"
    and a: "ak_Address key = addressHex E (pubkeyToAddress E (ek_PublicKey priv))"
    using deriveKey_key [OF key] by blast
  have "RecoverTypedDataSigner E td (sp_Signature sp) = Ok (ak_Address key)"
    using SignTypedData_recovers [OF law sp priv] a by simp
  with key td show thesis by (intro that) (use body in simp_all)
qed

text \<open>A request that \<open>/sign/eip3009\<close> answers with 200 passed its guards and reached the signing step.\<close>

lemma signEip3009_accepted:
  assumes "signEip3009Handler E P V r w = Some (Ok rsp, w')" and "rs_Code rsp = 200"
  obtains req amt now nonce v where "decodeBody decodeEip3009 r = Ok req"
    "setString 10 (er_Value req) = Some amt" "0 \<le> amt" "\<forall>m. sv_maxValue V = Some m \<longrightarrow> amt \<le> m"
    "eip3009_sign E V req amt now nonce v = Some (Ok rsp, w')"
proof -
  note run = assms(1) [unfolded signEip3009Handler_def, THEN guarded_served, OF assms(2)]
  then have conf: "\<not> (sv_gccToken V = [] \<or> sv_payTo V = [] \<or> sv_chainID V = 0)"
    using assms(2) by (auto simp: io_ok split: if_splits)
  from run [unfolded if_not_P [OF conf]] obtain req where req: "decodeBody decodeEip3009 r = Ok req"
    and run1: "(if er_Value req = [] then refuse 400 ''selector_and_value_required''
     else case setString 10 (er_Value req) of
       None \<Rightarrow> refuse 400 ''bad_value''
     | Some value \<Rightarrow>
         if value < 0 then refuse 400 ''bad_value''
         else if sv_maxValue V \<noteq> None \<and> value > the (sv_maxValue V) then
           answer 403 [(''error'', JStr ''value_exceeds_max''), (''max'', JStr (showInt (the (sv_maxValue V))))]
         else
           io_bind (vp_now P) (\<lambda>now.
           io_try (eip3009_nonce P req) (\<lambda>_. refuse 500 ''nonce_gen'') (\<lambda>nonce.
           eip3009_sign E V req value now nonce))) w = Some (Ok rsp, w')"
    using assms(2) by (elim try_lift_served) auto
  then obtain amt where amt: "setString 10 (er_Value req) = Some amt" "0 \<le> amt"
    and within: "\<not> (sv_maxValue V \<noteq> None \<and> amt > the (sv_maxValue V))"
    and run2: "io_bind (vp_now P) (\<lambda>now. io_try (eip3009_nonce P req) (\<lambda>_. refuse 500 ''nonce_gen'')
       (\<lambda>nonce. eip3009_sign E V req amt now nonce)) w = Some (Ok rsp, w')"
    using assms(2) by (auto simp: io_ok refuse_def split: if_splits option.splits)
  from within have cap: "\<forall>m. sv_maxValue V = Some m \<longrightarrow> amt \<le> m" by auto
  from run2 obtain now nonce v where "eip3009_sign E V req amt now nonce v = Some (Ok rsp, w')"
    using assms(2) by (elim bind_served try_served) auto
  with req amt cap show thesis by (rule that)
qed

text \<open>
  C7: \<open>/sign/eip3009\<close> signs within its scope. If it answers 200, the request named a non-negative
  amount within the configured cap; the key is the selected one; the signature in the answer is one
  of that key's own address over a transfer from that address to the configured recipient, of exactly
  that amount, on the configured token and chain. Nothing in the request can change the recipient,
  the token or the chain, or exceed the cap.
\<close>

theorem sign_eip3009_scope:
  assumes "sign_recover_law E" and "signEip3009Handler E P V r w = Some (Ok rsp, w')" and "rs_Code rsp = 200"
  shows "\<exists>req value key td sig. decodeBody decodeEip3009 r = Ok req \<and>
    setString 10 (er_Value req) = Some value \<and> 0 \<le> value \<and> (\<forall>m. sv_maxValue V = Some m \<longrightarrow> value \<le> m) \<and>
    deriveKey E V (er_Selector req) = Ok key \<and>
    td_PrimaryType td = ''TransferWithAuthorization'' \<and>
    map_of (td_Message td) ''to'' = Some (TStr (sv_payTo V)) \<and>
    map_of (td_Message td) ''from'' = Some (TStr (ak_Address key)) \<and>
    map_of (td_Message td) ''value'' = Some (TStr (showInt value)) \<and>
    dom_VerifyingContract (td_Domain td) = sv_gccToken V \<and>
    dom_ChainId (td_Domain td) = Some (sint (sv_chainID V)) \<and>
    (\<exists>ms. rs_Body rsp = JObj ms \<and> map_of ms ''signature'' = Some (JStr sig) \<and>
       map_of ms ''address'' = Some (JStr (ak_Address key))) \<and>
    RecoverTypedDataSigner E td sig = Ok (ak_Address key)"
proof -
  from signEip3009_accepted [OF assms(2,3)] obtain req amt now nonce v where
    req: "decodeBody decodeEip3009 r = Ok req" and amt: "setString 10 (er_Value req) = Some amt" "0 \<le> amt" and
    cap: "\<forall>m. sv_maxValue V = Some m \<longrightarrow> amt \<le> m" and
    run: "eip3009_sign E V req amt now nonce v = Some (Ok rsp, w')" .
  from eip3009_sign_served [OF assms(1) run assms(3)] obtain key va vb td sp where
    key: "deriveKey E V (er_Selector req) = Ok key" and
    td: "BuildEIP3009TypedData (eip3009_params_of V (ak_Address key) amt va vb nonce)
           (sv_gccName V) (sv_gccVersion V) = Ok td" and
    recovers: "RecoverTypedDataSigner E td (sp_Signature sp) = Ok (ak_Address key)" and
    body: "rs_Body rsp = JObj (eip3009_answer V (ak_Address key) amt va vb nonce sp)" .
  have msg: "td_PrimaryType td = ''TransferWithAuthorization''"
    "map_of (td_Message td) ''to'' = Some (TStr (sv_payTo V))"
    "map_of (td_Message td) ''from'' = Some (TStr (ak_Address key))"
    "map_of (td_Message td) ''value'' = Some (TStr (showInt amt))"
    "dom_VerifyingContract (td_Domain td) = sv_gccToken V"
    "dom_ChainId (td_Domain td) = Some (sint (sv_chainID V))"
    using td amt(2) by (auto simp: BuildEIP3009TypedData_def eip3009_params_of_def io_ok split: if_splits)
  have ms: "map_of (eip3009_answer V (ak_Address key) amt va vb nonce sp) ''signature'' = Some (JStr (sp_Signature sp))"
    "map_of (eip3009_answer V (ak_Address key) amt va vb nonce sp) ''address'' = Some (JStr (ak_Address key))"
    by (simp_all add: eip3009_answer_def)
  show ?thesis using req amt cap key msg ms body recovers by blast
qed

lemma sign_tx_with_served:
  assumes "sign_tx_law E" and "sign_tx_with E V req data amt tip feeCap w = Some (Ok rsp, w')" and "rs_Code rsp = 200"
  obtains key priv t raw where
    "deriveHardened E (sv_seed V)
       (if xr_Path req = [] then [bip44Purpose, coin, xr_Owner req, xr_Agent req] else xr_Path req) = Ok key"
    "toECDSA E (ak_PrivateKey key) = Ok priv"
    "ak_Address key = addressHex E (pubkeyToAddress E (ek_PublicKey priv))"
    "signTx E (signTxOf E req data amt tip feeCap) (sint (xr_ChainID req)) priv = Ok t"
    "tx_payload t = tx_payload (signTxOf E req data amt tip feeCap)"
    "marshalTx E t = Ok raw"
    "rs_Body rsp = JObj [(''from'', JStr (ak_Address key)), (''rawSignedTx'', JStr (''0x'' @ hexEncode raw)),
       (''hash'', JStr (hashHex E (txHash E t)))]"
proof -
  from assms(2,3) obtain key priv t raw where key: "signTxKey E V req = Ok key"
    and priv: "toECDSA E (ak_PrivateKey key) = Ok priv"
    and t: "signTx E (signTxOf E req data amt tip feeCap) (sint (xr_ChainID req)) priv = Ok t"
    and raw: "marshalTx E t = Ok raw"
    and body: "rs_Body rsp = JObj [(''from'', JStr (ak_Address key)), (''rawSignedTx'', JStr (''0x'' @ hexEncode raw)),
         (''hash'', JStr (hashHex E (txHash E t)))]"
    unfolding sign_tx_with_def by (elim withDerived_served try_lift_served) (auto simp: io_ok)
  have path: "deriveHardened E (sv_seed V)
      (if xr_Path req = [] then [bip44Purpose, coin, xr_Owner req, xr_Agent req] else xr_Path req) = Ok key"
    using key by (simp add: signTxKey_def DerivePath_def DeriveAgent_def split: if_splits)
  then have "ak_Address key = addressHex E (pubkeyToAddress E (ek_PublicKey priv))"
    using priv by (auto simp: deriveHardened_Ok_iff)
  moreover have "tx_payload t = tx_payload (signTxOf E req data amt tip feeCap)"
    using assms(1) t by (simp add: sign_tx_law_def)
  ultimately show thesis using that [OF path priv _ t _ raw body] by blast
qed

text \<open>
  C9: \<open>/sign/tx\<close> is closed unless it is enabled, and signs what it is asked to. If it answers 200, the
  switch is on, and the raw transaction in the answer is the encoding of one whose payload is exactly
  the request's (chain, nonce, fees, gas, recipient, amount, calldata; amounts non-negative, an empty
  one zero), signed with the key at the selected path, whose address is the answer's.
\<close>

theorem sign_tx_signs_the_request:
  assumes "sign_tx_law E" and "signTxHandler E V r w = Some (Ok rsp, w')" and "rs_Code rsp = 200"
  shows "sv_allowSignTx V \<and>
    (\<exists>req data amt tip feeCap key priv t raw. decodeBody decodeSignTx r = Ok req \<and>
       0 < sint (xr_ChainID req) \<and> xr_Gas req \<noteq> 0 \<and> isHexAddress E (xr_To req) \<and>
       parseHexBytes (xr_Data req) = Ok data \<and>
       decWeiOrZero (xr_Value req) = Some amt \<and> decWeiOrZero (xr_GasTipCap req) = Some tip \<and>
       decWeiOrZero (xr_GasFeeCap req) = Some feeCap \<and> 0 \<le> amt \<and> 0 \<le> tip \<and> 0 \<le> feeCap \<and>
       deriveHardened E (sv_seed V)
         (if xr_Path req = [] then [bip44Purpose, coin, xr_Owner req, xr_Agent req] else xr_Path req) = Ok key \<and>
       toECDSA E (ak_PrivateKey key) = Ok priv \<and>
       ak_Address key = addressHex E (pubkeyToAddress E (ek_PublicKey priv)) \<and>
       signTx E (signTxOf E req data amt tip feeCap) (sint (xr_ChainID req)) priv = Ok t \<and>
       tx_payload t =
         \<lparr>tx_ChainID = sint (xr_ChainID req), tx_Nonce = xr_Nonce req, tx_GasTipCap = tip,
          tx_GasFeeCap = feeCap, tx_Gas = xr_Gas req, tx_To = hexToAddress E (xr_To req),
          tx_Value = amt, tx_Data = data\<rparr> \<and>
       marshalTx E t = Ok raw \<and>
       rs_Body rsp = JObj [(''from'', JStr (ak_Address key)), (''rawSignedTx'', JStr (''0x'' @ hexEncode raw)),
         (''hash'', JStr (hashHex E (txHash E t)))])"
proof -
  note run = assms(2)[unfolded signTxHandler_def, THEN guarded_served, OF assms(3)]
  then have conf: "\<not> \<not> sv_allowSignTx V"
    using assms(3) by (auto simp: io_ok split: if_splits)
  from run [unfolded if_not_P [OF conf]] assms(3) obtain req where req: "decodeBody decodeSignTx r = Ok req"
    and run1: "(if sint (xr_ChainID req) \<le> 0 \<or> xr_Gas req = 0 \<or> \<not> isHexAddress E (xr_To req) then
       refuse 400 ''chainID>0, gas>0, valid to required''
     else
     io_try (lift (parseHexBytes (xr_Data req))) (\<lambda>_. refuse 400 ''bad_data_hex'') (\<lambda>data.
     case (decWeiOrZero (xr_Value req), decWeiOrZero (xr_GasTipCap req), decWeiOrZero (xr_GasFeeCap req)) of
       (Some value, Some tip, Some feeCap) \<Rightarrow> sign_tx_with E V req data value tip feeCap
     | _ \<Rightarrow> refuse 400 ''bad value/gasTipCap/gasFeeCap (decimal wei)'')) w = Some (Ok rsp, w')"
    by (elim try_lift_served) auto
  then have ok: "0 < sint (xr_ChainID req)" "xr_Gas req \<noteq> 0" "isHexAddress E (xr_To req)"
    using assms(3) by (auto simp: io_ok refuse_def split: if_splits)
  then have "\<not> (sint (xr_ChainID req) \<le> 0 \<or> xr_Gas req = 0 \<or> \<not> isHexAddress E (xr_To req))" by simp
  from run1 [unfolded if_not_P [OF this]] assms(3) obtain data where data: "parseHexBytes (xr_Data req) = Ok data"
    and run2: "(case (decWeiOrZero (xr_Value req), decWeiOrZero (xr_GasTipCap req), decWeiOrZero (xr_GasFeeCap req)) of
       (Some value, Some tip, Some feeCap) \<Rightarrow> sign_tx_with E V req data value tip feeCap
     | _ \<Rightarrow> refuse 400 ''bad value/gasTipCap/gasFeeCap (decimal wei)'') w = Some (Ok rsp, w')"
    by (elim try_lift_served) auto
  from run2 assms(3) obtain amt tip feeCap where wei: "decWeiOrZero (xr_Value req) = Some amt"
    "decWeiOrZero (xr_GasTipCap req) = Some tip" "decWeiOrZero (xr_GasFeeCap req) = Some feeCap"
    and run3: "sign_tx_with E V req data amt tip feeCap w = Some (Ok rsp, w')"
    by (auto simp: io_ok refuse_def split: option.splits)
  have nonneg: "decWeiOrZero s = Some v \<Longrightarrow> 0 \<le> v" for s v
    by (auto simp: decWeiOrZero_def Let_def split: if_splits option.splits)
  from sign_tx_with_served [OF assms(1) run3 assms(3)] obtain key priv t raw where
    "deriveHardened E (sv_seed V)
       (if xr_Path req = [] then [bip44Purpose, coin, xr_Owner req, xr_Agent req] else xr_Path req) = Ok key"
    "toECDSA E (ak_PrivateKey key) = Ok priv"
    "ak_Address key = addressHex E (pubkeyToAddress E (ek_PublicKey priv))"
    "signTx E (signTxOf E req data amt tip feeCap) (sint (xr_ChainID req)) priv = Ok t"
    "tx_payload t = tx_payload (signTxOf E req data amt tip feeCap)" "marshalTx E t = Ok raw"
    "rs_Body rsp = JObj [(''from'', JStr (ak_Address key)), (''rawSignedTx'', JStr (''0x'' @ hexEncode raw)),
       (''hash'', JStr (hashHex E (txHash E t)))]" .
  then show ?thesis
    using conf req ok data wei nonneg [OF wei(1)] nonneg [OF wei(2)] nonneg [OF wei(3)]
    by (auto simp: signTxOf_def NewTx_def)
qed

section \<open>Keys and start-up\<close>

text \<open>
  C31: the selector of a request decides the derivation path and nothing else does. A key it yields
  is the leaf of the BIP-32 chain from the seed (16 to 64 bytes) through exactly the hardened children
  \<open>2^31 + i\<close> of its indices (the addition does not wrap, so no index is derived as a non-hardened
  child), with 32 bytes of private key and the address of that key. The indices are the explicit path
  if there is one, else the legacy account of the subject, else owner and agent; the path printed with
  the key determines them, so a subject's key and a structured key are never the same path; a subject
  hashed to account 0, and a selector with none of the three, are refused.
\<close>

theorem selector_precedence:
  assumes "deriveKey E V sel = Ok k"
  shows "ak_DerivationPath k = path_text (selected E sel) \<and>
    16 \<le> length (sv_seed V) \<and> length (sv_seed V) \<le> 64 \<and> selected E sel \<noteq> [] \<and>
    (\<forall>i\<in>set (selected E sel). unat (hardened i) = 2 ^ 31 + unat i) \<and>
    (\<exists>m leaf priv. newMasterKey E (sv_seed V) = Ok m \<and>
       bip32_chain E m (map hardened (selected E sel)) = Ok leaf \<and>
       ak_PrivateKey k = bk_Key leaf \<and> length (ak_PrivateKey k) = 32 \<and>
       toECDSA E (ak_PrivateKey k) = Ok priv \<and>
       ak_Address k = addressHex E (pubkeyToAddress E (ek_PublicKey priv))) \<and>
    (ks_Path sel \<noteq> [] \<and> selected E sel = ks_Path sel \<or>
     ks_Path sel = [] \<and> ks_Subject sel \<noteq> [] \<and> accountFor E (ks_Subject sel) \<noteq> 0 \<and>
       selected E sel = [bip44Purpose, coin, accountFor E (ks_Subject sel)] \<or>
     ks_Path sel = [] \<and> ks_Subject sel = [] \<and> 1 \<le> ks_Owner sel \<and>
       selected E sel = [bip44Purpose, coin, ks_Owner sel, ks_Agent sel]) \<and>
    (\<forall>sel' k'. deriveKey E V sel' = Ok k' \<longrightarrow>
       (ak_DerivationPath k' = ak_DerivationPath k \<longleftrightarrow> selected E sel' = selected E sel) \<and>
       (selected E sel' = selected E sel \<longrightarrow> k' = k))"
proof -
  have d: "deriveHardened E (sv_seed V) (selected E sel) = Ok k" using assms by (simp add: deriveKey_Ok_iff)
  note chain = derive_hardened_chain [OF this]
  then have p: "ak_DerivationPath k = path_text (selected E sel)" by blast
  have c: "ks_Path sel \<noteq> [] \<and> selected E sel = ks_Path sel \<or>
     ks_Path sel = [] \<and> ks_Subject sel \<noteq> [] \<and> accountFor E (ks_Subject sel) \<noteq> 0 \<and>
       selected E sel = [bip44Purpose, coin, accountFor E (ks_Subject sel)] \<or>
     ks_Path sel = [] \<and> ks_Subject sel = [] \<and> 1 \<le> ks_Owner sel \<and>
       selected E sel = [bip44Purpose, coin, ks_Owner sel, ks_Agent sel]"
    using assms by (auto simp: deriveKey_Ok_iff selected_def split: if_splits)
  have "(ak_DerivationPath k' = ak_DerivationPath k \<longleftrightarrow> selected E sel' = selected E sel) \<and>
       (selected E sel' = selected E sel \<longrightarrow> k' = k)" if "deriveKey E V sel' = Ok k'" for sel' k'
    using that d p by (auto simp: deriveKey_Ok_iff deriveHardened_Ok_iff)
  with chain c show ?thesis by blast
qed

text \<open>What a selector without any of the three is answered.\<close>

lemma empty_selector_refused:
  "ks_Path sel = [] \<Longrightarrow> ks_Subject sel = [] \<Longrightarrow> ks_Owner sel = 0 \<Longrightarrow>
     deriveKey E V sel = Err (Errorf ''selector_required: provide subject | path | owner(>=1)+agent'' [])"
  by (simp add: deriveKey_def)

lemma maxValueOf_eq: "maxValueOf getenv = setString 10 (trimSpace (getenv ''WALLET_MAX_VALUE''))"
  by (simp add: maxValueOf_def envOr_def Let_def)

lemma eip3009_uncapped:
  assumes "sv_maxValue V = None"
  shows "avoids 403 (signEip3009Handler E P V r)"
  unfolding signEip3009Handler_def eip3009_sign_def Let_def
  by (intro avoids_intros) (simp_all add: assms)

text \<open>Only the cap depends on the variable.\<close>

lemma startService_cong:
  assumes "\<And>k. k \<noteq> ''WALLET_MAX_VALUE'' \<Longrightarrow> getenv' k = getenv k" and "maxValueOf getenv' = maxValueOf getenv"
  shows "startService dflt dial getenv' = startService dflt dial getenv"
proof -
  have e: "envOr getenv' k d = envOr getenv k d" "getenv' k = getenv k" if "k \<noteq> ''WALLET_MAX_VALUE''" for k d
    using assms(1) [OF that] by (simp_all add: envOr_def)
  have "loadMasterSeed dflt getenv' = loadMasterSeed dflt getenv"
    unfolding loadMasterSeed_def env_MasterSeed_def by (simp add: e Let_def)
  moreover have "cswRPCOf dial getenv' = cswRPCOf dial getenv" unfolding cswRPCOf_def by (simp add: e)
  ultimately show ?thesis unfolding startService_def by (simp add: e assms(2))
qed

text \<open>
  C33: a malformed cap is no cap. Whatever the environment, the start-up with a \<open>WALLET_MAX_VALUE\<close>
  that, white space aside, is not a decimal number is the start-up without that variable: it succeeds
  exactly when the other one does, with the same service, which has no cap, so that no payment
  request is ever refused for its amount. A number is the cap. The seed has 16 to 64 bytes.
\<close>

theorem malformed_cap_means_no_cap:
  shows "(setString 10 (trimSpace (getenv ''WALLET_MAX_VALUE'')) = None \<longrightarrow>
       startService dflt dial getenv w = startService dflt dial (getenv(''WALLET_MAX_VALUE'' := [])) w) \<and>
    (\<forall>V w'. startService dflt dial getenv w = Some (Ok V, w') \<longrightarrow>
       16 \<le> length (sv_seed V) \<and> length (sv_seed V) \<le> 64 \<and>
       sv_maxValue V = setString 10 (trimSpace (getenv ''WALLET_MAX_VALUE'')) \<and>
       (sv_maxValue V = None \<longrightarrow>
          (\<forall>E P r u rsp u'. signEip3009Handler E P V r u = Some (Ok rsp, u') \<longrightarrow> rs_Code rsp \<noteq> 403)))"
proof (intro conjI impI allI)
  let ?g = "getenv(''WALLET_MAX_VALUE'' := [])"
  assume "setString 10 (trimSpace (getenv ''WALLET_MAX_VALUE'')) = None"
  then have "maxValueOf ?g = maxValueOf getenv" by (simp add: maxValueOf_eq)
  then show "startService dflt dial getenv w = startService dflt dial ?g w"
    using startService_cong [of ?g getenv dflt dial] by simp
next
  fix V w'
  assume "startService dflt dial getenv w = Some (Ok V, w')"
  then obtain v where seed: "loadMasterSeed dflt getenv w = Some (Ok (sv_seed V), v)"
    and cap: "sv_maxValue V = maxValueOf getenv"
    unfolding startService_def by (auto simp: io_ok)
  from startup.seed_length [OF seed] show "16 \<le> length (sv_seed V)" "length (sv_seed V) \<le> 64" by simp_all
  show "sv_maxValue V = setString 10 (trimSpace (getenv ''WALLET_MAX_VALUE''))"
    using cap by (simp add: maxValueOf_eq)
  show "rs_Code rsp \<noteq> 403"
    if "sv_maxValue V = None" "signEip3009Handler E P V r u = Some (Ok rsp, u')" for E P r u rsp u'
    using eip3009_uncapped [OF that(1)] that(2) unfolding avoids_def by blast
qed

section \<open>A service for the witnesses\<close>

definition demo_svc :: "unit svc" where
  "demo_svc =
     \<lparr>sv_seed = replicate 32 1, sv_authToken = ''t'', sv_allowGenericSign = False, sv_allowSignTx = True,
      sv_gccToken = demo_address_text 2, sv_gccName = ''N'', sv_gccVersion = ''1'',
      sv_payTo = demo_address_text 9, sv_chainID = 84532, sv_maxValue = Some 100, sv_timeoutSecs = 300,
      sv_cswRPC = None, sv_listen = '':8091''\<rparr>"

definition demo_port :: "unit svc_port" where
  "demo_port = \<lparr>vp_now = ret 1000, vp_rand = (\<lambda>n. ret (replicate n 1)), vp_typedData = (\<lambda>_ x. Ok x)\<rparr>"

definition demo_post :: "string \<Rightarrow> string \<Rightarrow> request" where
  "demo_post path body =
     \<lparr>rq_Method = ''POST'', rq_Path = path, rq_Authorization = ''bearer t'', rq_Body = body\<rparr>"

lemma demo_authed [simp]: "authed demo_svc (demo_post p b)"
proof -
  have "equalFold (take (length bearer) ''bearer t'') bearer" "trimSpace ''t'' = ''t''" by code_simp+
  then show ?thesis by (simp add: authed_def demo_svc_def demo_post_def bearer_def)
qed

theorem service_answers_only_authorised_posts_witness:
  "\<exists>h b. serve demo_lib demo_port demo_svc ((demo_post ''/sign/tx'' [])\<lparr>rq_Authorization := []\<rparr>) = Some h \<and>
     h () = Some (Ok \<lparr>rs_Code = 401, rs_Body = b\<rparr>, ())"
proof -
  let ?r = "(demo_post ''/sign/tx'' [])\<lparr>rq_Authorization := []\<rparr>"
  obtain h where h: "serve demo_lib demo_port demo_svc ?r = Some h" "rq_Path ?r \<noteq> ''/healthz''"
    and "h = signTxHandler demo_lib demo_svc ?r"
    by (simp add: serve_def demo_post_def)
  then have "\<exists>res. h () = Some (res, ())"
    by (simp add: signTxHandler_def guarded_def refuse_def answer_def ret_def authed_def demo_svc_def
        demo_post_def)
  then obtain res where run: "h () = Some (res, ())" by blast
  have "rq_Method ?r = ''POST'' \<and> rq_Authorization ?r = []" by (simp add: demo_post_def)
  with service_answers_only_authorised_posts [OF h run] run h show ?thesis by auto
qed

definition demo_payment :: string where
  "demo_payment = ''{'' @ quoted ''owner'' @ '':7,'' @ quoted ''agent'' @ '':3,'' @ quoted ''value'' @ '':'' @
     quoted ''30'' @ ''}''"

lemma demo_payment_json:
  "jsonDecode demo_payment = Ok (JObj [(''owner'', JNum ''7''), (''agent'', JNum ''3''), (''value'', JStr ''30'')])"
  unfolding demo_payment_def quoted_def by (simp add: json_eval)

definition demo_payment_req :: eip3009_req where
  "demo_payment_req =
     \<lparr>er_Selector = \<lparr>ks_Subject = [], ks_Owner = 7, ks_Agent = 3, ks_Path = []\<rparr>, er_Value = ''30'',
      er_ValidAfter = 0, er_ValidBefore = 0, er_Nonce = []\<rparr>"

lemma demo_payment_decoded: "decodeBody decodeEip3009 (demo_post p demo_payment) = Ok demo_payment_req"
proof -
  have names: "foldName ''owner'' = ''owner''" "foldName ''agent'' = ''agent''" "foldName ''value'' = ''value''"
    "foldName ''subject'' = ''subject''" "foldName ''path'' = ''path''" "foldName ''nonce'' = ''nonce''"
    "foldName ''validAfter'' = ''validafter''" "foldName ''validBefore'' = ''validbefore''" by code_simp+
  have digits: "digitsNat 10 0 ''7'' = Some 7" "digitsNat 10 0 ''3'' = Some 3" by code_simp+
  have "decodeEip3009 [(''owner'', JNum ''7''), (''agent'', JNum ''3''), (''value'', JStr ''30'')] = Ok demo_payment_req"
    by (simp add: jsonList_def decodeEip3009_def decodeSelector_def demo_payment_req_def names digits putUint_def putString_def
        del: foldName.simps digitsNat.simps)
  then show ?thesis by (simp add: decodeBody_def demo_post_def demo_payment_json jsonMembers_def)
qed

lemma demo_agent_key:
  "\<exists>k. deriveHardened demo_lib (replicate 32 1) [bip44Purpose, coin, 7, 3] = Ok k \<and> length (ak_PrivateKey k) = 32"
  by (simp add: deriveHardened_def demo_simps demo_key_def bip44Purpose_def DefaultCoinType_def)

lemma demo_signs: "length (ak_PrivateKey k) = 32 \<Longrightarrow> \<exists>sp. SignTypedData demo_lib (ak_PrivateKey k) td = Ok sp"
  by (simp add: SignTypedData_def demo_simps demo_key_def Let_def)

lemma demo_payment_served:
  "\<exists>rsp. signEip3009Handler demo_lib demo_port demo_svc (demo_post ''/sign/eip3009'' demo_payment) () =
     Some (Ok rsp, ()) \<and> rs_Code rsp = 200"
proof -
  obtain k where k: "deriveKey demo_lib demo_svc (er_Selector demo_payment_req) = Ok k" and
    len: "length (ak_PrivateKey k) = 32"
    using demo_agent_key by (auto simp: deriveKey_Ok_iff selected_def demo_svc_def demo_payment_req_def)
  have addr: "looksLikeAddress (ak_Address k)"
    using deriveKey_key [OF k] by (auto simp: demo_simps)
  have thirty: "setString 10 ''30'' = Some 30" "trimSpace ([] :: string) = []" "trimSpace ''N'' \<noteq> []"
    "trimSpace ''1'' \<noteq> []" by code_simp+
  let ?p = "\<lambda>va vb. eip3009_params_of demo_svc (ak_Address k) 30 va vb (''0x'' @ hexEncode (replicate 32 1))"
  have td: "\<exists>td. BuildEIP3009TypedData (?p va vb) (sv_gccName demo_svc) (sv_gccVersion demo_svc) = Ok td" for va vb
    using addr thirty demo_nonce
    by (simp add: BuildEIP3009TypedData_def eip3009_params_of_def demo_svc_def del: append.simps)
  have nonce: "eip3009_nonce demo_port demo_payment_req () = Some (Ok (''0x'' @ hexEncode (replicate 32 1)), ())"
    using thirty by (simp add: eip3009_nonce_def demo_payment_req_def randomNonce_def demo_port_def ret_def)
  have sign: "\<exists>rsp. eip3009_sign demo_lib demo_svc demo_payment_req 30 1000 (''0x'' @ hexEncode (replicate 32 1)) () =
      Some (Ok rsp, ()) \<and> rs_Code rsp = 200"
  proof -
    obtain td where td: "BuildEIP3009TypedData (?p (1000 - 10) (1000 + sv_timeoutSecs demo_svc))
        (sv_gccName demo_svc) (sv_gccVersion demo_svc) = Ok td" using td by blast
    obtain sp where sp: "SignTypedData demo_lib (ak_PrivateKey k) td = Ok sp" using demo_signs [OF len] by blast
    show ?thesis
      unfolding eip3009_sign_def Let_def withDerived_def k
      using td sp by (simp add: io_eval answer_def demo_payment_req_def del: append.simps)
  qed
  have conf: "sv_gccToken demo_svc \<noteq> []" "sv_payTo demo_svc \<noteq> []" "sv_chainID demo_svc \<noteq> 0"
    "sv_maxValue demo_svc = Some 100"
    by (simp_all add: demo_svc_def demo_address_text_def)
  have "signEip3009Handler demo_lib demo_port demo_svc (demo_post ''/sign/eip3009'' demo_payment) () =
      eip3009_sign demo_lib demo_svc demo_payment_req 30 1000 (''0x'' @ hexEncode (replicate 32 1)) ()"
    unfolding signEip3009Handler_def guarded_def demo_payment_decoded
    using conf nonce thirty
    by (simp add: io_eval demo_payment_req_def demo_port_def del: append.simps) (simp add: demo_post_def)
  with sign show ?thesis by simp
qed

theorem sign_eip3009_scope_witness:
  "\<exists>rsp amt (td :: typed_data) sig ms. signEip3009Handler demo_lib demo_port demo_svc (demo_post ''/sign/eip3009'' demo_payment) () =
     Some (Ok rsp, ()) \<and> map_of (td_Message td) ''to'' = Some (TStr (demo_address_text 9)) \<and>
     map_of (td_Message td) ''value'' = Some (TStr (showInt amt)) \<and>
     rs_Body rsp = JObj ms \<and> map_of ms ''signature'' = Some (JStr sig) \<and> amt \<le> (100 :: int)"
proof -
  obtain rsp where run: "signEip3009Handler demo_lib demo_port demo_svc
      (demo_post ''/sign/eip3009'' demo_payment) () = Some (Ok rsp, ())" "rs_Code rsp = 200"
    using demo_payment_served by blast
  have conf: "sv_maxValue demo_svc = Some 100" "sv_payTo demo_svc = demo_address_text 9"
    by (simp_all add: demo_svc_def)
  from sign_eip3009_scope [OF demo_sign_recover_law run, unfolded conf] show ?thesis
  proof (elim exE conjE)
    fix amt and td :: typed_data and sig ms
    assume "\<forall>m. Some 100 = Some m \<longrightarrow> amt \<le> m"
      and msg: "map_of (td_Message td) ''to'' = Some (TStr (demo_address_text 9))"
        "map_of (td_Message td) ''value'' = Some (TStr (showInt amt))"
        "rs_Body rsp = JObj ms" "map_of ms ''signature'' = Some (JStr sig)"
    then have "amt \<le> 100" by simp
    with run(1) msg show ?thesis by (intro exI conjI)
  qed
qed

theorem selector_precedence_witness:
  "\<exists>k. deriveKey demo_lib demo_svc (er_Selector demo_payment_req) = Ok k \<and>
     ak_DerivationPath k = path_text [bip44Purpose, coin, 7, 3]"
proof -
  obtain k where k: "deriveKey demo_lib demo_svc (er_Selector demo_payment_req) = Ok k"
    using demo_agent_key by (auto simp: deriveKey_Ok_iff selected_def demo_svc_def demo_payment_req_def)
  from selector_precedence [OF k, THEN conjunct1] k show ?thesis
    by (simp add: selected_def demo_payment_req_def)
qed

definition demo_recipient :: string where
  "demo_recipient = ''0x0000000000000000000000000000000000000005''"

definition demo_transfer :: string where
  "demo_transfer = ''{'' @ quoted ''owner'' @ '':7,'' @ quoted ''agent'' @ '':3,'' @ quoted ''chainID'' @ '':8453,'' @
     quoted ''gas'' @ '':21000,'' @ quoted ''value'' @ '':'' @ quoted ''12'' @ '','' @
     quoted ''to'' @ '':'' @ quoted demo_recipient @ ''}''"

definition demo_transfer_members :: "(string \<times> json) list" where
  "demo_transfer_members =
     [(''owner'', JNum ''7''), (''agent'', JNum ''3''), (''chainID'', JNum ''8453''), (''gas'', JNum ''21000''),
      (''value'', JStr ''12''), (''to'', JStr demo_recipient)]"

lemma demo_transfer_json: "jsonDecode demo_transfer = Ok (JObj demo_transfer_members)"
  unfolding demo_transfer_def demo_transfer_members_def quoted_def demo_recipient_def by (simp add: json_eval)

definition demo_transfer_req :: sign_tx_req where
  "demo_transfer_req =
     \<lparr>xr_Owner = 7, xr_Agent = 3, xr_Path = [], xr_ChainID = 8453, xr_Nonce = 0, xr_To = demo_recipient,
      xr_Data = [], xr_Value = ''12'', xr_Gas = 21000, xr_GasTipCap = [], xr_GasFeeCap = []\<rparr>"

lemma demo_transfer_decoded: "decodeBody decodeSignTx (demo_post p demo_transfer) = Ok demo_transfer_req"
proof -
  have names: "foldName ''owner'' = ''owner''" "foldName ''agent'' = ''agent''" "foldName ''value'' = ''value''"
    "foldName ''chainID'' = ''chainid''" "foldName ''path'' = ''path''" "foldName ''nonce'' = ''nonce''"
    "foldName ''gas'' = ''gas''" "foldName ''to'' = ''to''" "foldName ''data'' = ''data''"
    "foldName ''gasTipCap'' = ''gastipcap''" "foldName ''gasFeeCap'' = ''gasfeecap''" by code_simp+
  have digits: "digitsNat 10 0 ''7'' = Some 7" "digitsNat 10 0 ''3'' = Some 3"
    "digitsNat 10 0 ''21000'' = Some 21000" "setString 10 ''8453'' = Some 8453"
    by (simp_all add: digitVal_def code_def setString_def)
  have "decodeSignTx demo_transfer_members = Ok demo_transfer_req"
    by (simp add: jsonList_def decodeSignTx_def demo_transfer_members_def demo_transfer_req_def names digits putUint_def
        putInt64_def putString_def del: foldName.simps digitsNat.simps)
  then show ?thesis by (simp add: decodeBody_def demo_post_def demo_transfer_json jsonMembers_def)
qed

lemma demo_transfer_served:
  "\<exists>rsp. signTxHandler demo_lib demo_svc (demo_post ''/sign/tx'' demo_transfer) () = Some (Ok rsp, ()) \<and>
     rs_Code rsp = 200"
proof -
  obtain k where k: "signTxKey demo_lib demo_svc demo_transfer_req = Ok k" and len: "length (ak_PrivateKey k) = 32"
    using demo_agent_key by (auto simp: signTxKey_def DeriveAgent_def demo_svc_def demo_transfer_req_def)
  have eval: "demo_is_address demo_recipient" "trimSpace ([] :: string) = []" "trimSpace ''12'' = ''12''"
    "trimPrefix ([] :: string) ''0x'' = []" by code_simp+
  have twelve: "setString 10 ''12'' = Some 12" by (simp add: digitVal_def code_def setString_def)
  have args: "parseHexBytes (xr_Data demo_transfer_req) = Ok []" "decWeiOrZero (xr_Value demo_transfer_req) = Some 12"
    "decWeiOrZero (xr_GasTipCap demo_transfer_req) = Some 0" "decWeiOrZero (xr_GasFeeCap demo_transfer_req) = Some 0"
    by (simp_all add: parseHexBytes_def decWeiOrZero_def demo_transfer_req_def eval twelve)
  have ok: "\<not> (sint (xr_ChainID demo_transfer_req) \<le> 0 \<or> xr_Gas demo_transfer_req = 0 \<or>
      \<not> isHexAddress demo_lib (xr_To demo_transfer_req))"
    using eval by (simp add: demo_transfer_req_def demo_simps)
  have "\<exists>rsp. sign_tx_with demo_lib demo_svc demo_transfer_req [] 12 0 0 () = Some (Ok rsp, ()) \<and> rs_Code rsp = 200"
    unfolding sign_tx_with_def withDerived_def k
    by (simp add: io_eval answer_def demo_simps demo_key_def len del: append.simps)
  moreover have "signTxHandler demo_lib demo_svc (demo_post ''/sign/tx'' demo_transfer) () =
      sign_tx_with demo_lib demo_svc demo_transfer_req [] 12 0 0 ()"
    unfolding signTxHandler_def guarded_def demo_transfer_decoded
    using args ok by (simp add: io_eval) (simp add: demo_post_def demo_svc_def)
  ultimately show ?thesis by simp
qed

theorem sign_tx_signs_the_request_witness:
  "\<exists>rsp amt t. signTxHandler demo_lib demo_svc (demo_post ''/sign/tx'' demo_transfer) () = Some (Ok rsp, ()) \<and>
     decWeiOrZero ''12'' = Some amt \<and> tx_Value (tx_payload (t :: transaction)) = amt"
proof -
  obtain rsp where run: "signTxHandler demo_lib demo_svc (demo_post ''/sign/tx'' demo_transfer) () = Some (Ok rsp, ())"
    "rs_Code rsp = 200" using demo_transfer_served by blast
  from sign_tx_signs_the_request [OF demo_sign_tx_law run] show ?thesis
  proof (elim exE conjE)
    fix req amt tip feeCap and t :: transaction and data
    assume req: "decodeBody decodeSignTx (demo_post ''/sign/tx'' demo_transfer) = Ok req"
      and amt: "decWeiOrZero (xr_Value req) = Some amt"
      and "tx_payload t =
        \<lparr>tx_ChainID = sint (xr_ChainID req), tx_Nonce = xr_Nonce req, tx_GasTipCap = tip,
         tx_GasFeeCap = feeCap, tx_Gas = xr_Gas req, tx_To = hexToAddress demo_lib (xr_To req),
         tx_Value = amt, tx_Data = data\<rparr>"
    then have "tx_Value (tx_payload t) = amt" by simp
    moreover have "decWeiOrZero ''12'' = Some amt"
      using req amt by (auto simp: demo_transfer_decoded demo_transfer_req_def)
    ultimately show ?thesis using run(1) by (intro exI conjI)
  qed
qed

definition demo_getenv :: "string \<Rightarrow> string" where
  "demo_getenv k =
     (if k = ''WALLET_MASTER_SEED'' then hexEncode (replicate 16 1)
      else if k = ''WALLET_MAX_VALUE'' then ''1e6'' else [])"

definition demo_client :: "unit http_client" where
  "demo_client = \<lparr>hc_NewRequest = (\<lambda>_. Ok ()), hc_Do = (\<lambda>_. fail NotFound)\<rparr>"

lemma demo_start: "\<exists>V. startService demo_client (\<lambda>_. fail NotFound) demo_getenv () = Some (Ok V, ())"
proof -
  have t: "seedText (replicate 16 1) (hexEncode (replicate 16 1))" by (simp add: seedText_def)
  have trim: "trimSpace (hexEncode (replicate 16 (1 :: byte))) = hexEncode (replicate 16 1)"
    using plain_of_seedText [OF t] by (rule trimSpace_all_plain)
  have empty: "trimSpace ([] :: string) = []" by code_simp
  have none: "envOr demo_getenv ''WALLET_TEE_BASE_URL'' [] = []" "envOr demo_getenv ''WALLET_CSW_RPC_URL'' [] = []"
    by (simp_all add: envOr_def demo_getenv_def empty)
  have "loadMasterSeed demo_client demo_getenv () = Some (Ok (replicate 16 1), ())"
    unfolding loadMasterSeed_def none
    using trim seedText_decodes [OF t] seedText_nonempty [OF t]
    by (simp add: env_MasterSeed_def demo_getenv_def io_eval io_bind_lift validateSeed_def Let_def
        del: replicate.simps)
  then show ?thesis
    unfolding startService_def by (simp add: io_bind_eval cswRPCOf_def none ret_def)
qed

theorem malformed_cap_means_no_cap_witness:
  "\<exists>V. startService demo_client (\<lambda>_. fail NotFound) demo_getenv () = Some (Ok V, ()) \<and>
     startService demo_client (\<lambda>_. fail NotFound) (demo_getenv(''WALLET_MAX_VALUE'' := [])) () = Some (Ok V, ()) \<and>
     16 \<le> length (sv_seed V) \<and> demo_getenv ''WALLET_MAX_VALUE'' = ''1e6'' \<and> sv_maxValue V = None"
proof -
  obtain V where V: "startService demo_client (\<lambda>_. fail NotFound) demo_getenv () = Some (Ok V, ())"
    using demo_start by blast
  have n: "setString 10 (trimSpace (demo_getenv ''WALLET_MAX_VALUE'')) = None" by code_simp
  have "demo_getenv ''WALLET_MAX_VALUE'' = ''1e6''" by (simp add: demo_getenv_def)
  with malformed_cap_means_no_cap [of demo_getenv demo_client "\<lambda>_. fail NotFound" "()"] n V show ?thesis
    by (intro exI [of _ V]) simp
qed

end
