(* ===== verification/SmartAccount.thy ===== *)
theory SmartAccount
  imports WalletSvc
begin

text \<open>
  The two smart-account endpoints of \<open>src/cmd/wallet-svc/csw.go\<close>, whose handlers are in \<open>WalletSvc\<close>:
  what \<open>/csw/account\<close> answers for a list of owners, and which lists crash it; and what
  \<open>/csw/erc1271\<close> answers for an assertion.
\<close>

section \<open>Owners of a smart account\<close>














section \<open>What the account endpoint answers\<close>














lemma Challenge_Ok_iff:
  "Challenge a = Ok ch \<longleftrightarrow>
     (\<exists>t. decodeClientData (wa_ClientDataJSON a) = Ok (''webauthn.get'', t) \<and> b64Decode t = Ok ch)"
  by (auto simp: Challenge_def io_ok)

lemma challengeMember_map:
  "map_of (challengeMember a) ''challenge'' = Some j \<longleftrightarrow> (\<exists>ch. Challenge a = Ok ch \<and> j = JStr (''0x'' @ hexEncode ch))"
  by (cases "Challenge a") (auto simp: challengeMember_def)





section \<open>Properties\<close>






text \<open>
  C28: \<open>/csw/erc1271\<close> packages an assertion and nothing else. If it answers 200, the request's three
  fields were non-empty hexadecimal text, the blob in the answer is the smart-wallet signature of
  exactly these bytes and the requested owner index, and the answer has a challenge precisely when the
  client data is of type \<open>webauthn.get\<close> with a base64url challenge, and then it is that challenge. No
  key is involved: the world is left as it was, and every service that authorises the request gives
  the same answer, whatever its seed and settings.
\<close>

theorem csw_erc1271_packages_assertion:
  assumes "cswErc1271Handler E V r w = Some (Ok rsp, w')" and "rs_Code rsp = 200"
  shows "w' = w \<and>
    (\<forall>V' :: 'w svc. authed V' r \<longrightarrow> cswErc1271Handler E V' r w = Some (Ok rsp, w)) \<and>
    (\<exists>req ad cdj sig blob members. decodeBody decodeCswErc1271 r = Ok req \<and>
       parseHexBytes (cq_AuthenticatorData req) = Ok ad \<and> ad \<noteq> [] \<and>
       parseHexBytes (cq_ClientDataJSON req) = Ok cdj \<and> cdj \<noteq> [] \<and>
       parseHexBytes (cq_Signature req) = Ok sig \<and> sig \<noteq> [] \<and>
       BuildCSWPasskeySignature E \<lparr>wa_AuthenticatorData = ad, wa_ClientDataJSON = cdj, wa_Signature = sig\<rparr>
         (cq_OwnerIndex req) = Ok blob \<and>
       rs_Body rsp = JObj members \<and> map_of members ''erc1271'' = Some (JStr (''0x'' @ hexEncode blob)) \<and>
       (\<forall>j. map_of members ''challenge'' = Some j \<longleftrightarrow>
          (\<exists>t ch. decodeClientData cdj = Ok (''webauthn.get'', t) \<and> b64Decode t = Ok ch \<and>
             j = JStr (''0x'' @ hexEncode ch))))"
proof -
  let ?go = "\<lambda>req. case (nonEmptyHex (cq_AuthenticatorData req), nonEmptyHex (cq_ClientDataJSON req),
           nonEmptyHex (cq_Signature req)) of
       (Some ad, Some cdj, Some sig) \<Rightarrow>
         let a = \<lparr>wa_AuthenticatorData = ad, wa_ClientDataJSON = cdj, wa_Signature = sig\<rparr> in
         io_try (lift (BuildCSWPasskeySignature E a (cq_OwnerIndex req)))
           (\<lambda>e. answer 400 [(''error'', JStr ''build_failed''), (''detail'', JStr (errText e))]) (\<lambda>blob.
         answer 200 ((''erc1271'', JStr (''0x'' @ hexEncode blob)) # challengeMember a))
     | _ \<Rightarrow> refuse 400 ''authenticatorData/clientDataJSON/signature must be non-empty hex''"
  have run: "io_try (lift (decodeBody decodeCswErc1271 r)) (\<lambda>_. refuse 400 ''bad_request'') ?go w = Some (Ok rsp, w')"
    and post: "rq_Method r = ''POST''"
    using guarded_served [OF assms(1) [unfolded cswErc1271Handler_def] assms(2)] guarded_cases
      [OF assms(1) [unfolded cswErc1271Handler_def]] assms(2) by (auto simp: refuse_def io_ok)
  obtain req where req: "decodeBody decodeCswErc1271 r = Ok req" and run1: "?go req w = Some (Ok rsp, w')"
    by (rule try_lift_served [OF run assms(2)]) simp_all
  from run1 assms(2) obtain ad cdj sig where hex: "nonEmptyHex (cq_AuthenticatorData req) = Some ad"
    "nonEmptyHex (cq_ClientDataJSON req) = Some cdj" "nonEmptyHex (cq_Signature req) = Some sig"
    by (auto simp: refuse_def io_ok split: option.splits)
  let ?a = "\<lparr>wa_AuthenticatorData = ad, wa_ClientDataJSON = cdj, wa_Signature = sig\<rparr>"
  from run1 assms(2) obtain blob where blob: "BuildCSWPasskeySignature E ?a (cq_OwnerIndex req) = Ok blob"
    and body: "rs_Body rsp = JObj ((''erc1271'', JStr (''0x'' @ hexEncode blob)) # challengeMember ?a)" and w: "w' = w"
    unfolding hex option.case prod.case Let_def by (elim try_lift_served) (auto simp: io_ok)
  have bytes: "parseHexBytes s = Ok b \<and> b \<noteq> []" if "nonEmptyHex s = Some b" for s b
    using that by (auto simp: nonEmptyHex_def split: res.splits if_splits)
  have ch: "map_of (challengeMember ?a) ''challenge'' = Some j \<longleftrightarrow>
      (\<exists>t ch. decodeClientData cdj = Ok (''webauthn.get'', t) \<and> b64Decode t = Ok ch \<and> j = JStr (''0x'' @ hexEncode ch))" for j
    unfolding challengeMember_map Challenge_Ok_iff by auto
  have "cswErc1271Handler E V' r w = Some (Ok rsp, w)" if "authed V' r" for V' :: "'w svc"
    using run that post w by (simp add: cswErc1271Handler_def guarded_def)
  then show ?thesis
    using w req bytes [OF hex(1)] bytes [OF hex(2)] bytes [OF hex(3)] blob body ch by auto
qed

text \<open>The demo assertion as a request.\<close>

definition demo_client_hex :: string where
  "demo_client_hex = ''7b2274797065223a22776562617574686e2e676574222c226368616c6c656e6765223a2241227d''"

definition demo_assert :: string where
  "demo_assert = ''{'' @ quoted ''authenticatorData'' @ '':'' @ quoted ''0102'' @ '','' @
     quoted ''clientDataJSON'' @ '':'' @ quoted demo_client_hex @ '','' @
     quoted ''signature'' @ '':'' @ quoted ''300702020080020101'' @ ''}''"

definition demo_assert_req :: csw_erc1271_req where
  "demo_assert_req =
     \<lparr>cq_AuthenticatorData = ''0102'', cq_ClientDataJSON = demo_client_hex,
      cq_Signature = ''300702020080020101'', cq_OwnerIndex = 0\<rparr>"

lemma demo_assert_decoded: "decodeBody decodeCswErc1271 (demo_post p demo_assert) = Ok demo_assert_req"
proof -
  have json: "jsonDecode demo_assert =
      Ok (JObj [(''authenticatorData'', JStr ''0102''), (''clientDataJSON'', JStr demo_client_hex),
        (''signature'', JStr ''300702020080020101'')])"
    unfolding demo_assert_def quoted_def demo_client_hex_def by (simp add: json_eval)
  have names: "foldName ''authenticatorData'' = ''authenticatordata''" "foldName ''clientDataJSON'' = ''clientdatajson''"
    "foldName ''signature'' = ''signature''" "foldName ''ownerIndex'' = ''ownerindex''" by code_simp+
  show ?thesis
    by (simp add: decodeBody_def demo_post_def json jsonMembers_def decodeCswErc1271_def demo_assert_req_def names
        putString_def del: foldName.simps)
qed

lemma demo_assert_hex:
  "nonEmptyHex (cq_AuthenticatorData demo_assert_req) = Some (wa_AuthenticatorData demo_assertion)"
  "nonEmptyHex (cq_ClientDataJSON demo_assert_req) = Some (wa_ClientDataJSON demo_assertion)"
  "nonEmptyHex (cq_Signature demo_assert_req) = Some (wa_Signature demo_assertion)"
  by code_simp+

theorem csw_erc1271_packages_assertion_witness:
  "\<exists>rsp. cswErc1271Handler demo_lib demo_svc (demo_post ''/csw/erc1271'' demo_assert) () = Some (Ok rsp, ()) \<and>
     rs_Code rsp = 200 \<and> (\<exists>ms. rs_Body rsp = JObj ms \<and> map_of ms ''erc1271'' = Some (JStr (''0x'' @ hexEncode [9])))"
proof -
  let ?r = "demo_post ''/csw/erc1271'' demo_assert"
  have a: "\<lparr>wa_AuthenticatorData = wa_AuthenticatorData demo_assertion, wa_ClientDataJSON = wa_ClientDataJSON demo_assertion,
      wa_Signature = wa_Signature demo_assertion\<rparr> = demo_assertion" by (simp add: demo_assertion_def)
  have ix: "cq_OwnerIndex demo_assert_req = 0" by (simp add: demo_assert_req_def)
  have post: "rq_Method ?r = ''POST''" by (simp add: demo_post_def)
  obtain rsp where run: "cswErc1271Handler demo_lib demo_svc ?r () = Some (Ok rsp, ())" "rs_Code rsp = 200"
    unfolding cswErc1271Handler_def guarded_def
    by (simp add: post demo_assert_decoded demo_assert_hex a ix demo_blob io_eval answer_def)
  from csw_erc1271_packages_assertion [OF run] demo_assert_hex run show ?thesis
    by (auto simp: demo_assert_decoded nonEmptyHex_def a ix demo_blob split: res.splits if_splits)
qed

text \<open>
  The echoed challenge is the member that the JSON reader ends up with, while the blob points at the
  first place where one stands. Client data that names two challenges (here the octet 1, then the
  octet 2) is packaged with the first and echoed with the second.
\<close>

definition two_challenges :: string where
  "two_challenges = ''{'' @ quoted ''type'' @ '':'' @ quoted ''webauthn.get'' @ '','' @
     quoted ''challenge'' @ '':'' @ quoted ''AQ'' @ '','' @ quoted ''challenge'' @ '':'' @ quoted ''Ag'' @ ''}''"

lemma echoed_challenge_may_differ:
  "clientDataIndices (stringBytes two_challenges) = Ok (23, 1)"
  "take 2 (drop (23 + length challengeMarker) two_challenges) = ''AQ''" "b64Decode ''AQ'' = Ok [1]"
  "wa_ClientDataJSON a = stringBytes two_challenges \<Longrightarrow> Challenge a = Ok [2]"
proof -
  show "clientDataIndices (stringBytes two_challenges) = Ok (23, 1)" by code_simp
  show "take 2 (drop (23 + length challengeMarker) two_challenges) = ''AQ''" by code_simp
  show "b64Decode ''AQ'' = Ok [1]" by (simp add: b64Decode_def b64Val_def code_def Let_def)
  assume a: "wa_ClientDataJSON a = stringBytes two_challenges"
  have json: "jsonUnmarshal two_challenges = Ok (JObj [(''type'', JStr ''webauthn.get''), (''challenge'', JStr ''AQ''),
      (''challenge'', JStr ''Ag'')])"
    unfolding two_challenges_def quoted_def by (simp add: json_eval)
  have names: "foldName ''type'' = ''type''" "foldName ''challenge'' = ''challenge''" by code_simp+
  have "decodeClientData (stringBytes two_challenges) = Ok (''webauthn.get'', ''Ag'')"
    by (simp add: decodeClientData_def json jsonMembers_def names putString_def del: foldName.simps)
  moreover have "b64Decode ''Ag'' = Ok [2]" by (simp add: b64Decode_def b64Val_def code_def Let_def)
  ultimately show "Challenge a = Ok [2]" unfolding Challenge_Ok_iff a by blast
qed

end
