(* ===== verification/Spec2Isabelle.thy ===== *)
theory Spec2Isabelle
  imports Derive Typing Permit2 Signer GasFunder Authorize Spend Payment Race Reconcile Ledger Passkey SeedSource SmartAccount
begin

text \<open>
  The wallet library under \<open>src/\<close> (Go package \<open>agentwallet\<close>) and its HTTP service
  \<open>src/cmd/wallet-svc\<close>, with the properties that make them correct.

  \<^bold>\<open>The program.\<close> Every agent has a key derived from one master seed. A user signs a Permit2
  \<open>PermitSingle\<close> naming the agent as spender; \<open>VerifyAndCache\<close> checks the signature and stores it;
  \<open>Spend\<close> uses the stored authorization to move tokens from the user to a seller, funding the
  agent's gas first; a listener follows the chain's events and reconciles the store with them. The
  service offers addresses and signatures over HTTP to holders of a token, and the passkey helpers
  serve smart-contract wallets whose owners are WebAuthn keys.

  \<^bold>\<open>Parts, theories and source files.\<close> The theories, in the order of their dependencies:

  \<^item> \<open>Prelude\<close>: outcomes of a call (\<open>res\<close>), operations on a world (\<open>io\<close>), errors, and the rule
    collections \<open>io_ok\<close>, \<open>moves_intros\<close>, \<open>returns_intros\<close>, \<open>wp_simps\<close> shared by all proofs.
  \<^item> \<open>GoStrings\<close>, \<open>GoBig\<close>, \<open>GoCrypto\<close>, \<open>GoJson\<close>: the functions of Go's standard library the
    program uses (strings, hexadecimal, big integers, SHA-256, base64, DER, P-256, JSON).
  \<^item> \<open>EthLib\<close>: types of go-ethereum and go-bip32 and the record \<open>eth_lib\<close> of the functions called.
  \<^item> \<open>Derive\<close> (\<open>derive.go\<close>): \<open>Derive\<close>, \<open>DeriveAgent\<close>, \<open>DerivePath\<close>, \<open>deriveHardened\<close>, \<open>Zeroize\<close>.
  \<^item> \<open>TypedData\<close> (\<open>eip712.go\<close>): the three typed-data builders, signing, recovery; \<open>Typing\<close>: what
    EIP-712 asks of a message, and which of the built ones satisfy it.
  \<^item> \<open>Permit2\<close> (\<open>permit2.go\<close>): the calldata of \<open>permit\<close> and \<open>transferFrom\<close>.
  \<^item> \<open>Store\<close> (\<open>store.go\<close>): the store port and \<open>MemoryStore\<close>, whose state is the list \<open>rows\<close>; one
    \<open>ms_\<close> function per method.
  \<^item> \<open>Rpc\<close> (\<open>rpc.go\<close>): the node port, its adapter and \<open>WaitForReceipt\<close>.
  \<^item> \<open>World\<close>: the state in which the components are composed (rows, watermark, and the history of
    everything asked of the outside) and the ports of \<open>spend.go\<close> and \<open>listener.go\<close> over it.
  \<^item> \<open>Signer\<close> (\<open>signer.go\<close>), \<open>GasFunder\<close> (\<open>gasfunder.go\<close>), \<open>Authorize\<close> (\<open>authorize.go\<close>),
    \<open>Spend\<close> (\<open>spend.go\<close>), \<open>Listener\<close> (\<open>listener.go\<close>): the operations of each file.
  \<^item> \<open>Payment\<close>: that a spend which is allowed is made, when the outside serves it.
  \<^item> \<open>Race\<close>: spends that interleave between check and booking.
  \<^item> \<open>Follow\<close>: the listener's loop over many ticks; \<open>Reconcile\<close>: what it makes of the rows, against
    a specification in terms of chain events.
  \<^item> \<open>Ledger\<close>: the recorded totals under all operations that share the store.
  \<^item> \<open>Passkey\<close> (\<open>p256.go\<close>, \<open>webauthn.go\<close>, \<open>erc1271.go\<close>, \<open>smartaccount.go\<close>).
  \<^item> \<open>SeedSource\<close> (\<open>seedsource.go\<close>): the three sources of the master seed.
  \<^item> \<open>SvcCore\<close>, \<open>WalletSvc\<close> (\<open>cmd/wallet-svc\<close>): start-up, authorisation, key selection, and one
    definition per handler, composed by \<open>serve\<close>, the routing table; \<open>SmartAccount\<close>: what the two
    smart-account handlers answer.

  Definitions have the names of the Go functions. A Go interface is a record of operations (or a
  locale, below), a struct a record, an integer type a \<open>word\<close> of its width (\<open>int64\<close> read with \<open>sint\<close>),
  a \<open>*big.Int\<close> an \<open>int\<close> with \<open>option\<close> where the code tests for nil, a string a list of bytes.
  An outcome is \<open>Ok\<close>, \<open>Err\<close> with the error's format and arguments, or \<open>Panic\<close>.

  \<^bold>\<open>The outside.\<close> A function of go-ethereum or go-bip32 is a field of \<open>eth_lib\<close> and nothing is assumed
  of it; a property that needs its documented behaviour names that behaviour as a hypothesis (the
  \<open>_law\<close> predicates of \<open>EthLib\<close>, each shown satisfiable on the concrete \<open>demo_lib\<close>). The node, the
  clock, the context, the seller lookup and the crediter are an \<open>env\<close>: every answer is an
  arbitrary function of the history so far, and may fail, panic or never come. Random bytes, the
  environment and the HTTP exchange of the TEE seed source are parameters too.
\<close>

text \<open>
  \<^bold>\<open>What the lemmas show.\<close>

  \<^item> Spending (C1 to C5, C12, C38, C39): the order of check, payment and booking; which transactions
    can be broadcast; that an accepted authorization can be spent exactly up to its allowance; what
    is booked on each authorization along any sequence of spends; and how far interleaved spends can
    go over the allowance (the steps \<open>race_step\<close>).
  \<^item> The system (C6, in this theory): the books balance under submissions, spends and ticks.
  \<^item> The service (C7 to C9, C27, C28, C31, C33): who is answered, what a signing endpoint can have
    signed, which key is derived and used, what the smart-account endpoints answer, and two inputs it
    mishandles.
  \<^item> Authorizations (C10, C11) and typed data (C13, C26): exactly when a signature is accepted, that
    the accepted authorization is the one selected, unless another one is not older, that what the library signs it attributes to the signer, and exactly which of the messages it
    builds are well typed for the structs it declares.
  \<^item> The signer (C14, C15): recovery to its own address, and that no derived key survives a call.
  \<^item> The store (C16 to C19): an invariant of every reachable store and exactly when booking panics,
    the refinement of a finite map, and the exact effect of booking, selection and locking.
  \<^item> The listener (C20 to C23, C30, C37, C40): the decoders on emitted logs, that a tick is one window of the chain and
    refines a specification in terms of chain events, that reading logs again changes nothing, that no
    block is skipped and the head is reached, and two defects. The layouts of the logs (\<open>permitLog\<close>,
    \<open>lockdownLog\<close>, \<open>transferLog\<close>) are those that Permit2 and ERC-20 declare.
  \<^item> Gas funding and waiting (C24, C25), calldata (C29), seed sources (C32), and the passkey path
    (C34 to C36).

  \<^bold>\<open>Interfaces.\<close> \<open>row_store\<close> states what the writes of the store do to a map from
  identities to rows and its extension \<open>authorization_store\<close> which row \<open>ActiveForAgent\<close> chooses; both
  are interpreted (\<open>ms\<close>) on \<open>MemoryStore\<close>; \<open>signer_contract\<close> is interpreted (\<open>bip44\<close>) on
  \<open>BIP44Signer\<close>; \<open>gas_source\<close>, what \<open>Spend\<close> relies on in the funder it is given, is interpreted
  (\<open>funder\<close>) on \<open>RealGasFunder\<close>; \<open>master_seed_source\<close> is interpreted on the three sources and on
  the service's \<open>loadMasterSeed\<close>.

  \<^bold>\<open>Loops.\<close> Most loops are structural recursions on a list. \<open>WaitForReceipt\<close> and \<open>Run\<close> may run for
  ever, so they are partial functions whose non-termination is \<open>None\<close>: C25 shows that the first
  returns when its clock advances, C37 that the second returns only with its context (or a panic),
  and C30 that its ticks reach the head of the chain. The JSON
  reader keeps an explicit stack, and bounds it by 10000 open containers as Go does. There is no
  fuel.

  \<^bold>\<open>Conventions of the model.\<close>

  \<^item> A mutex makes the part it guards one atomic step; \<open>Spend\<close> holds none, so its interleavings are
    modelled separately.
  \<^item> \<open>equalFold\<close> is the ASCII rule of \<open>strings.EqualFold\<close>; every string the program compares that way
    is meant to be an address or the word \<open>Bearer\<close>.
  \<^item> The error text prints a non-ASCII byte under \<open>%q\<close> as it is.
  \<^item> When a JSON object repeats an array member, the later array is decoded over the elements of the
    earlier one, as \<open>encoding/json\<close> does (\<open>GoJson.putElems\<close>).
  \<^item> An answer of the service is its status and the JSON value given to \<open>writeJSON\<close>. The routing
    table answers exact paths; the multiplexer's own redirects and its 404 body are outside.

  \<^bold>\<open>Not modelled.\<close> The tests and examples, the build files, the listening socket and its timeouts, log output,
  \<open>gccDecimals\<close> (\<open>main.go\<close>), a setting nothing reads, and \<open>P256VerifyPrecompileAddress\<close> (\<open>p256.go\<close>),
  a constant for callers. The service's handlers scrub a derived key after their answer is written,
  in a buffer nothing reads again; the model of \<open>signer.go\<close>, where scrubbing is the contract (C15),
  keeps the buffer in the result. The bodies of go-ethereum and
  go-bip32 are not part of the repository.

  \<^bold>\<open>What modelling showed.\<close> Reconciliation of transfers never finds an authorization (C40); the
  \<open>Lockdown\<close> logs of Permit2 are refused and lost (C23); a Permit event erases the cached signature (\<open>Listener.permit_event_erases_signature\<close>); submitting an
  authorization again undoes a revocation and a lock (C11 and \<open>Store.upsert_overwrites_flags\<close>); a
  stored total that is no number makes \<open>BumpSpent\<close> panic (C16); a huge window rewinds the
  watermark (\<open>Listener.tick_overflow_rewinds_watermark\<close>); concurrent
  spends can exceed the allowance (C38); an oversized passkey coordinate panics a handler (C27); a
  malformed cap is dropped (C33); the EIP-3009 builder accepts values beyond its type (C26). Smaller divergences are lemmas beside the definitions:
  \<open>Authorize.zero_amount_authorized\<close>, \<open>Passkey.normalize_oversized_s\<close>,
  \<open>SmartAccount.echoed_challenge_may_differ\<close>.
\<close>

section \<open>The system\<close>

text \<open>
  \<open>system_run E N w n w'\<close>: from \<open>w\<close> the system reaches \<open>w'\<close> by operations that each end before the
  next one starts: submissions of authorizations, spends (of any agents, over the same store and
  node) and ticks of listeners, whatever each of them returns. \<open>n\<close> is the sum of the amounts of the
  spends that returned nil. A spend that panics takes the process, and with it the store, down.
\<close>

inductive system_run :: "eth_lib \<Rightarrow> env \<Rightarrow> world \<Rightarrow> int \<Rightarrow> world \<Rightarrow> bool" for E N w where
  sys_start: "system_run E N w 0 w"
| sys_authorize: "system_run E N w n u \<Longrightarrow>
    VerifyAndCache E (Some memory_store) params sigHex owner agent now u = Some (r, v) \<Longrightarrow> system_run E N w n v"
| sys_spent: "system_run E N w n u \<Longrightarrow> spend_ports N s \<Longrightarrow> honest_signer s \<Longrightarrow>
    Spend E (env_runtime N) (Some s) (Some amount) now u = Some (Ok res, v) \<Longrightarrow> system_run E N w (n + amount) v"
| sys_refused: "system_run E N w n u \<Longrightarrow> spend_ports N s \<Longrightarrow> honest_signer s \<Longrightarrow>
    Spend E (env_runtime N) (Some s) amt now u = Some (Err e, v) \<Longrightarrow> system_run E N w n v"
| sys_tick: "system_run E N w n u \<Longrightarrow> loop_ports N l \<Longrightarrow> Tick E l u = Some (q, v) \<Longrightarrow> system_run E N w n v"

lemma system_run_accounts:
  assumes "system_run E N w n w'" and "store_wf (w_rows w)"
  shows "accounts (w_rows w) n (w_rows w')"
  using assms
proof (induction rule: system_run.induct)
  case sys_start
  then show ?case by (rule accounts_refl)
next
  case (sys_authorize n u params sigHex owner agent now r v)
  then have a: "accounts (w_rows w) n (w_rows u)" by simp
  with VerifyAndCache_settled [OF sys_authorize.hyps(2)] show ?case
    using accounts_trans [OF a, of 0] by (simp add: settled_def accounts_wf [OF a])
next
  case (sys_spent n u s amount now res v)
  then have a: "accounts (w_rows w) n (w_rows u)" by simp
  from Spend_Ok_accounts [OF sys_spent.hyps(2,3) accounts_wf [OF a] sys_spent.hyps(4)]
  show ?case by (rule accounts_trans [OF a])
next
  case (sys_refused n u s amt now e v)
  then have a: "accounts (w_rows w) n (w_rows u)" by simp
  with Spend_Err_settled [OF sys_refused.hyps(2-4)] show ?case
    using accounts_trans [OF a, of 0] by (simp add: settled_def accounts_wf [OF a])
next
  case (sys_tick n u l q v)
  then have a: "accounts (w_rows w) n (w_rows u)" by simp
  with movesD [OF Tick_settled [OF sys_tick.hyps(2)] sys_tick.hyps(3)] show ?case
    using accounts_trans [OF a, of 0] by (simp add: settled_def accounts_wf [OF a])
qed

text \<open>
  C6: the books balance. Whatever sequence of submissions, spends and listener ticks runs over a
  well-formed store, the store stays well formed, the totals recorded in it grow together by exactly
  the amounts of the spends that reported success, and no authorization disappears or has its own
  total reduced: neither submitting an authorization again nor the chain's events give back
  allowance that was used.
\<close>

theorem books_balance:
  assumes "system_run E N w n w'" and "store_wf (w_rows w)"
  shows "store_wf (w_rows w') \<and> totalSpent (w_rows w') = totalSpent (w_rows w) + n \<and>
    (\<forall>i r. lookupRow (w_rows w) i = Some r \<longrightarrow>
       (\<exists>r'. lookupRow (w_rows w') i = Some r' \<and> spent r \<le> spent r'))"
  using system_run_accounts [OF assms] by (simp add: accounts_def)

theorem books_balance_witness:
  "\<exists>w'. system_run demo_lib demo_env demo_spend_world 30 w' \<and>
     totalSpent (w_rows w') = totalSpent (w_rows demo_spend_world) + 30"
proof -
  obtain r1 w1 where spent: "Spend demo_lib (env_runtime demo_env) (Some demo_spender) (Some 30) 1000 demo_spend_world =
      Some (Ok r1, w1)"
    using demo_spend [OF demo_spend_rows, of 1000 30] by auto
  from succeedsD [OF Tick_succeeds [OF demo_plain_ports(1) demo_attentive, of demo_lib], of w1] obtain w2
    where tick: "Tick demo_lib demo_loop w1 = Some (Ok (), w2)" by auto
  have "system_run demo_lib demo_env demo_spend_world (0 + 30) w2"
    by (rule sys_tick [OF sys_spent [OF sys_start demo_spend_ports demo_honest spent] demo_plain_ports(2) tick])
  then have run: "system_run demo_lib demo_env demo_spend_world 30 w2" by simp
  from books_balance [OF run demo_grant_wf] run show ?thesis by blast
qed

end
